(* ===== verification/Group.thy ===== *)
theory Group
  imports Prelude
begin

text \<open>
  \<open>mrcore/group.go\<close>: the elliptic curve group MR-1 runs over.  The \<open>Group\<close> interface is
  the record \<open>group_ops\<close> of its operations on opaque byte slices, and \<open>p256Group\<close> is its
  only implementation, every method translated with its checks and error texts.  The curve
  arithmetic itself is \<open>filippo.io/nistec\<close>, which is not part of the program: it is the
  parameter \<open>'p nistec\<close>, and \<open>nistec_ok\<close> states what its documentation promises (a
  cyclic group of order n, an encoding that decodes, x-coordinates that determine a point up to
  its sign).  Entropy is a byte stream that is consumed from the front.

  The locale \<open>mr_group\<close> is the contract of the \<open>Group\<close> interface that the protocol code
  relies on; it is interpreted on \<open>p256Group\<close> at the end of the theory.
\<close>

section \<open>Reading random bytes\<close>

text \<open>\<open>io.ReadFull\<close> on a stream that holds the given bytes and then ends.\<close>

definition ReadFull :: "nat \<Rightarrow> bytes \<Rightarrow> (bytes \<times> bytes) res" where
  "ReadFull k r =
    (if k \<le> length r then Inr (take k r, drop k r)
     else if r = [] then Inl IoEOF else Inl IoUnexpectedEOF)"

lemma ReadFull_append [simp]: "length xs = k \<Longrightarrow> ReadFull k (xs @ ys) = Inr (xs, ys)"
  by (auto simp: ReadFull_def)

lemma ReadFull_Inr:
  "ReadFull k r = Inr (b, r') \<longleftrightarrow> r = b @ r' \<and> length b = k"
  by (auto simp: ReadFull_def)

text \<open>\<open>elliptic.P256().Params().N\<close>, the order of the group.\<close>

definition p256N :: nat where
  "p256N = 115792089210356248762697446949407573529996955224135760342422259061068512044369"

lemma p256N_bounds: "1 < p256N" "p256N < 256 ^ 32"
  by (simp_all add: p256N_def)

lemma p256N_odd: "odd p256N"
  by (simp add: p256N_def)

lemma p256N_pos [simp]: "0 < p256N"
  by (simp add: p256N_def)

function randomScalarFrom :: "bytes \<Rightarrow> (bytes \<times> bytes) res" where
  "randomScalarFrom r =
    (case ReadFull 32 r of
       Inl e \<Rightarrow> Inl (wrap ''mrcore: random scalar'' e)
     | Inr (buf, r') \<Rightarrow>
         (let v = be_nat buf in
          if 0 < v \<and> v < p256N then Inr (buf, r') else randomScalarFrom r'))"
  by pat_completeness auto

termination
  by (relation "measure length") (auto simp: ReadFull_Inr)

declare randomScalarFrom.simps [simp del]

lemma randomScalarFrom_in_range:
  "randomScalarFrom r = Inr (s, r') \<Longrightarrow>
    length s = 32 \<and> 0 < be_nat s \<and> be_nat s < p256N \<and> suffix r' r"
proof (induction r rule: randomScalarFrom.induct)
  case (1 r)
  show ?case
  proof (cases "ReadFull 32 r")
    case (Inl e)
    with 1 show ?thesis by (simp add: randomScalarFrom.simps)
  next
    case (Inr p)
    obtain buf r1 where p: "p = (buf, r1)" by (cases p)
    from Inr p have r: "r = buf @ r1" and l: "length buf = 32"
      by (auto simp: ReadFull_Inr)
    have eq: "randomScalarFrom r =
        (if 0 < be_nat buf \<and> be_nat buf < p256N then Inr (buf, r1) else randomScalarFrom r1)"
      using Inr p by (subst randomScalarFrom.simps) (simp add: Let_def)
    show ?thesis
    proof (cases "0 < be_nat buf \<and> be_nat buf < p256N")
      case True
      with eq 1(2) l r show ?thesis by (auto intro: suffixI)
    next
      case False
      with eq 1(2) have "randomScalarFrom r1 = Inr (s, r')" by auto
      from 1(1) [OF Inr p [symmetric] refl False this] r show ?thesis
        by (auto intro: suffix_appendI)
    qed
  qed
qed

text \<open>The first draw that is in range is the one returned; draws before it are skipped.\<close>

lemma randomScalarFrom_accept:
  "length s = 32 \<Longrightarrow> 0 < be_nat s \<Longrightarrow> be_nat s < p256N \<Longrightarrow>
    randomScalarFrom (s @ r) = Inr (s, r)"
  by (subst randomScalarFrom.simps) simp

lemma randomScalarFrom_reject:
  "length s = 32 \<Longrightarrow> \<not> (0 < be_nat s \<and> be_nat s < p256N) \<Longrightarrow>
    randomScalarFrom (s @ r) = randomScalarFrom r"
  by (subst randomScalarFrom.simps) (auto simp: Let_def)

section \<open>Checking a private scalar\<close>

text \<open>
  The loop of \<open>scalarInRange\<close>, from the least significant byte: \<open>nonzero\<close> is a byte,
  \<open>d\<close> and \<open>borrow\<close> are 16-bit, and the subtraction wraps.
\<close>

definition sub_step :: "byte \<Rightarrow> byte \<Rightarrow> 16 word \<Rightarrow> 16 word" where
  "sub_step sb nb borrow =
    (let d = (ucast sb :: 16 word) - ucast nb - borrow in and (drop_bit 15 d) 1)"

fun scalarInRange_loop :: "bytes \<Rightarrow> bytes \<Rightarrow> byte \<Rightarrow> 16 word \<Rightarrow> byte \<times> 16 word" where
  "scalarInRange_loop (sb # s) (nb # n) nonzero borrow =
     scalarInRange_loop s n (or nonzero sb) (sub_step sb nb borrow)"
| "scalarInRange_loop _ _ nonzero borrow = (nonzero, borrow)"

definition scalarInRange :: "bytes \<Rightarrow> bytes \<Rightarrow> bool" where
  "scalarInRange s n =
    (if length s \<noteq> length n then False
     else (case scalarInRange_loop (rev s) (rev n) 0 0 of
             (nonzero, borrow) \<Rightarrow> nonzero \<noteq> 0 \<and> borrow = 1))"

definition p256Order :: bytes where
  "p256Order = be_bytes 32 p256N"

definition ValidatePrivateScalar :: "bytes \<Rightarrow> unit res" where
  "ValidatePrivateScalar scalar =
    (if length scalar \<noteq> 32 then Inl (Err (''mrcore: a P-256 scalar is 32 bytes, got '' @ show_nat (length scalar)))
     else if \<not> scalarInRange scalar p256Order
     then Inl (Err ''mrcore: scalar is not in [1, n-1]'')
     else Inr ())"

lemma sub_step_borrow:
  assumes "b = 0 \<or> b = 1"
  shows "sub_step s n b = (if unat s < unat n + unat b then 1 else 0)"
proof -
  let ?d = "(ucast s :: 16 word) - ucast n - b"
  have b: "unat b \<le> 1" using assms by auto
  have us: "unat (ucast s :: 16 word) = unat s" "unat (ucast n :: 16 word) = unat n"
    using unat_byte_less [of s] unat_byte_less [of n]
    by (simp_all add: unsigned_ucast_eq take_bit_eq_mod)
  have sum: "unat (ucast n + b) = unat n + unat b"
    using b unat_byte_less [of n] us
    by (simp add: unat_word_ariths take_bit_eq_mod)
  have d: "?d = ucast s - (ucast n + b)" by simp
  show ?thesis
  proof (cases "unat s < unat n + unat b")
    case True
    then have "unat ?d = 2 ^ 16 + unat s - (unat n + unat b)"
      unfolding d using sum us unat_byte_less [of n] b
      by (simp add: unat_sub_if_size word_size)
    then have "unat ?d div 2 ^ 15 = 1"
      using True unat_byte_less [of n] unat_byte_less [of s] b by simp
    then have "unat (drop_bit 15 ?d) = 1"
      by (simp only: unat_drop_bit_eq drop_bit_eq_div [where 'a = nat])
    then have "drop_bit 15 ?d = 1"
      by (simp add: word_unat_eq_iff)
    with True show ?thesis by (simp add: sub_step_def)
  next
    case False
    then have "unat ?d = unat s - (unat n + unat b)"
      unfolding d using sum us by (simp add: unat_sub_if_size word_size)
    then have "unat ?d div 2 ^ 15 = 0"
      using unat_byte_less [of s] by simp
    then have "unat (drop_bit 15 ?d) = 0"
      by (simp only: unat_drop_bit_eq drop_bit_eq_div [where 'a = nat])
    then have "drop_bit 15 ?d = 0"
      by (simp add: word_unat_eq_iff)
    with False show ?thesis by (simp add: sub_step_def)
  qed
qed


lemma scalarInRange_loop_correct:
  assumes "length s = length n" and "b = 0 \<or> b = 1"
  shows "scalarInRange_loop s n z b =
    (foldl or z s, if be_nat (rev s) < be_nat (rev n) + unat b then 1 else 0)"
  using assms
proof (induction s n arbitrary: z b rule: list_induct2)
  case Nil
  then show ?case by auto
next
  case (Cons x xs y ys)
  have b': "sub_step x y b = 0 \<or> sub_step x y b = 1"
    using sub_step_borrow [OF Cons.prems] by simp
  have "be_nat (rev xs) < be_nat (rev ys) + unat (sub_step x y b) \<longleftrightarrow>
      256 * be_nat (rev xs) + unat x < 256 * be_nat (rev ys) + unat y + unat b"
    using Cons.prems unat_byte_less [of x] unat_byte_less [of y]
    by (auto simp: sub_step_borrow [OF Cons.prems])
  with Cons.IH [OF b'] show ?case
    by (simp add: be_nat_snoc)
qed

lemma or_eq_0_iff_byte: "or a b = 0 \<longleftrightarrow> a = 0 \<and> b = (0 :: byte)"
  by (simp add: or_eq_0_iff)

lemma foldl_or_eq_0: "foldl or z s = (0 :: byte) \<longleftrightarrow> z = 0 \<and> (\<forall>b \<in> set s. b = 0)"
  by (induction s arbitrary: z) (auto simp: or_eq_0_iff_byte)

lemma be_nat_eq_0: "be_nat s = 0 \<longleftrightarrow> (\<forall>b \<in> set s. b = 0)"
  by (induction s) (auto simp: be_nat_Cons unat_eq_0)

theorem scalarInRange_iff:
  "scalarInRange s n \<longleftrightarrow> length s = length n \<and> 0 < be_nat s \<and> be_nat s < be_nat n"
proof (cases "length s = length n")
  case True
  have "foldl or 0 (rev s) = 0 \<longleftrightarrow> be_nat s = 0"
    by (simp add: foldl_or_eq_0 be_nat_eq_0)
  then show ?thesis
    using True scalarInRange_loop_correct [of "rev s" "rev n" 0 0]
    by (simp add: scalarInRange_def)
qed (simp add: scalarInRange_def)

lemma be_nat_p256Order: "be_nat p256Order = p256N" "length p256Order = 32"
  by (simp_all only: p256Order_def be_nat_be_bytes_small [OF p256N_bounds(2)] length_be_bytes)


section \<open>The P-256 implementation\<close>

text \<open>
  \<open>filippo.io/nistec\<close>'s \<open>P256Point\<close> as a parameter: its points are some type \<open>'p\<close>.
\<close>

record 'p nistec =
  SetBytes :: "bytes \<Rightarrow> 'p res"
  ptBytes :: "'p \<Rightarrow> bytes"
  ptBytesX :: "'p \<Rightarrow> bytes res"
  ptAdd :: "'p \<Rightarrow> 'p \<Rightarrow> 'p"
  ptScalarMult :: "'p \<Rightarrow> bytes \<Rightarrow> 'p res"
  ptScalarBaseMult :: "bytes \<Rightarrow> 'p res"

text \<open>The interface \<open>Group\<close>; \<open>RandomScalar\<close> also returns the entropy that is left.\<close>

record group_ops =
  RandomScalar :: "bytes \<Rightarrow> (bytes \<times> bytes) res"
  ScalarBaseMult :: "bytes \<Rightarrow> bytes res"
  ScalarMult :: "bytes \<Rightarrow> bytes \<Rightarrow> bytes res"
  gAdd :: "bytes \<Rightarrow> bytes \<Rightarrow> bytes res"
  Negate :: "bytes \<Rightarrow> bytes res"
  PointToX :: "bytes \<Rightarrow> bytes res"
  LiftX :: "bytes \<Rightarrow> (bytes \<times> bytes) res"

definition p256PointLen :: nat where "p256PointLen = 65"
definition p256CoordLen :: nat where "p256CoordLen = 32"
definition p256InfinityEncoded :: nat where "p256InfinityEncoded = 1"

text \<open>\<open>nb := n.Bytes(); copy(out[32-len(nb):], nb)\<close> is the fixed-width encoding of n - 1.\<close>

definition negateScalar :: bytes where
  "negateScalar = be_bytes p256CoordLen (p256N - 1)"

definition p256_ScalarBaseMult :: "'p nistec \<Rightarrow> bytes \<Rightarrow> bytes res" where
  "p256_ScalarBaseMult N scalar =
    (case ptScalarBaseMult N scalar of
       Inl e \<Rightarrow> Inl (wrap ''mrcore: scalar base mult'' e)
     | Inr p \<Rightarrow> Inr (ptBytes N p))"

definition p256_ScalarMult :: "'p nistec \<Rightarrow> bytes \<Rightarrow> bytes \<Rightarrow> bytes res" where
  "p256_ScalarMult N point scalar =
    (case SetBytes N point of
       Inl e \<Rightarrow> Inl (wrap ''mrcore: invalid point'' e)
     | Inr q \<Rightarrow>
         (case ptScalarMult N q scalar of
            Inl e \<Rightarrow> Inl (wrap ''mrcore: scalar mult'' e)
          | Inr r \<Rightarrow> Inr (ptBytes N r)))"

definition p256_Add :: "'p nistec \<Rightarrow> bytes \<Rightarrow> bytes \<Rightarrow> bytes res" where
  "p256_Add N a b =
    (case SetBytes N a of
       Inl e \<Rightarrow> Inl (wrap ''mrcore: invalid point a'' e)
     | Inr pa \<Rightarrow>
         (case SetBytes N b of
            Inl e \<Rightarrow> Inl (wrap ''mrcore: invalid point b'' e)
          | Inr pb \<Rightarrow> Inr (ptBytes N (ptAdd N pa pb))))"

definition p256_Negate :: "'p nistec \<Rightarrow> bytes \<Rightarrow> bytes res" where
  "p256_Negate N point =
    (if length point = p256InfinityEncoded \<and> point ! 0 = 0 then Inr point
     else if length point \<noteq> p256PointLen \<or> point ! 0 \<noteq> 4
     then Inl (Err ''mrcore: negate requires an uncompressed point'')
     else
       (case SetBytes N point of
          Inl e \<Rightarrow> Inl (wrap ''mrcore: invalid point'' e)
        | Inr p \<Rightarrow>
            (case ptScalarMult N p negateScalar of
               Inl e \<Rightarrow> Inl (wrap ''mrcore: negate'' e)
             | Inr r \<Rightarrow> Inr (ptBytes N r))))"

definition p256_PointToX :: "'p nistec \<Rightarrow> bytes \<Rightarrow> bytes res" where
  "p256_PointToX N point =
    (case SetBytes N point of
       Inl e \<Rightarrow> Inl (wrap ''mrcore: invalid point'' e)
     | Inr p \<Rightarrow>
         (case ptBytesX N p of
            Inl e \<Rightarrow> Inl (wrap ''mrcore: point to x'' e)
          | Inr x \<Rightarrow> Inr x))"

definition p256_LiftX :: "'p nistec \<Rightarrow> bytes \<Rightarrow> (bytes \<times> bytes) res" where
  "p256_LiftX N x =
    (if length x \<noteq> p256CoordLen
     then Inl (Err (''mrcore: x must be '' @ show_nat p256CoordLen @ '' bytes, got '' @
            show_nat (length x)))
     else
       (case SetBytes N (2 # x) of
          Inl e \<Rightarrow> Inl (wrap ''mrcore: x is not a valid P-256 x-coordinate'' e)
        | Inr pe \<Rightarrow>
            (case SetBytes N (3 # x) of
               Inl e \<Rightarrow> Inl (wrap ''mrcore: x is not a valid P-256 x-coordinate'' e)
             | Inr po \<Rightarrow> Inr (ptBytes N pe, ptBytes N po))))"

definition p256Group :: "'p nistec \<Rightarrow> group_ops" where
  "p256Group N =
    \<lparr>RandomScalar = randomScalarFrom,
     ScalarBaseMult = p256_ScalarBaseMult N,
     ScalarMult = p256_ScalarMult N,
     gAdd = p256_Add N,
     Negate = p256_Negate N,
     PointToX = p256_PointToX N,
     LiftX = p256_LiftX N\<rparr>"

lemma p256Group_sel [simp]:
  "RandomScalar (p256Group N) = randomScalarFrom"
  "ScalarBaseMult (p256Group N) = p256_ScalarBaseMult N"
  "ScalarMult (p256Group N) = p256_ScalarMult N"
  "gAdd (p256Group N) = p256_Add N"
  "Negate (p256Group N) = p256_Negate N"
  "PointToX (p256Group N) = p256_PointToX N"
  "LiftX (p256Group N) = p256_LiftX N"
  by (simp_all add: p256Group_def)

text \<open>
  What nistec documents, with \<open>pt k\<close> the point k times the generator: the points are a
  cyclic group of order n; the encoding of a point decodes to it and is one zero byte for the
  point at infinity and 65 bytes starting with 4 otherwise; \<open>SetBytes\<close> accepts the
  encoding of a point and its compressed form and nothing else; only the point at infinity has
  no x-coordinate; and the two compressed encodings of an x-coordinate are a point that has it
  and its inverse.
\<close>

definition nistec_ok :: "'p nistec \<Rightarrow> (nat \<Rightarrow> 'p) \<Rightarrow> bool" where
  "nistec_ok N pt \<longleftrightarrow>
    (\<forall>j k. pt j = pt k \<longleftrightarrow> j mod p256N = k mod p256N) \<and>
    (\<forall>b p. SetBytes N b = Inr p \<longrightarrow> (\<exists>k. p = pt k) \<and>
       (b = ptBytes N p \<or> length b = 33 \<and> hd b \<in> {2, 3} \<and> ptBytesX N p = Inr (tl b))) \<and>
    (\<forall>k. SetBytes N (ptBytes N (pt k)) = Inr (pt k)) \<and>
    ptBytes N (pt 0) = [0] \<and>
    (\<forall>k. k mod p256N \<noteq> 0 \<longrightarrow>
       length (ptBytes N (pt k)) = 65 \<and> ptBytes N (pt k) ! 0 = 4) \<and>
    (\<forall>j k. ptAdd N (pt j) (pt k) = pt (j + k)) \<and>
    (\<forall>k s. length s = 32 \<longrightarrow> ptScalarMult N (pt k) s = Inr (pt (k * be_nat s))) \<and>
    (\<forall>s. length s = 32 \<longrightarrow> ptScalarBaseMult N s = Inr (pt (be_nat s))) \<and>
    (\<not> is_ok (ptBytesX N (pt 0))) \<and>
    (\<forall>k. k mod p256N \<noteq> 0 \<longrightarrow>
       (\<exists>x p q. ptBytesX N (pt k) = Inr x \<and> ptBytesX N (pt (k * (p256N - 1))) = Inr x \<and>
          length x = 32 \<and> SetBytes N (2 # x) = Inr p \<and> SetBytes N (3 # x) = Inr q \<and>
          {p, q} = {pt k, pt (k * (p256N - 1))}))"

lemma nistec_okD:
  assumes "nistec_ok N pt"
  shows nistec_pt_eq: "pt j = pt k \<longleftrightarrow> j mod p256N = k mod p256N"
    and nistec_SetBytes_cases: "SetBytes N b = Inr p \<Longrightarrow> (\<exists>k. p = pt k) \<and>
       (b = ptBytes N p \<or> length b = 33 \<and> hd b \<in> {2, 3} \<and> ptBytesX N p = Inr (tl b))"
    and nistec_SetBytes_Bytes: "SetBytes N (ptBytes N (pt k)) = Inr (pt k)"
    and nistec_Bytes_0: "ptBytes N (pt 0) = [0]"
    and nistec_Bytes_pt: "k mod p256N \<noteq> 0 \<Longrightarrow>
       length (ptBytes N (pt k)) = 65 \<and> ptBytes N (pt k) ! 0 = 4"
    and nistec_Add: "ptAdd N (pt j) (pt k) = pt (j + k)"
    and nistec_ScalarMult: "length s = 32 \<Longrightarrow> ptScalarMult N (pt k) s = Inr (pt (k * be_nat s))"
    and nistec_ScalarBaseMult: "length s = 32 \<Longrightarrow> ptScalarBaseMult N s = Inr (pt (be_nat s))"
    and nistec_BytesX_0: "\<not> is_ok (ptBytesX N (pt 0))"
    and nistec_BytesX: "k mod p256N \<noteq> 0 \<Longrightarrow>
       \<exists>x p q. ptBytesX N (pt k) = Inr x \<and> ptBytesX N (pt (k * (p256N - 1))) = Inr x \<and>
          length x = 32 \<and> SetBytes N (2 # x) = Inr p \<and> SetBytes N (3 # x) = Inr q \<and>
          {p, q} = {pt k, pt (k * (p256N - 1))}"
  using assms unfolding nistec_ok_def by (blast+)

lemma negateScalar_simps: "length negateScalar = 32" "be_nat negateScalar = p256N - 1"
proof -
  have "p256N - 1 < 256 ^ p256CoordLen"
    using p256N_bounds(2) by (simp only: p256CoordLen_def)
  then show "be_nat negateScalar = p256N - 1"
    by (simp only: negateScalar_def be_nat_be_bytes_small)
qed (simp add: negateScalar_def p256CoordLen_def)

lemma neg_mult_mod: "0 < n \<Longrightarrow> k mod n = 0 \<Longrightarrow> (k * (n - 1)) mod n = (0::nat)"
  by (auto simp: mod_eq_0_iff_dvd)

section \<open>The contract of the interface\<close>

text \<open>
  \<open>grp N\<close> are the operations over the curve library \<open>N\<close>, \<open>ok N\<close> says that the
  library behaves as documented, \<open>pnt N k\<close> is the encoding the operations return for the
  point k times the generator and \<open>den N b k\<close> says that the slice \<open>b\<close> encodes it.
\<close>

locale mr_group =
  fixes grp :: "'n \<Rightarrow> group_ops"
    and ok :: "'n \<Rightarrow> bool"
    and pnt :: "'n \<Rightarrow> nat \<Rightarrow> bytes"
    and den :: "'n \<Rightarrow> bytes \<Rightarrow> nat \<Rightarrow> bool"
    and ord :: nat
  assumes ord_pos: "1 < ord"
    and pnt_cong: "ok N \<Longrightarrow> j mod ord = k mod ord \<Longrightarrow> pnt N j = pnt N k"
    and den_pnt: "ok N \<Longrightarrow> den N (pnt N k) k"
    and den_unique: "ok N \<Longrightarrow> den N b j \<Longrightarrow> den N b k \<Longrightarrow> j mod ord = k mod ord"
    and random_range: "RandomScalar (grp N) r = Inr (s, r') \<Longrightarrow>
      length s = 32 \<and> 0 < be_nat s \<and> be_nat s < ord"
    and base_mult: "ok N \<Longrightarrow> length s = 32 \<Longrightarrow>
      ScalarBaseMult (grp N) s = Inr (pnt N (be_nat s))"
    and mult: "ok N \<Longrightarrow> den N b k \<Longrightarrow> length s = 32 \<Longrightarrow>
      ScalarMult (grp N) b s = Inr (pnt N (k * be_nat s))"
    and add: "ok N \<Longrightarrow> den N a j \<Longrightarrow> den N b k \<Longrightarrow> gAdd (grp N) a b = Inr (pnt N (j + k))"
    and negate: "ok N \<Longrightarrow> Negate (grp N) (pnt N k) = Inr (pnt N (k * (ord - 1)))"
    and to_x_valid: "ok N \<Longrightarrow> PointToX (grp N) b = Inr x \<Longrightarrow>
      \<exists>k. den N b k \<and> k mod ord \<noteq> 0 \<and> length x = 32"
    and to_x: "ok N \<Longrightarrow> den N b k \<Longrightarrow> k mod ord \<noteq> 0 \<Longrightarrow> is_ok (PointToX (grp N) b)"
    and to_x_det: "ok N \<Longrightarrow> den N b k \<Longrightarrow> den N c k \<Longrightarrow>
      PointToX (grp N) b = PointToX (grp N) c"
    and lift_x: "ok N \<Longrightarrow> den N b k \<Longrightarrow> PointToX (grp N) b = Inr x \<Longrightarrow>
      \<exists>p q. LiftX (grp N) x = Inr (p, q) \<and> {p, q} = {pnt N k, pnt N (k * (ord - 1))}"

definition p256_ok :: "'p nistec \<times> (nat \<Rightarrow> 'p) \<Rightarrow> bool" where
  "p256_ok M = nistec_ok (fst M) (snd M)"

definition p256_pnt :: "'p nistec \<times> (nat \<Rightarrow> 'p) \<Rightarrow> nat \<Rightarrow> bytes" where
  "p256_pnt M k = ptBytes (fst M) (snd M k)"

definition p256_den :: "'p nistec \<times> (nat \<Rightarrow> 'p) \<Rightarrow> bytes \<Rightarrow> nat \<Rightarrow> bool" where
  "p256_den M b k \<longleftrightarrow> SetBytes (fst M) b = Inr (snd M k)"

lemma p256_Negate_pt:
  assumes "nistec_ok N pt"
  shows "p256_Negate N (ptBytes N (pt k)) = Inr (ptBytes N (pt (k * (p256N - 1))))"
proof (cases "k mod p256N = 0")
  case True
  then have "(k * (p256N - 1)) mod p256N = 0 mod p256N" and "k mod p256N = 0 mod p256N"
    by (auto simp: mod_eq_0_iff_dvd)
  then have "pt (k * (p256N - 1)) = pt 0" and "pt k = pt 0"
    using nistec_pt_eq [OF assms] by blast+
  then show ?thesis
    using nistec_Bytes_0 [OF assms] by (simp add: p256_Negate_def p256InfinityEncoded_def)
next
  case False
  with nistec_Bytes_pt [OF assms this] show ?thesis
    by (simp add: p256_Negate_def p256InfinityEncoded_def p256PointLen_def
        nistec_SetBytes_Bytes [OF assms] nistec_ScalarMult [OF assms] negateScalar_simps)
qed

lemma p256_PointToX_Inr:
  assumes ok: "nistec_ok N pt" and x: "p256_PointToX N b = Inr x"
  shows "\<exists>k. SetBytes N b = Inr (pt k) \<and> k mod p256N \<noteq> 0 \<and> length x = 32 \<and>
    ptBytesX N (pt k) = Inr x"
proof -
  from x obtain p where p: "SetBytes N b = Inr p" and px: "ptBytesX N p = Inr x"
    by (auto simp: p256_PointToX_def split: sum.splits)
  from nistec_SetBytes_cases [OF ok p] obtain k where k: "p = pt k" by blast
  have nz: "k mod p256N \<noteq> 0"
  proof
    assume "k mod p256N = 0"
    then have "pt k = pt 0" using nistec_pt_eq [OF ok, of k 0] by simp
    with k px nistec_BytesX_0 [OF ok] show False by simp
  qed
  with nistec_BytesX [OF ok nz] px p k show ?thesis by auto
qed

lemma p256_LiftX_pt:
  assumes ok: "nistec_ok N pt" and b: "SetBytes N b = Inr (pt k)"
    and x: "p256_PointToX N b = Inr x"
  shows "\<exists>p q. p256_LiftX N x = Inr (p, q) \<and>
    {p, q} = {ptBytes N (pt k), ptBytes N (pt (k * (p256N - 1)))}"
proof -
  from p256_PointToX_Inr [OF ok x] b obtain j where
    j: "pt k = pt j" "j mod p256N \<noteq> 0" "length x = 32" "ptBytesX N (pt k) = Inr x" by auto
  then have nz: "k mod p256N \<noteq> 0" using nistec_pt_eq [OF ok, of k j] by simp
  from nistec_BytesX [OF ok nz] j(4) obtain p q where
    pq: "SetBytes N (2 # x) = Inr p" "SetBytes N (3 # x) = Inr q"
      "{p, q} = {pt k, pt (k * (p256N - 1))}" by auto
  from pq(3) have "{ptBytes N p, ptBytes N q} =
      {ptBytes N (pt k), ptBytes N (pt (k * (p256N - 1)))}"
    by (auto simp: doubleton_eq_iff)
  with pq(1,2) j(3) show ?thesis
    by (auto simp: p256_LiftX_def p256CoordLen_def)
qed

interpretation p256: mr_group "p256Group \<circ> fst" p256_ok p256_pnt p256_den p256N
proof (unfold_locales, goal_cases)
  case 1
  show ?case by (rule p256N_bounds)
next
  case (2 N j k)
  then show ?case
    using nistec_pt_eq [of "fst N" "snd N" j k] by (simp add: p256_ok_def p256_pnt_def)
next
  case (3 N k)
  then show ?case by (simp add: p256_ok_def p256_pnt_def p256_den_def nistec_SetBytes_Bytes)
next
  case (4 N b j k)
  then show ?case by (auto simp: p256_ok_def p256_den_def nistec_pt_eq)
next
  case (5 N r s r')
  then show ?case using randomScalarFrom_in_range by fastforce
next
  case (6 N s)
  then show ?case
    by (simp add: p256_ok_def p256_pnt_def p256_ScalarBaseMult_def nistec_ScalarBaseMult)
next
  case (7 N b k s)
  then show ?case
    by (simp add: p256_ok_def p256_pnt_def p256_den_def p256_ScalarMult_def nistec_ScalarMult)
next
  case (8 N a j b k)
  then show ?case
    by (simp add: p256_ok_def p256_pnt_def p256_den_def p256_Add_def nistec_Add)
next
  case (9 N k)
  then show ?case by (simp add: p256_ok_def p256_pnt_def p256_Negate_pt)
next
  case (10 N b x)
  then show ?case
    using p256_PointToX_Inr [of "fst N" "snd N" b x] by (auto simp: p256_ok_def p256_den_def)
next
  case (11 N b k)
  then show ?case
    using nistec_BytesX [of "fst N" "snd N" k]
    by (auto simp: p256_ok_def p256_den_def p256_PointToX_def)
next
  case (12 N b k c)
  then show ?case by (simp add: p256_den_def p256_PointToX_def)
next
  case (13 N b k x)
  then show ?case
    using p256_LiftX_pt [of "fst N" "snd N" b k x]
    by (simp add: p256_ok_def p256_den_def p256_pnt_def)
qed

section \<open>A concrete library\<close>

text \<open>
  The integers modulo n with generator 1, in nistec's encodings: the x-coordinate of k is the
  smaller of k and n - k, its y-coordinate is 0 for the smaller and 1 for the larger.  It meets
  \<open>nistec_ok\<close>, so the hypothesis can hold, and it evaluates.
\<close>

definition zn_xy :: "nat \<Rightarrow> nat \<Rightarrow> nat res" where
  "zn_xy x y = (if 0 < x \<and> 2 * x < p256N \<and> y \<le> 1
     then Inr (if y = 0 then x else p256N - x) else Inl (Err ''invalid P256 point encoding''))"

definition zn_nistec :: "nat nistec" where
  "zn_nistec =
    \<lparr>SetBytes = (\<lambda>b.
       if b = [0] then Inr 0
       else if length b = 65 \<and> b ! 0 = 4
       then zn_xy (be_nat (take 32 (tl b))) (be_nat (drop 32 (tl b)))
       else if length b = 33 \<and> (b ! 0 = 2 \<or> b ! 0 = 3)
       then zn_xy (be_nat (tl b)) (unat (b ! 0) - 2)
       else Inl (Err ''invalid P256 point encoding'')),
     ptBytes = (\<lambda>k.
       if k = 0 then [0]
       else if 2 * k < p256N then 4 # be_bytes 32 k @ be_bytes 32 0
       else 4 # be_bytes 32 (p256N - k) @ be_bytes 32 1),
     ptBytesX = (\<lambda>k.
       if k = 0 then Inl (Err ''P256 point is the point at infinity'')
       else Inr (be_bytes 32 (min k (p256N - k)))),
     ptAdd = (\<lambda>j k. (j + k) mod p256N),
     ptScalarMult = (\<lambda>k s. if length s = 32 then Inr (k * be_nat s mod p256N)
       else Inl (Err ''invalid scalar length'')),
     ptScalarBaseMult = (\<lambda>s. if length s = 32 then Inr (be_nat s mod p256N)
       else Inl (Err ''invalid scalar length''))\<rparr>"

definition zn_pt :: "nat \<Rightarrow> nat" where
  "zn_pt k = k mod p256N"

lemma mod_neg_mult: "0 < n \<Longrightarrow> (k * (n - 1)) mod n = (n - k mod n) mod (n::nat)"
proof -
  assume n: "0 < n"
  let ?r = "k mod n"
  have "(k * (n - 1)) mod n = (?r * (n - 1)) mod n" by (simp add: mod_mult_left_eq)
  also have "\<dots> = (n - ?r) mod n"
  proof (cases "?r")
    case 0
    then show ?thesis by simp
  next
    case (Suc m)
    have le: "?r < n" using n by simp
    have "?r * (n - 1) = m * n + (n - ?r)"
      using Suc le by (cases n) (auto simp: algebra_simps)
    then show ?thesis by simp
  qed
  finally show ?thesis .
qed

lemma p256_order_fits: "k mod p256N < 256 ^ 32" "p256N - k < 256 ^ 32"
proof -
  have "k mod p256N < p256N" by simp
  then show "k mod p256N < 256 ^ 32" using p256N_bounds(2) by (rule order_less_trans)
  show "p256N - k < 256 ^ 32"
    using p256N_bounds(2) diff_le_self [of p256N k] by linarith
qed

lemma zn_xy_pt:
  assumes "k \<noteq> 0" "k < p256N"
  shows "2 * k < p256N \<Longrightarrow> zn_xy k 0 = Inr k"
    and "\<not> 2 * k < p256N \<Longrightarrow> zn_xy (p256N - k) 1 = Inr k"
  using assms p256N_odd by (auto simp: zn_xy_def) (presburger)

lemma zn_Bytes_decode:
  assumes "k < p256N"
  shows "SetBytes zn_nistec (ptBytes zn_nistec k) = Inr k"
proof -
  have fit: "k < 256 ^ 32" "p256N - k < 256 ^ 32" "(0::nat) < 256 ^ 32" "(1::nat) < 256 ^ 32"
    using p256_order_fits(1) [of k] p256_order_fits(2) [of k] assms by (simp_all only: mod_less)
  show ?thesis
    using zn_xy_pt [of k] assms fit [THEN be_nat_be_bytes_small]
    by (simp add: zn_nistec_def)
qed

lemma zn_SetBytes_cases:
  assumes "SetBytes zn_nistec b = Inr p"
  shows "p < p256N \<and> (b = ptBytes zn_nistec p \<or>
    length b = 33 \<and> hd b \<in> {2, 3} \<and> ptBytesX zn_nistec p = Inr (tl b))"
proof -
  consider (inf) "b = [0]" | (full) "length b = 65" "b ! 0 = 4" | (comp) "length b = 33"
    using assms by (auto simp: zn_nistec_def split: if_splits)
  then show ?thesis
  proof cases
    case inf
    then show ?thesis using assms by (auto simp: zn_nistec_def)
  next
    case full
    then have b: "b = 4 # take 32 (tl b) @ drop 32 (tl b)"
      by (cases b) auto
    have l: "length (take 32 (tl b)) = 32" "length (drop 32 (tl b)) = 32"
      using full by simp_all
    let ?x = "be_nat (take 32 (tl b))" and ?y = "be_nat (drop 32 (tl b))"
    have e: "be_bytes 32 ?x = take 32 (tl b)" "be_bytes 32 ?y = drop 32 (tl b)"
      using be_bytes_be_nat [of "take 32 (tl b)"] be_bytes_be_nat [of "drop 32 (tl b)"] l
      by simp_all
    from assms full have "zn_xy ?x ?y = Inr p"
      by (auto simp: zn_nistec_def split: if_splits)
    then have "0 < ?x" "2 * ?x < p256N" "?y \<le> 1" "p = (if ?y = 0 then ?x else p256N - ?x)"
      by (auto simp: zn_xy_def split: if_splits)
    then show ?thesis using e b
      by (cases "?y = 0") (auto simp: zn_nistec_def le_Suc_eq)
  next
    case comp
    let ?x = "be_nat (tl b)"
    have e: "be_bytes 32 ?x = tl b"
      using be_bytes_be_nat [of "tl b"] comp by simp
    from assms comp have h: "b ! 0 = 2 \<or> b ! 0 = 3"
      and z: "zn_xy ?x (unat (b ! 0) - 2) = Inr p"
      by (auto simp: zn_nistec_def split: if_splits)
    have hd: "hd b = b ! 0" using comp by (cases b) auto
    from z have "0 < ?x" "2 * ?x < p256N" "p = ?x \<or> p = p256N - ?x"
      by (auto simp: zn_xy_def split: if_splits)
    then have "0 < p \<and> p < p256N \<and> min p (p256N - p) = ?x" by auto
    then show ?thesis using e comp h hd by (auto simp: zn_nistec_def)
  qed
qed

lemma zn_compressed:
  assumes "k \<noteq> 0" "k < p256N"
  shows "\<exists>x p q. ptBytesX zn_nistec k = Inr x \<and> ptBytesX zn_nistec (p256N - k) = Inr x \<and>
    length x = 32 \<and> SetBytes zn_nistec (2 # x) = Inr p \<and> SetBytes zn_nistec (3 # x) = Inr q \<and>
    {p, q} = {k, p256N - k}"
proof -
  let ?m = "min k (p256N - k)"
  let ?x = "be_bytes 32 ?m"
  have fit: "?m < 256 ^ 32"
    using p256_order_fits(2) [of k] by (rule order_le_less_trans [rotated]) simp
  have m: "0 < ?m" "2 * ?m < p256N" using assms p256N_odd by (auto simp: min_def) presburger
  have x: "be_nat ?x = ?m" using fit by (rule be_nat_be_bytes_small)
  have k: "ptBytesX zn_nistec k = Inr ?x" "ptBytesX zn_nistec (p256N - k) = Inr ?x"
    using assms by (simp_all add: zn_nistec_def min.commute)
  have p: "SetBytes zn_nistec (2 # ?x) = Inr ?m"
    using m by (simp add: zn_nistec_def x zn_xy_def)
  have q: "SetBytes zn_nistec (3 # ?x) = Inr (p256N - ?m)"
    using m by (simp add: zn_nistec_def x zn_xy_def)
  have "{?m, p256N - ?m} = {k, p256N - k}"
    using assms by (auto simp: min_def)
  with k p q show ?thesis by (metis length_be_bytes)
qed

lemma zn_nistec_ok: "nistec_ok zn_nistec zn_pt"
  unfolding nistec_ok_def
proof (intro conjI allI impI, goal_cases)
  case (1 j k)
  show ?case by (simp add: zn_pt_def)
next
  case (2 b p)
  then show ?case using zn_SetBytes_cases [of b p] by (metis mod_less zn_pt_def)
next
  case (3 b p)
  then show ?case using zn_SetBytes_cases by blast
next
  case (4 k)
  show ?case by (simp add: zn_pt_def zn_Bytes_decode)
next
  case 5
  show ?case by (simp add: zn_nistec_def zn_pt_def)
next
  case (6 k)
  then show ?case by (simp add: zn_nistec_def zn_pt_def)
next
  case (7 k)
  then show ?case by (simp add: zn_nistec_def zn_pt_def)
next
  case (8 j k)
  then show ?case by (simp add: zn_nistec_def zn_pt_def mod_simps)
next
  case (9 k s)
  then show ?case by (simp add: zn_nistec_def zn_pt_def mod_simps)
next
  case (10 s)
  then show ?case by (simp add: zn_nistec_def zn_pt_def)
next
  case 11
  show ?case by (simp add: zn_nistec_def zn_pt_def)
next
  case (12 k)
  have "zn_pt (k * (p256N - 1)) = p256N - zn_pt k"
    using 12 by (simp add: zn_pt_def mod_neg_mult del: One_nat_def)
  with zn_compressed [of "zn_pt k"] 12 show ?case by (simp add: zn_pt_def)
qed

text \<open>
  The constant-time comparison decides what its comment says: a scalar is accepted as a
  private key exactly when it is 32 bytes and, read big-endian, in [1, n-1].
\<close>

theorem ValidatePrivateScalar_iff:
  "ValidatePrivateScalar s = Inr () \<longleftrightarrow>
    length s = 32 \<and> 0 < be_nat s \<and> be_nat s < p256N"
  by (simp add: ValidatePrivateScalar_def scalarInRange_iff be_nat_p256Order)


end
