(* ===== verification/GoText.thy ===== *)
theory GoText
  imports Prelude
begin

text \<open>
  The parts of Go's \<open>strings\<close> and \<open>strconv\<close> packages the program uses, on byte strings.
  White space is \<open>unicode.IsSpace\<close> given by its UTF-8 encodings: a white-space rune starts
  and ends where one of these byte sequences does, whatever surrounds it, so trimming and
  splitting byte by byte is what Go does rune by rune.  \<open>ToUpper\<close> and \<open>ToLower\<close> map the
  ASCII letters and the four runes outside ASCII whose image is an ASCII letter; other runes are
  left as they are, which no caller can tell apart (each looks for ASCII characters only).
\<close>

section \<open>White space\<close>

definition ws_encodings :: "string list" where
  "ws_encodings =
    [[CHR 0x09], [CHR 0x0A], [CHR 0x0B], [CHR 0x0C], [CHR 0x0D], [CHR 0x20],
     [CHR 0xC2, CHR 0x85], [CHR 0xC2, CHR 0xA0], [CHR 0xE1, CHR 0x9A, CHR 0x80],
     [CHR 0xE2, CHR 0x80, CHR 0x80], [CHR 0xE2, CHR 0x80, CHR 0x81],
     [CHR 0xE2, CHR 0x80, CHR 0x82], [CHR 0xE2, CHR 0x80, CHR 0x83],
     [CHR 0xE2, CHR 0x80, CHR 0x84], [CHR 0xE2, CHR 0x80, CHR 0x85],
     [CHR 0xE2, CHR 0x80, CHR 0x86], [CHR 0xE2, CHR 0x80, CHR 0x87],
     [CHR 0xE2, CHR 0x80, CHR 0x88], [CHR 0xE2, CHR 0x80, CHR 0x89],
     [CHR 0xE2, CHR 0x80, CHR 0x8A], [CHR 0xE2, CHR 0x80, CHR 0xA8],
     [CHR 0xE2, CHR 0x80, CHR 0xA9], [CHR 0xE2, CHR 0x80, CHR 0xAF],
     [CHR 0xE2, CHR 0x81, CHR 0x9F], [CHR 0xE3, CHR 0x80, CHR 0x80]]"

lemma ws_encodings_ne: "w \<in> set ws_encodings \<Longrightarrow> w \<noteq> []"
  by (auto simp: ws_encodings_def)

definition ws_prefix :: "string \<Rightarrow> string option" where
  "ws_prefix s = find (\<lambda>w. prefix w s) ws_encodings"

definition ws_suffix :: "string \<Rightarrow> string option" where
  "ws_suffix s = find (\<lambda>w. suffix w s) ws_encodings"

lemma ws_prefix_Some: "ws_prefix s = Some w \<Longrightarrow> w \<noteq> [] \<and> prefix w s"
  unfolding ws_prefix_def by (drule find_Some_in) (auto dest: ws_encodings_ne)

lemma ws_suffix_Some: "ws_suffix s = Some w \<Longrightarrow> w \<noteq> [] \<and> suffix w s"
  unfolding ws_suffix_def by (drule find_Some_in) (auto dest: ws_encodings_ne)

lemma ws_prefix_shrinks: "ws_prefix s = Some w \<Longrightarrow> length s - length w < length s"
  using ws_prefix_Some [of s w] by (cases s) (auto simp: prefix_def)

lemma ws_suffix_shrinks: "ws_suffix s = Some w \<Longrightarrow> length s - length w < length s"
  using ws_suffix_Some [of s w] by (cases s) (auto simp: suffix_def)

function drop_ws :: "string \<Rightarrow> string" where
  "drop_ws s = (case ws_prefix s of None \<Rightarrow> s | Some w \<Rightarrow> drop_ws (drop (length w) s))"
  by pat_completeness auto

termination
  by (relation "measure length") (auto intro: ws_prefix_shrinks)

function drop_ws_end :: "string \<Rightarrow> string" where
  "drop_ws_end s =
    (case ws_suffix s of None \<Rightarrow> s | Some w \<Rightarrow> drop_ws_end (take (length s - length w) s))"
  by pat_completeness auto

termination
  by (relation "measure length") (auto dest: ws_suffix_shrinks)

declare drop_ws.simps [simp del] drop_ws_end.simps [simp del]

definition TrimSpace :: "string \<Rightarrow> string" where
  "TrimSpace s = drop_ws_end (drop_ws s)"

lemma TrimSpace_id: "ws_prefix s = None \<Longrightarrow> ws_suffix s = None \<Longrightarrow> TrimSpace s = s"
  by (simp add: TrimSpace_def drop_ws.simps drop_ws_end.simps)

text \<open>\<open>strings.Fields\<close>.\<close>

definition push_field :: "string \<Rightarrow> string list \<Rightarrow> string list" where
  "push_field cur rest = (if cur = [] then rest else rev cur # rest)"

function fields_from :: "string \<Rightarrow> string \<Rightarrow> string list" where
  "fields_from cur s =
    (case s of
       [] \<Rightarrow> push_field cur []
     | c # cs \<Rightarrow>
         (case ws_prefix s of
            Some w \<Rightarrow> push_field cur (fields_from [] (drop (length w) s))
          | None \<Rightarrow> fields_from (c # cur) cs))"
  by pat_completeness auto

termination
  by (relation "measure (length \<circ> snd)") (auto dest: ws_prefix_shrinks)

declare fields_from.simps [simp del]

definition Fields :: "string \<Rightarrow> string list" where
  "Fields s = fields_from [] s"

section \<open>Searching and splitting\<close>

abbreviation HasPrefix :: "string \<Rightarrow> string \<Rightarrow> bool" where
  "HasPrefix s p \<equiv> prefix p s"

definition TrimPrefix :: "string \<Rightarrow> string \<Rightarrow> string" where
  "TrimPrefix s p = (if prefix p s then drop (length p) s else s)"

definition CutPrefix :: "string \<Rightarrow> string \<Rightarrow> string option" where
  "CutPrefix s p = (if prefix p s then Some (drop (length p) s) else None)"

definition TrimSuffix :: "string \<Rightarrow> string \<Rightarrow> string" where
  "TrimSuffix s p = (if suffix p s then take (length s - length p) s else s)"

lemma CutPrefix_append [simp]: "CutPrefix (p @ s) p = Some s"
  by (simp add: CutPrefix_def)

text \<open>\<open>strings.Split(s, "c")\<close> for a one-byte separator.\<close>

fun split_on :: "char \<Rightarrow> string \<Rightarrow> string list" where
  "split_on c [] = [[]]"
| "split_on c (x # xs) =
    (if x = c then [] # split_on c xs
     else (case split_on c xs of [] \<Rightarrow> [[x]] | y # ys \<Rightarrow> (x # y) # ys))"

text \<open>\<open>strings.Cut(s, "c")\<close>: before and after the first separator, or \<open>None\<close>.\<close>

fun cut_at :: "char \<Rightarrow> string \<Rightarrow> (string \<times> string) option" where
  "cut_at c [] = None"
| "cut_at c (x # xs) =
    (if x = c then Some ([], xs)
     else (case cut_at c xs of None \<Rightarrow> None | Some (a, b) \<Rightarrow> Some (x # a, b)))"

fun join_with :: "string \<Rightarrow> string list \<Rightarrow> string" where
  "join_with sep [] = []"
| "join_with sep [x] = x"
| "join_with sep (x # y # ys) = x @ sep @ join_with sep (y # ys)"

lemma split_on_ne [simp]: "split_on c s \<noteq> []"
  by (induction s) (auto split: list.splits)

lemma split_on_no_sep: "c \<notin> set s \<Longrightarrow> split_on c s = [s]"
  by (induction s) auto

lemma split_on_append: "c \<notin> set s \<Longrightarrow> split_on c (s @ c # t) = s # split_on c t"
  by (induction s) auto

lemma split_on_join:
  "ls \<noteq> [] \<Longrightarrow> (\<And>l. l \<in> set ls \<Longrightarrow> c \<notin> set l) \<Longrightarrow> split_on c (join_with [c] ls) = ls"
  by (induction "[c]" ls rule: join_with.induct) (auto simp: split_on_no_sep split_on_append)

lemma join_split_on: "join_with [c] (split_on c s) = s"
proof (induction s)
  case (Cons x xs)
  obtain y ys where "split_on c xs = y # ys" by (cases "split_on c xs") auto
  with Cons show ?case by (cases ys) auto
qed simp

lemma cut_at_append: "c \<notin> set s \<Longrightarrow> cut_at c (s @ c # t) = Some (s, t)"
  by (induction s) auto

lemma cut_at_Some: "cut_at c s = Some (a, b) \<Longrightarrow> s = a @ c # b \<and> c \<notin> set a"
  by (induction s arbitrary: a) (auto split: if_splits option.splits)

lemma cut_at_None: "cut_at c s = None \<longleftrightarrow> c \<notin> set s"
  by (induction s) (auto split: option.splits)

section \<open>Case\<close>

definition upper_char :: "char \<Rightarrow> char" where
  "upper_char c = (let n = of_char c :: nat in if 97 \<le> n \<and> n \<le> 122 then char_of (n - 32) else c)"

definition lower_char :: "char \<Rightarrow> char" where
  "lower_char c = (let n = of_char c :: nat in if 65 \<le> n \<and> n \<le> 90 then char_of (n + 32) else c)"

fun ToUpper :: "string \<Rightarrow> string" where
  "ToUpper [] = []"
| "ToUpper (c # s) =
    (if prefix [CHR 0xC4, CHR 0xB1] (c # s) then CHR ''I'' # ToUpper (tl s)
     else if prefix [CHR 0xC5, CHR 0xBF] (c # s) then CHR ''S'' # ToUpper (tl s)
     else upper_char c # ToUpper s)"

fun ToLower :: "string \<Rightarrow> string" where
  "ToLower [] = []"
| "ToLower (c # s) =
    (if prefix [CHR 0xC4, CHR 0xB0] (c # s) then CHR ''i'' # ToLower (tl s)
     else if prefix [CHR 0xE2, CHR 0x84, CHR 0xAA] (c # s) then CHR ''k'' # ToLower (tl (tl s))
     else lower_char c # ToLower s)"

definition is_ascii :: "string \<Rightarrow> bool" where
  "is_ascii s \<longleftrightarrow> (\<forall>c \<in> set s. of_char c < (128 :: nat))"

lemma ToUpper_ascii: "is_ascii s \<Longrightarrow> ToUpper s = map upper_char s"
  by (induction s rule: ToUpper.induct) (auto simp: is_ascii_def)

lemma ToLower_ascii: "is_ascii s \<Longrightarrow> ToLower s = map lower_char s"
  by (induction s rule: ToLower.induct) (auto simp: is_ascii_def)

section \<open>Numbers\<close>

definition digit_val :: "char \<Rightarrow> nat option" where
  "digit_val c = (let n = of_char c :: nat in if 48 \<le> n \<and> n \<le> 57 then Some (n - 48) else None)"

fun digits_val :: "nat \<Rightarrow> string \<Rightarrow> nat option" where
  "digits_val acc [] = Some acc"
| "digits_val acc (c # s) =
    (case digit_val c of None \<Rightarrow> None | Some d \<Rightarrow> digits_val (10 * acc + d) s)"

text \<open>\<open>strconv.Atoi\<close> on a 64-bit machine: an optional sign, digits, and a value that fits.\<close>

definition Atoi :: "string \<Rightarrow> int option" where
  "Atoi s =
    (let neg = prefix ''-'' s;
         ds = (if prefix ''-'' s \<or> prefix ''+'' s then tl s else s)
     in if ds = [] then None
        else (case digits_val 0 ds of
            None \<Rightarrow> None
          | Some v \<Rightarrow>
              if neg then (if v \<le> 2 ^ 63 then Some (- int v) else None)
              else (if v < 2 ^ 63 then Some (int v) else None)))"

text \<open>\<open>strconv.ParseUint(s, 10, bits)\<close>: digits only.\<close>

definition ParseUint :: "string \<Rightarrow> nat \<Rightarrow> nat option" where
  "ParseUint s bits =
    (if s = [] then None
     else (case digits_val 0 s of None \<Rightarrow> None | Some v \<Rightarrow> if v < 2 ^ bits then Some v else None))"

lemma digit_val_digit [simp]: "d < 10 \<Longrightarrow> digit_val (digit d) = Some d"
  by (simp add: digit_val_def digit_def)

lemma digits_val_append:
  "digits_val acc (s @ t) =
    (case digits_val acc s of None \<Rightarrow> None | Some v \<Rightarrow> digits_val v t)"
  by (induction s arbitrary: acc) (auto split: option.splits)

lemma digits_val_show_nat: "digits_val 0 (show_nat n) = Some n"
  by (induction n rule: show_nat.induct)
    (subst show_nat.simps, auto simp: digits_val_append)

lemma show_nat_ne [simp]: "show_nat n \<noteq> []"
  by (subst show_nat.simps) simp

lemma ParseUint_show_nat: "n < 2 ^ bits \<Longrightarrow> ParseUint (show_nat n) bits = Some n"
  by (simp add: ParseUint_def digits_val_show_nat)

lemma show_nat_digits: "set (show_nat n) \<subseteq> digit ` {..<10}"
proof (induction n rule: show_nat.induct)
  case (1 n)
  then show ?case by (subst show_nat.simps) auto
qed

lemma show_nat_inj: "show_nat m = show_nat n \<Longrightarrow> m = n"
  by (metis digits_val_show_nat option.inject)

section \<open>Trimming\<close>

text \<open>White space is recognised wherever one of its encodings starts or ends.\<close>

lemma ws_prefix_free:
  "\<forall>a \<in> set ws_encodings. \<forall>b \<in> set ws_encodings. prefix a b \<longrightarrow> a = b"
  by (simp add: ws_encodings_def)

lemma ws_suffix_free:
  "\<forall>a \<in> set ws_encodings. \<forall>b \<in> set ws_encodings. suffix a b \<longrightarrow> a = b"
  by (simp add: ws_encodings_def suffix_def)

lemma ws_prefix_append: "w \<in> set ws_encodings \<Longrightarrow> ws_prefix (w @ s) = Some w"
proof -
  assume w: "w \<in> set ws_encodings"
  then obtain v where v: "ws_prefix (w @ s) = Some v"
    by (cases "ws_prefix (w @ s)") (auto simp: ws_prefix_def find_None_all)
  then have "v \<in> set ws_encodings" "prefix v (w @ s)"
    by (auto simp: ws_prefix_def dest: find_Some_in)
  moreover have "prefix w (w @ s)" by simp
  ultimately have "prefix v w \<or> prefix w v" by (metis prefix_same_cases)
  with w \<open>v \<in> set ws_encodings\<close> ws_prefix_free v show ?thesis by metis
qed

lemma ws_suffix_append: "w \<in> set ws_encodings \<Longrightarrow> ws_suffix (s @ w) = Some w"
proof -
  assume w: "w \<in> set ws_encodings"
  have sw: "suffix w (s @ w)" by (simp add: suffix_def)
  with w obtain v where v: "ws_suffix (s @ w) = Some v"
    by (cases "ws_suffix (s @ w)") (auto simp: ws_suffix_def find_None_all)
  then have "v \<in> set ws_encodings" "suffix v (s @ w)"
    by (auto simp: ws_suffix_def dest: find_Some_in)
  moreover note sw
  ultimately have "suffix v w \<or> suffix w v" by (metis suffix_same_cases)
  with w \<open>v \<in> set ws_encodings\<close> ws_suffix_free v show ?thesis by metis
qed

lemma drop_ws_append: "set ws \<subseteq> set ws_encodings \<Longrightarrow> drop_ws (concat ws @ s) = drop_ws s"
  by (induction ws) (simp_all add: drop_ws.simps [of "_ @ _"] ws_prefix_append)

lemma drop_ws_end_append:
  "set ws \<subseteq> set ws_encodings \<Longrightarrow> drop_ws_end (s @ concat ws) = drop_ws_end s"
proof (induction ws rule: rev_induct)
  case (snoc w ws)
  then have "ws_suffix ((s @ concat ws) @ w) = Some w" by (intro ws_suffix_append) simp
  with snoc show ?case
    using drop_ws_end.simps [of "(s @ concat ws) @ w"] by simp
qed simp

lemma ws_prefix_ascii: "33 \<le> (of_char c :: nat) \<Longrightarrow> (of_char c :: nat) < 128 \<Longrightarrow> ws_prefix (c # s) = None"
  unfolding ws_prefix_def find_None_all ws_encodings_def by auto

lemma ws_suffix_ascii: "33 \<le> (of_char c :: nat) \<Longrightarrow> (of_char c :: nat) < 128 \<Longrightarrow> ws_suffix (s @ [c]) = None"
  unfolding ws_suffix_def find_None_all ws_encodings_def by (auto simp: suffix_def)

definition printable :: "char \<Rightarrow> bool" where
  "printable c \<longleftrightarrow> 33 \<le> (of_char c :: nat) \<and> (of_char c :: nat) < 128"

lemma TrimSpace_padded:
  assumes "set ws \<subseteq> set ws_encodings" "set ws' \<subseteq> set ws_encodings"
    and "t \<noteq> []" "printable (hd t)" "printable (last t)"
  shows "TrimSpace (concat ws @ t @ concat ws') = t"
proof -
  from assms(3,4) obtain c r where t: "t = c # r" "printable c" by (cases t) auto
  from assms(3,5) obtain l d where t': "t = l @ [d]" "printable d"
    by (cases t rule: rev_cases) auto
  have "drop_ws (concat ws @ t @ concat ws') = t @ concat ws'"
    using t assms(1) ws_prefix_ascii [of c "r @ concat ws'"]
    by (simp add: drop_ws_append drop_ws.simps [of "c # r @ concat ws'"] printable_def)
  moreover have "drop_ws_end t = t"
    using t' ws_suffix_ascii [of d l] by (simp add: drop_ws_end.simps printable_def)
  ultimately show ?thesis
    using assms(2) by (simp add: TrimSpace_def drop_ws_end_append)
qed

lemma TrimSpace_printable:
  "t \<noteq> [] \<Longrightarrow> printable (hd t) \<Longrightarrow> printable (last t) \<Longrightarrow> TrimSpace t = t"
  using TrimSpace_padded [of "[]" "[]" t] by simp

lemma TrimSpace_blanks:
  assumes "t \<noteq> []" "printable (hd t)" "printable (last t)"
  shows "TrimSpace (replicate n CHR 0x20 @ t) = t"
proof -
  have "concat (replicate n [CHR 0x20]) = replicate n CHR 0x20" by (induction n) simp_all
  moreover have "set (replicate n [CHR 0x20]) \<subseteq> set ws_encodings"
    by (auto simp: ws_encodings_def)
  ultimately show ?thesis
    using TrimSpace_padded [of "replicate n [CHR 0x20]" "[]" t] assms by simp
qed

lemma printable_digit: "d < 10 \<Longrightarrow> printable (digit d)"
  by (simp add: printable_def digit_def)

lemma printable_show_nat: "list_all printable (show_nat n)"
  using show_nat_digits [of n] by (auto simp: list_all_iff intro: printable_digit)

end
