(* ===== verification/Encoding.thy ===== *)
theory Encoding
  imports GoText
begin

text \<open>
  \<open>encoding/hex\<close>, \<open>encoding/base64\<close> (\<open>StdEncoding\<close>, which is also how
  \<open>encoding/json\<close> writes a \<open>[]byte\<close>) and \<open>encoding/base32\<close> (\<open>StdEncoding\<close>
  without padding) as the program uses them: encoders, decoders with what Go's accept, and the
  round trips.  A quantum of bytes is read as one big-endian number and written as digits.
\<close>

section \<open>Digits of a number\<close>

fun digits_of :: "nat \<Rightarrow> nat \<Rightarrow> nat \<Rightarrow> nat list" where
  "digits_of base 0 n = []"
| "digits_of base (Suc k) n = digits_of base k (n div base) @ [n mod base]"

definition of_digits :: "nat \<Rightarrow> nat list \<Rightarrow> nat" where
  "of_digits base ds = foldl (\<lambda>a d. base * a + d) 0 ds"

lemma of_digits_snoc: "of_digits base (ds @ [d]) = base * of_digits base ds + d"
  by (simp add: of_digits_def)

lemma of_digits_digits_of: "of_digits base (digits_of base k n) = n mod base ^ k"
  by (induction base k n rule: digits_of.induct)
    (simp_all add: of_digits_def mod_mult2_eq)

lemma length_digits_of [simp]: "length (digits_of base k n) = k"
  by (induction base k n rule: digits_of.induct) simp_all

lemma digits_of_less: "0 < base \<Longrightarrow> d \<in> set (digits_of base k n) \<Longrightarrow> d < base"
  by (induction base k n rule: digits_of.induct) auto

text \<open>An alphabet: the digit of value i is its i-th character.\<close>

fun index_in :: "string \<Rightarrow> char \<Rightarrow> nat option" where
  "index_in [] c = None"
| "index_in (a # as) c = (if a = c then Some 0 else map_option Suc (index_in as c))"

definition write_digits :: "string \<Rightarrow> nat list \<Rightarrow> string" where
  "write_digits alph ds = map (\<lambda>d. alph ! d) ds"

fun read_digits :: "string \<Rightarrow> string \<Rightarrow> nat list option" where
  "read_digits alph [] = Some []"
| "read_digits alph (c # cs) =
    (case index_in alph c of None \<Rightarrow> None | Some d \<Rightarrow>
      (case read_digits alph cs of None \<Rightarrow> None | Some ds \<Rightarrow> Some (d # ds)))"

lemma index_in_nth: "distinct alph \<Longrightarrow> i < length alph \<Longrightarrow> index_in alph (alph ! i) = Some i"
  by (induction alph arbitrary: i) (auto simp: nth_Cons split: nat.splits)

lemma read_write_digits:
  "distinct alph \<Longrightarrow> (\<And>d. d \<in> set ds \<Longrightarrow> d < length alph) \<Longrightarrow>
    read_digits alph (write_digits alph ds) = Some ds"
  by (induction ds) (simp_all add: write_digits_def index_in_nth)

lemma length_write_digits [simp]: "length (write_digits alph ds) = length ds"
  by (simp add: write_digits_def)

lemma write_digits_in: "(\<And>d. d \<in> set ds \<Longrightarrow> d < length alph) \<Longrightarrow>
    set (write_digits alph ds) \<subseteq> set alph"
  by (auto simp: write_digits_def)

text \<open>
  One quantum: \<open>length b\<close> bytes are written as \<open>k\<close> digits, the number they form shifted
  up by the \<open>pad\<close> bits the digits have over the bytes.
\<close>

definition enc_quantum :: "string \<Rightarrow> nat \<Rightarrow> nat \<Rightarrow> bytes \<Rightarrow> string" where
  "enc_quantum alph k pad b =
    write_digits alph (digits_of (length alph) k (be_nat b * 2 ^ pad))"

definition dec_quantum :: "string \<Rightarrow> nat \<Rightarrow> nat \<Rightarrow> string \<Rightarrow> bytes option" where
  "dec_quantum alph m pad s =
    (case read_digits alph s of None \<Rightarrow> None
     | Some ds \<Rightarrow> Some (be_bytes m (of_digits (length alph) ds div 2 ^ pad)))"

lemma dec_enc_quantum:
  assumes "distinct alph" "0 < length alph" "length b = m"
    and fit: "256 ^ m * 2 ^ pad \<le> length alph ^ k"
  shows "dec_quantum alph m pad (enc_quantum alph k pad b) = Some b"
proof -
  have "be_nat b * 2 ^ pad < 256 ^ m * 2 ^ pad"
    using be_nat_less [of b] assms(3) by simp
  also note fit
  finally have small: "be_nat b * 2 ^ pad < length alph ^ k" .
  have "read_digits alph (enc_quantum alph k pad b) =
      Some (digits_of (length alph) k (be_nat b * 2 ^ pad))"
    unfolding enc_quantum_def
    using assms(1,2) by (intro read_write_digits) (auto dest: digits_of_less [rotated])
  then show ?thesis
    using small assms(3) be_bytes_be_nat [of b]
    by (simp add: dec_quantum_def of_digits_digits_of)
qed

lemma length_enc_quantum [simp]: "length (enc_quantum alph k pad b) = k"
  by (simp add: enc_quantum_def)

lemma enc_quantum_in: "0 < length alph \<Longrightarrow> set (enc_quantum alph k pad b) \<subseteq> set alph"
  unfolding enc_quantum_def by (rule write_digits_in) (auto dest: digits_of_less [rotated])

section \<open>Hexadecimal\<close>

definition hex_alphabet :: string where
  "hex_alphabet = ''0123456789abcdef''"

definition hex_EncodeToString :: "bytes \<Rightarrow> string" where
  "hex_EncodeToString b = concat (map (\<lambda>w. enc_quantum hex_alphabet 2 0 [w]) b)"

fun hex_DecodeString :: "string \<Rightarrow> bytes option" where
  "hex_DecodeString [] = Some []"
| "hex_DecodeString [c] = None"
| "hex_DecodeString (c # d # s) =
    (case dec_quantum hex_alphabet 1 0 (ToLower [c] @ ToLower [d]) of
       None \<Rightarrow> None
     | Some b \<Rightarrow> (case hex_DecodeString s of None \<Rightarrow> None | Some r \<Rightarrow> Some (b @ r)))"

section \<open>Base64\<close>

definition b64_alphabet :: string where
  "b64_alphabet = ''ABCDEFGHIJKLMNOPQRSTUVWXYZabcdefghijklmnopqrstuvwxyz0123456789+/''"

fun b64_EncodeToString :: "bytes \<Rightarrow> string" where
  "b64_EncodeToString [] = []"
| "b64_EncodeToString [a] = enc_quantum b64_alphabet 2 4 [a] @ ''==''"
| "b64_EncodeToString [a, b] = enc_quantum b64_alphabet 3 2 [a, b] @ ''=''"
| "b64_EncodeToString (a # b # c # r) =
    enc_quantum b64_alphabet 4 0 [a, b, c] @ b64_EncodeToString r"

text \<open>The decoder skips line ends; a quantum that is not full must be padded, and ends the text.\<close>

fun b64_quanta :: "string \<Rightarrow> bytes option" where
  "b64_quanta [] = Some []"
| "b64_quanta (a # b # c # d # r) =
    (if d = CHR ''='' then
       (if r \<noteq> [] then None
        else if c = CHR ''='' then dec_quantum b64_alphabet 1 4 [a, b]
        else dec_quantum b64_alphabet 2 2 [a, b, c])
     else
       (case dec_quantum b64_alphabet 3 0 [a, b, c, d] of None \<Rightarrow> None
        | Some q \<Rightarrow> (case b64_quanta r of None \<Rightarrow> None | Some t \<Rightarrow> Some (q @ t))))"
| "b64_quanta _ = None"

definition is_newline :: "char \<Rightarrow> bool" where
  "is_newline c \<longleftrightarrow> c = CHR 0x0A \<or> c = CHR 0x0D"

definition b64_DecodeString :: "string \<Rightarrow> bytes option" where
  "b64_DecodeString s = b64_quanta (filter (\<lambda>c. \<not> is_newline c) s)"

section \<open>Base32 without padding\<close>

definition b32_alphabet :: string where
  "b32_alphabet = ''ABCDEFGHIJKLMNOPQRSTUVWXYZ234567''"

fun b32_EncodeToString :: "bytes \<Rightarrow> string" where
  "b32_EncodeToString [] = []"
| "b32_EncodeToString [a] = enc_quantum b32_alphabet 2 2 [a]"
| "b32_EncodeToString [a, b] = enc_quantum b32_alphabet 4 4 [a, b]"
| "b32_EncodeToString [a, b, c] = enc_quantum b32_alphabet 5 1 [a, b, c]"
| "b32_EncodeToString [a, b, c, d] = enc_quantum b32_alphabet 7 3 [a, b, c, d]"
| "b32_EncodeToString (a # b # c # d # e # r) =
    enc_quantum b32_alphabet 8 0 [a, b, c, d, e] @ b32_EncodeToString r"

text \<open>
  A last quantum of 2, 4, 5 or 7 characters gives 1, 2, 3 or 4 bytes; one of 1, 3 or 6
  characters, which no encoder writes, is checked and gives nothing.
\<close>

definition b32_tail :: "string \<Rightarrow> bytes option" where
  "b32_tail s =
    (if length s = 2 then dec_quantum b32_alphabet 1 2 s
     else if length s = 4 then dec_quantum b32_alphabet 2 4 s
     else if length s = 5 then dec_quantum b32_alphabet 3 1 s
     else if length s = 7 then dec_quantum b32_alphabet 4 3 s
     else dec_quantum b32_alphabet 0 0 s)"

function b32_quanta :: "string \<Rightarrow> bytes option" where
  "b32_quanta s =
    (if length s < 8 then b32_tail s
     else (case dec_quantum b32_alphabet 5 0 (take 8 s) of None \<Rightarrow> None
           | Some q \<Rightarrow> (case b32_quanta (drop 8 s) of None \<Rightarrow> None | Some t \<Rightarrow> Some (q @ t))))"
  by pat_completeness auto

termination
  by (relation "measure length") auto

declare b32_quanta.simps [simp del]

definition b32_DecodeString :: "string \<Rightarrow> bytes option" where
  "b32_DecodeString s = b32_quanta (filter (\<lambda>c. \<not> is_newline c) s)"

section \<open>Round trips\<close>

lemma alphabets [simp]:
  "distinct hex_alphabet" "length hex_alphabet = 16"
  "distinct b64_alphabet" "length b64_alphabet = 64"
  "distinct b32_alphabet" "length b32_alphabet = 32"
  by (simp_all add: hex_alphabet_def b64_alphabet_def b32_alphabet_def)

lemma enc_alphabets:
  "c \<in> set (enc_quantum hex_alphabet k pad b) \<Longrightarrow> c \<in> set hex_alphabet"
  "c \<in> set (enc_quantum b64_alphabet k pad b) \<Longrightarrow> c \<in> set b64_alphabet"
  "c \<in> set (enc_quantum b32_alphabet k pad b) \<Longrightarrow> c \<in> set b32_alphabet"
  by (erule subsetD [OF enc_quantum_in, rotated], simp)+

lemma b64_enc_chars: "set (b64_EncodeToString b) \<subseteq> set b64_alphabet \<union> {CHR ''=''}"
  by (induction b rule: b64_EncodeToString.induct)
    (auto simp del: One_nat_def dest: enc_alphabets)

lemma b32_enc_chars: "set (b32_EncodeToString b) \<subseteq> set b32_alphabet"
  by (induction b rule: b32_EncodeToString.induct)
    (auto simp del: One_nat_def dest: enc_alphabets)

lemma hex_enc_chars: "set (hex_EncodeToString b) \<subseteq> set hex_alphabet"
  by (auto simp: hex_EncodeToString_def dest: enc_alphabets)

lemma alphabet_no_newline:
  "c \<in> set b64_alphabet \<union> {CHR ''=''} \<Longrightarrow> \<not> is_newline c"
  "c \<in> set b32_alphabet \<Longrightarrow> \<not> is_newline c"
  by (auto simp: b64_alphabet_def b32_alphabet_def is_newline_def)

lemma b64_pad_notin: "CHR ''='' \<notin> set b64_alphabet"
  by (simp add: b64_alphabet_def)

lemma hex_lower [simp]: "c \<in> set hex_alphabet \<Longrightarrow> lower_char c = c"
  by (auto simp: hex_alphabet_def lower_char_def)

lemma hex_ToLower: "c \<in> set hex_alphabet \<Longrightarrow> ToLower [c] = [c]"
  by simp

theorem hex_roundtrip: "hex_DecodeString (hex_EncodeToString b) = Some b"
proof (induction b)
  case Nil
  then show ?case by (simp add: hex_EncodeToString_def)
next
  case (Cons w b)
  obtain c d where cd: "enc_quantum hex_alphabet 2 0 [w] = [c, d]"
    using length_2_list [OF length_enc_quantum] by blast
  then have "c \<in> set hex_alphabet" "d \<in> set hex_alphabet"
    using enc_alphabets(1) [of _ 2 0 "[w]"] cd by auto
  then have low: "ToLower [c] @ ToLower [d] = [c, d]" by (simp only: hex_ToLower append.simps)
  have "dec_quantum hex_alphabet 1 0 [c, d] = Some [w]"
    unfolding cd [symmetric] by (rule dec_enc_quantum) simp_all
  with low Cons cd show ?case
    by (simp add: hex_EncodeToString_def del: ToLower.simps)
qed

lemma b64_quanta_enc: "b64_quanta (b64_EncodeToString b) = Some b"
proof (induction b rule: b64_EncodeToString.induct)
  case (2 a)
  obtain c d where cd: "enc_quantum b64_alphabet 2 4 [a] = [c, d]"
    using length_2_list [OF length_enc_quantum] by blast
  have "dec_quantum b64_alphabet 1 4 [c, d] = Some [a]"
    unfolding cd [symmetric] by (rule dec_enc_quantum) simp_all
  with cd show ?case by simp
next
  case (3 a b)
  obtain c d e where cd: "enc_quantum b64_alphabet 3 2 [a, b] = [c, d, e]"
    using length_3_list [OF length_enc_quantum] by blast
  have "dec_quantum b64_alphabet 2 2 [c, d, e] = Some [a, b]"
    unfolding cd [symmetric] by (rule dec_enc_quantum) simp_all
  moreover have "e \<noteq> CHR ''=''"
    using enc_alphabets(2) [of _ 3 2 "[a, b]"] cd b64_pad_notin by auto
  ultimately show ?case using cd by simp
next
  case (4 a b c r)
  obtain x y z u where xs: "enc_quantum b64_alphabet 4 0 [a, b, c] = [x, y, z, u]"
    using length_4_list [OF length_enc_quantum] by blast
  have "dec_quantum b64_alphabet 3 0 [x, y, z, u] = Some [a, b, c]"
    unfolding xs [symmetric] by (rule dec_enc_quantum) simp_all
  moreover have "u \<noteq> CHR ''=''"
    using enc_alphabets(2) [of _ 4 0 "[a, b, c]"] xs b64_pad_notin by auto
  ultimately show ?case using 4 xs by simp
qed simp

theorem b64_roundtrip: "b64_DecodeString (b64_EncodeToString b) = Some b"
proof -
  have "filter (\<lambda>c. \<not> is_newline c) (b64_EncodeToString b) = b64_EncodeToString b"
    by (rule filter_True, rule ballI, rule alphabet_no_newline(1), erule subsetD [OF b64_enc_chars])
  then show ?thesis by (simp only: b64_DecodeString_def b64_quanta_enc)
qed

lemma b32_quanta_enc: "b32_quanta (b32_EncodeToString b) = Some b"
proof (induction b rule: b32_EncodeToString.induct)
  case 1
  show ?case by (simp add: b32_quanta.simps b32_tail_def dec_quantum_def)
next
  case (2 a)
  show ?case by (simp add: b32_quanta.simps b32_tail_def dec_enc_quantum del: One_nat_def)
next
  case (3 a b)
  show ?case by (simp add: b32_quanta.simps b32_tail_def dec_enc_quantum)
next
  case (4 a b c)
  show ?case by (simp add: b32_quanta.simps b32_tail_def dec_enc_quantum)
next
  case (5 a b c d)
  show ?case by (simp add: b32_quanta.simps b32_tail_def dec_enc_quantum)
next
  case (6 a b c d e r)
  then show ?case
    by (subst b32_quanta.simps) (simp add: dec_enc_quantum)
qed

theorem b32_roundtrip: "b32_DecodeString (b32_EncodeToString b) = Some b"
proof -
  have "filter (\<lambda>c. \<not> is_newline c) (b32_EncodeToString b) = b32_EncodeToString b"
    by (rule filter_True, rule ballI, rule alphabet_no_newline(2), erule subsetD [OF b32_enc_chars])
  then show ?thesis by (simp only: b32_DecodeString_def b32_quanta_enc)
qed

end
