(* ===== verification/Json.thy ===== *)
theory Json
  imports Encoding
begin

text \<open>
  \<open>encoding/json\<close> as the program uses it: JSON values as trees (numbers keep their literal,
  objects their keys in order), what \<open>json.Marshal\<close> prints for a tree, byte for byte with
  its escaping, the parser behind \<open>json.Unmarshal\<close>, and the rules by which a tree is stored
  into Go values (\<open>[]byte\<close> as base64, null as a no-op, keys matched without regard to case).
  The parser takes fuel; one more than the length of the text is always enough for a text that
  was printed (\<open>parse_print\<close>).  Go's limit of 10000 nested values is not modelled.
\<close>

datatype json =
    JNull
  | JBool bool
  | JNum string
  | JStr string
  | JArr "json list"
  | JObj "(string \<times> json) list"

section \<open>Runes\<close>

definition is_cont :: "char \<Rightarrow> bool" where
  "is_cont c \<longleftrightarrow> 128 \<le> (of_char c :: nat) \<and> (of_char c :: nat) < 192"

text \<open>\<open>utf8.DecodeRuneInString\<close>: the bytes of a valid first rune and the rest.\<close>

definition rune_len :: "char \<Rightarrow> nat" where
  "rune_len c =
    (let n = of_char c :: nat in
     if n < 128 then 1
     else if 194 \<le> n \<and> n < 224 then 2
     else if 224 \<le> n \<and> n < 240 then 3
     else if 240 \<le> n \<and> n < 245 then 4
     else 0)"

text \<open>Continuation bytes, no overlong form, no surrogate and nothing above U+10FFFF.\<close>

definition rune_ok :: "string \<Rightarrow> bool" where
  "rune_ok u \<longleftrightarrow>
    list_all is_cont (tl u) \<and>
    (let n = of_char (hd u) :: nat; m = of_char (u ! 1) :: nat in
     (n = 224 \<longrightarrow> 160 \<le> m) \<and> (n = 237 \<longrightarrow> m < 160) \<and>
     (n = 240 \<longrightarrow> 144 \<le> m) \<and> (n = 244 \<longrightarrow> m < 144))"

definition utf8_next :: "string \<Rightarrow> (string \<times> string) option" where
  "utf8_next s =
    (if s = [] then None
     else (let k = rune_len (hd s) in
       if 0 < k \<and> k \<le> length s \<and> rune_ok (take k s) then Some (take k s, drop k s) else None))"

lemma utf8_next_Some:
  assumes "utf8_next s = Some (u, t)"
  shows utf8_next_split: "s = u @ t"
    and utf8_next_ne: "u \<noteq> []"
    and utf8_next_hd: "hd u = hd s"
    and utf8_next_append: "utf8_next (u @ r) = Some (u, r)"
  using assms by (cases s; auto simp: utf8_next_def Let_def split: if_splits)+

lemma utf8_next_shrinks: "utf8_next s = Some (u, t) \<Longrightarrow> length t < length s"
  by (auto simp: utf8_next_def Let_def split: if_splits)

lemma utf8_next_ascii: "(of_char c :: nat) < 128 \<Longrightarrow> utf8_next (c # r) = Some ([c], r)"
  by (simp add: utf8_next_def rune_len_def rune_ok_def)

function valid_utf8 :: "string \<Rightarrow> bool" where
  "valid_utf8 s =
    (s = [] \<or> (case utf8_next s of None \<Rightarrow> False | Some (u, t) \<Rightarrow> valid_utf8 t))"
  by pat_completeness auto

termination
  by (relation "measure length") (auto dest!: utf8_next_shrinks)

declare valid_utf8.simps [simp del]

lemma valid_utf8_ascii: "is_ascii s \<Longrightarrow> valid_utf8 s"
proof (induction s)
  case Nil
  then show ?case by (simp add: valid_utf8.simps)
next
  case (Cons c s)
  then show ?case
    by (subst valid_utf8.simps) (simp add: is_ascii_def utf8_next_ascii)
qed

text \<open>\<open>utf8.AppendRune\<close>.\<close>

definition utf8_encode :: "nat \<Rightarrow> string" where
  "utf8_encode n =
    (if n < 128 then [char_of n]
     else if n < 2048 then [char_of (192 + n div 64), char_of (128 + n mod 64)]
     else if n < 65536
     then [char_of (224 + n div 4096), char_of (128 + n div 64 mod 64), char_of (128 + n mod 64)]
     else [char_of (240 + n div 262144), char_of (128 + n div 4096 mod 64),
           char_of (128 + n div 64 mod 64), char_of (128 + n mod 64)])"

definition rune_error :: string where
  "rune_error = [CHR 0xEF, CHR 0xBF, CHR 0xBD]"

section \<open>Printing\<close>

definition bslash :: char where
  "bslash = CHR 0x5C"

definition dquote :: char where
  "dquote = CHR 0x22"

definition u_escape :: "nat \<Rightarrow> string" where
  "u_escape n = bslash # CHR ''u'' # enc_quantum hex_alphabet 4 0 (be_bytes 2 n)"

definition short_escapes :: "(char \<times> char) list" where
  "short_escapes =
    [(dquote, dquote), (bslash, bslash), (CHR 0x08, CHR ''b''), (CHR 0x0C, CHR ''f''),
     (CHR 0x0A, CHR ''n''), (CHR 0x0D, CHR ''r''), (CHR 0x09, CHR ''t'')]"

definition esc_ascii :: "char \<Rightarrow> string" where
  "esc_ascii c =
    (case map_of short_escapes c of
       Some x \<Rightarrow> [bslash, x]
     | None \<Rightarrow>
         if (of_char c :: nat) < 32 \<or> c = CHR ''<'' \<or> c = CHR ''>'' \<or> c = CHR ''&''
         then u_escape (of_char c)
         else [c])"

function escape :: "string \<Rightarrow> string" where
  "escape s =
    (case s of
       [] \<Rightarrow> []
     | c # r \<Rightarrow>
         if (of_char c :: nat) < 128 then esc_ascii c @ escape r
         else (case utf8_next s of
             None \<Rightarrow> u_escape 65533 @ escape r
           | Some (u, t) \<Rightarrow>
               (if u = utf8_encode 8232 then u_escape 8232
                else if u = utf8_encode 8233 then u_escape 8233
                else u) @ escape t))"
  by pat_completeness auto

termination
  by (relation "measure length") (auto dest!: utf8_next_shrinks)

declare escape.simps [simp del]

definition quote :: "string \<Rightarrow> string" where
  "quote s = dquote # escape s @ [dquote]"

fun json_print :: "json \<Rightarrow> string"
  and print_elems :: "json list \<Rightarrow> string"
  and print_members :: "(string \<times> json) list \<Rightarrow> string" where
  "json_print JNull = ''null''"
| "json_print (JBool b) = (if b then ''true'' else ''false'')"
| "json_print (JNum n) = n"
| "json_print (JStr s) = quote s"
| "json_print (JArr xs) = CHR ''['' # print_elems xs @ [CHR '']'']"
| "json_print (JObj ms) = CHR ''{'' # print_members ms @ [CHR ''}'']"
| "print_elems [] = []"
| "print_elems [x] = json_print x"
| "print_elems (x # y # ys) = json_print x @ CHR '','' # print_elems (y # ys)"
| "print_members [] = []"
| "print_members [(k, v)] = quote k @ CHR '':'' # json_print v"
| "print_members ((k, v) # m # ms) =
     quote k @ CHR '':'' # json_print v @ CHR '','' # print_members (m # ms)"

section \<open>Parsing\<close>

definition is_json_ws :: "char \<Rightarrow> bool" where
  "is_json_ws c \<longleftrightarrow> c = CHR 0x20 \<or> c = CHR 0x09 \<or> c = CHR 0x0A \<or> c = CHR 0x0D"

definition skip_ws :: "string \<Rightarrow> string" where
  "skip_ws s = dropWhile is_json_ws s"

text \<open>Four hexadecimal digits, of either case.\<close>

definition getu4 :: "string \<Rightarrow> (nat \<times> string) option" where
  "getu4 s =
    (if length s < 4 then None
     else (case dec_quantum hex_alphabet 2 0 (map lower_char (take 4 s)) of
             None \<Rightarrow> None
           | Some b \<Rightarrow> Some (be_nat b, drop 4 s)))"

definition surrogate :: "nat \<Rightarrow> bool" where
  "surrogate n \<longleftrightarrow> 55296 \<le> n \<and> n < 57344"

text \<open>\<open>\\u\<close> escapes: a surrogate pair is one rune, a lone surrogate is U+FFFD.\<close>

definition unescape_u :: "string \<Rightarrow> (string \<times> string) option" where
  "unescape_u s =
    (case getu4 s of
       None \<Rightarrow> None
     | Some (n, t) \<Rightarrow>
         if \<not> surrogate n then Some (utf8_encode n, t)
         else if prefix [bslash, CHR ''u''] t then
           (case getu4 (drop 2 t) of
              None \<Rightarrow> Some (rune_error, t)
            | Some (m, t2) \<Rightarrow>
                if n < 56320 \<and> 56320 \<le> m \<and> m < 57344
                then Some (utf8_encode (65536 + (n - 55296) * 1024 + (m - 56320)), t2)
                else Some (rune_error, t))
         else Some (rune_error, t))"

definition short_unescapes :: "(char \<times> char) list" where
  "short_unescapes = (CHR ''/'', CHR ''/'') # map (\<lambda>(a, b). (b, a)) short_escapes"

definition unescape :: "string \<Rightarrow> (string \<times> string) option" where
  "unescape s =
    (case s of
       [] \<Rightarrow> None
     | c # r \<Rightarrow>
         if c = CHR ''u'' then unescape_u r
         else (case map_of short_unescapes c of None \<Rightarrow> None | Some x \<Rightarrow> Some ([x], r)))"

lemma unescape_short: "map_of short_escapes c = Some x \<Longrightarrow> unescape (x # r) = Some ([c], r)"
  by (auto simp: short_escapes_def short_unescapes_def unescape_def dquote_def bslash_def
      split: if_splits)

lemma short_escapes_None:
  "map_of short_escapes c = None \<Longrightarrow> c \<noteq> dquote \<and> c \<noteq> bslash"
  by (auto simp: short_escapes_def split: if_splits)

lemma getu4_shrinks: "getu4 s = Some (n, t) \<Longrightarrow> length t < length s"
  by (auto simp: getu4_def split: if_splits option.splits)

lemma unescape_shrinks: "unescape s = Some (u, t) \<Longrightarrow> length t < length s"
  by (auto simp: unescape_def unescape_u_def prefix_def
      dest!: getu4_shrinks split: list.splits if_splits option.splits)

function parse_str :: "string \<Rightarrow> (string \<times> string) option" where
  "parse_str s =
    (case s of
       [] \<Rightarrow> None
     | c # r \<Rightarrow>
         if c = dquote then Some ([], r)
         else if c = bslash then
           (case unescape r of None \<Rightarrow> None
            | Some (u, t) \<Rightarrow> map_option (apfst ((@) u)) (parse_str t))
         else if (of_char c :: nat) < 32 then None
         else (case utf8_next s of
             None \<Rightarrow> map_option (apfst ((@) rune_error)) (parse_str r)
           | Some (u, t) \<Rightarrow> map_option (apfst ((@) u)) (parse_str t)))"
  by pat_completeness auto

termination
  by (relation "measure length") (auto dest!: utf8_next_shrinks unescape_shrinks)

declare parse_str.simps [simp del]

definition number_char :: "char \<Rightarrow> bool" where
  "number_char c \<longleftrightarrow> c \<in> set ''+-.eE0123456789''"

definition digits1 :: "string \<Rightarrow> bool" where
  "digits1 s \<longleftrightarrow> s \<noteq> [] \<and> list_all (\<lambda>c. digit_val c \<noteq> None) s"

text \<open>An optional sign, an integer part with no leading zero, fraction and exponent.\<close>

definition valid_int_part :: "string \<Rightarrow> bool" where
  "valid_int_part s \<longleftrightarrow> digits1 s \<and> (length s = 1 \<or> hd s \<noteq> CHR ''0'')"

definition valid_exponent :: "string \<Rightarrow> bool" where
  "valid_exponent s \<longleftrightarrow>
    digits1 (if prefix ''+'' s \<or> prefix ''-'' s then tl s else s)"

definition valid_number :: "string \<Rightarrow> bool" where
  "valid_number s \<longleftrightarrow>
    (let body = TrimPrefix s ''-'';
         mant = takeWhile (\<lambda>c. c \<noteq> CHR ''e'' \<and> c \<noteq> CHR ''E'') body;
         expo = drop (length mant) body
     in (case cut_at CHR ''.'' mant of
           None \<Rightarrow> valid_int_part mant
         | Some (i, f) \<Rightarrow> valid_int_part i \<and> digits1 f)
        \<and> (expo = [] \<or> valid_exponent (tl expo)))"

definition parse_number :: "string \<Rightarrow> (json \<times> string) option" where
  "parse_number s =
    (let n = takeWhile number_char s
     in if valid_number n then Some (JNum n, dropWhile number_char s) else None)"

fun parse_value :: "nat \<Rightarrow> string \<Rightarrow> (json \<times> string) option"
  and parse_elems :: "nat \<Rightarrow> string \<Rightarrow> (json list \<times> string) option"
  and parse_members :: "nat \<Rightarrow> string \<Rightarrow> ((string \<times> json) list \<times> string) option" where
  "parse_value 0 s = None"
| "parse_value (Suc n) s =
    (case skip_ws s of
       [] \<Rightarrow> None
     | c # r \<Rightarrow>
         if c = CHR ''{'' then
           (if prefix ''}'' (skip_ws r) then Some (JObj [], tl (skip_ws r))
            else map_option (apfst JObj) (parse_members n r))
         else if c = CHR ''['' then
           (if prefix '']'' (skip_ws r) then Some (JArr [], tl (skip_ws r))
            else map_option (apfst JArr) (parse_elems n r))
         else if c = dquote then map_option (apfst JStr) (parse_str r)
         else if prefix ''true'' (c # r) then Some (JBool True, drop 3 r)
         else if prefix ''false'' (c # r) then Some (JBool False, drop 4 r)
         else if prefix ''null'' (c # r) then Some (JNull, drop 3 r)
         else parse_number (c # r))"
| "parse_elems 0 s = None"
| "parse_elems (Suc n) s =
    (case parse_value n s of
       None \<Rightarrow> None
     | Some (v, t) \<Rightarrow>
         (case skip_ws t of
            [] \<Rightarrow> None
          | c # r \<Rightarrow>
              if c = CHR '']'' then Some ([v], r)
              else if c = CHR '','' then map_option (apfst ((#) v)) (parse_elems n r)
              else None))"
| "parse_members 0 s = None"
| "parse_members (Suc n) s =
    (if \<not> prefix [dquote] (skip_ws s) then None
     else
       (case parse_str (tl (skip_ws s)) of
          None \<Rightarrow> None
        | Some (k, t) \<Rightarrow>
            if \<not> prefix '':'' (skip_ws t) then None
            else
              (case parse_value n (tl (skip_ws t)) of
                 None \<Rightarrow> None
               | Some (v, t2) \<Rightarrow>
                   (case skip_ws t2 of
                      [] \<Rightarrow> None
                    | c # r \<Rightarrow>
                        if c = CHR ''}'' then Some ([(k, v)], r)
                        else if c = CHR '','' then map_option (apfst ((#) (k, v))) (parse_members n r)
                        else None))))"

definition json_parse :: "string \<Rightarrow> json res" where
  "json_parse s =
    (case parse_value (Suc (length s)) s of
       Some (j, t) \<Rightarrow>
         if skip_ws t = [] then Inr j else Inl (Err ''invalid character after top-level value'')
     | None \<Rightarrow> Inl (Err ''invalid character in JSON input''))"

section \<open>Reading back what was printed\<close>

text \<open>
  A tree is printable without loss when its strings are valid UTF-8 (anything else is replaced
  by U+FFFD) and its number literals are numbers.
\<close>

fun json_wf :: "json \<Rightarrow> bool"
  and elems_wf :: "json list \<Rightarrow> bool"
  and members_wf :: "(string \<times> json) list \<Rightarrow> bool" where
  "json_wf (JNum n) = (valid_number n \<and> list_all number_char n)"
| "json_wf (JStr s) = valid_utf8 s"
| "json_wf (JArr xs) = elems_wf xs"
| "json_wf (JObj ms) = members_wf ms"
| "json_wf _ = True"
| "elems_wf [] = True"
| "elems_wf (x # xs) = (json_wf x \<and> elems_wf xs)"
| "members_wf [] = True"
| "members_wf ((k, v) # ms) = (valid_utf8 k \<and> json_wf v \<and> members_wf ms)"

lemma hex_lower_map: "set s \<subseteq> set hex_alphabet \<Longrightarrow> map lower_char s = s"
  by (induction s) auto

lemma getu4_u_escape:
  assumes "n < 65536"
  shows "getu4 (enc_quantum hex_alphabet 4 0 (be_bytes 2 n) @ t) = Some (n, t)"
proof -
  let ?q = "enc_quantum hex_alphabet 4 0 (be_bytes 2 n)"
  have low: "map lower_char ?q = ?q"
    by (rule hex_lower_map) (auto dest: enc_alphabets)
  have "dec_quantum hex_alphabet 2 0 ?q = Some (be_bytes 2 n)"
    by (rule dec_enc_quantum) simp_all
  with low assms show ?thesis
    by (simp add: getu4_def be_nat_be_bytes)
qed

lemma unescape_u_escape:
  assumes "n < 65536" "\<not> surrogate n"
  shows "u_escape n @ t = bslash # CHR ''u'' # enc_quantum hex_alphabet 4 0 (be_bytes 2 n) @ t"
    and "unescape (CHR ''u'' # enc_quantum hex_alphabet 4 0 (be_bytes 2 n) @ t) =
      Some (utf8_encode n, t)"
  using assms
  by (simp_all add: u_escape_def unescape_def unescape_u_def getu4_u_escape dquote_def bslash_def)

lemma parse_str_u_escape:
  assumes "n < 65536" "\<not> surrogate n"
  shows "parse_str (u_escape n @ t) = map_option (apfst ((@) (utf8_encode n))) (parse_str t)"
  unfolding unescape_u_escape(1) [OF assms]
  by (subst parse_str.simps) (simp add: unescape_u_escape(2) [OF assms] dquote_def bslash_def)

lemma parse_str_quote: "parse_str (dquote # t) = Some ([], t)"
  by (subst parse_str.simps) simp

lemma parse_str_esc_ascii:
  assumes "(of_char c :: nat) < 128"
  shows "parse_str (esc_ascii c @ t) = map_option (apfst ((@) [c])) (parse_str t)"
proof (cases "map_of short_escapes c")
  case (Some x)
  then have "esc_ascii c = [bslash, x]" "unescape (x # t) = Some ([c], t)"
    by (simp_all add: esc_ascii_def unescape_short)
  then show ?thesis
    by (simp, subst parse_str.simps) (simp add: dquote_def bslash_def)
next
  case None
  note ne = short_escapes_None [OF None]
  show ?thesis
  proof (cases "esc_ascii c = [c] \<and> \<not> (of_char c :: nat) < 32")
    case True
    then show ?thesis
      using ne by (simp, subst parse_str.simps) (simp add: utf8_next_ascii [OF assms])
  next
    case False
    with None have "esc_ascii c = u_escape (of_char c)"
      by (auto simp: esc_ascii_def split: if_splits)
    moreover have "utf8_encode (of_char c) = [c]" using assms by (simp add: utf8_encode_def)
    ultimately show ?thesis
      using parse_str_u_escape [of "of_char c" t] assms by (simp add: surrogate_def)
  qed
qed

lemma parse_str_rune:
  assumes "utf8_next s = Some (u, t)" "\<not> (of_char (hd s) :: nat) < 128"
  shows "parse_str (u @ r) = map_option (apfst ((@) u)) (parse_str r)"
proof -
  note nx = utf8_next_append [OF assms(1), of r]
  obtain c u' where u: "u = c # u'" using utf8_next_ne [OF assms(1)] by (cases u) simp_all
  have c: "c = hd s" using utf8_next_hd [OF assms(1)] u by simp
  then have "c \<noteq> dquote" "c \<noteq> bslash" "\<not> (of_char c :: nat) < 32"
    using assms(2) by (auto simp: dquote_def bslash_def)
  moreover have "utf8_next (c # u' @ r) = Some (c # u', r)" using nx u by simp
  ultimately show ?thesis
    unfolding u append_Cons
    by (subst parse_str.simps) (cases "parse_str r", simp_all add: apfst_def map_prod_def split_beta)
qed

lemma parse_str_escape:
  "valid_utf8 s \<Longrightarrow> parse_str (escape s @ dquote # r) = Some (s, r)"
proof (induction s rule: escape.induct)
  case (1 s)
  show ?case
  proof (cases s)
    case Nil
    then show ?thesis by (simp add: escape.simps parse_str_quote)
  next
    case (Cons c s')
    from 1(4) Cons obtain u t where ut: "utf8_next s = Some (u, t)" "valid_utf8 t"
      by (subst (asm) valid_utf8.simps) (auto split: option.splits)
    note s = utf8_next_split [OF ut(1)]
    show ?thesis
    proof (cases "(of_char c :: nat) < 128")
      case True
      with ut Cons have "t = s'" "u = [c]" by (simp_all add: utf8_next_ascii)
      with 1(1) [OF Cons True] ut have "parse_str (escape s' @ dquote # r) = Some (s', r)" by simp
      with True Cons show ?thesis
        by (subst escape.simps) (simp add: parse_str_esc_ascii)
    next
      case False
      with 1(3) [OF Cons False ut(1) refl] ut
      have ih: "parse_str (escape t @ dquote # r) = Some (t, r)" by simp
      have rune: "parse_str (u @ escape t @ dquote # r) = Some (u @ t, r)"
        using parse_str_rune [OF ut(1), of "escape t @ dquote # r"] ih False Cons by simp
      let ?e = "if u = utf8_encode 8232 then u_escape 8232
        else if u = utf8_encode 8233 then u_escape 8233 else u"
      have "parse_str (?e @ escape t @ dquote # r) = Some (u @ t, r)"
        using rune ih by (simp add: parse_str_u_escape surrogate_def)
      moreover have "escape s = ?e @ escape t"
        using False Cons ut(1) by (subst escape.simps) simp
      ultimately show ?thesis using s by simp
    qed
  qed
qed

lemma parse_number_print:
  assumes "valid_number n" "list_all number_char n" "r = [] \<or> \<not> number_char (hd r)"
  shows "parse_number (n @ r) = Some (JNum n, r)"
proof -
  have "takeWhile number_char (n @ r) = n" "dropWhile number_char (n @ r) = r"
    using assms(2,3) by (cases r; simp add: list_all_iff takeWhile_append2)+
  with assms(1) show ?thesis by (simp add: parse_number_def)
qed

lemma takeWhile_hd: "takeWhile P xs = ys \<Longrightarrow> ys \<noteq> [] \<Longrightarrow> xs \<noteq> [] \<and> hd xs = hd ys"
  by (cases xs) (auto split: if_splits)

lemma valid_number_head:
  assumes "valid_number n"
  shows "n \<noteq> [] \<and> (hd n = CHR ''-'' \<or> digit_val (hd n) \<noteq> None)"
proof -
  let ?body = "TrimPrefix n ''-''"
  let ?mant = "takeWhile (\<lambda>c. c \<noteq> CHR ''e'' \<and> c \<noteq> CHR ''E'') ?body"
  have int: "\<exists>i rest. digits1 i \<and> ?mant = i @ rest"
    using assms by (auto simp: valid_number_def valid_int_part_def Let_def
        dest!: cut_at_Some split: option.splits)
  then obtain i rest where i: "digits1 i" "?mant = i @ rest" by blast
  then have d: "digit_val (hd i) \<noteq> None" and ne: "i \<noteq> []"
    by (auto simp: digits1_def neq_Nil_conv list_all_iff)
  with i(2) have body: "?body \<noteq> []" "hd ?body = hd i"
    by (auto dest: takeWhile_hd)
  show ?thesis
    using body d by (cases n) (auto simp: TrimPrefix_def split: if_splits)
qed

lemma skip_ws_head: "s \<noteq> [] \<Longrightarrow> \<not> is_json_ws (hd s) \<Longrightarrow> skip_ws s = s"
  by (cases s) (simp_all add: skip_ws_def)

lemma digit_not_special:
  "digit_val c \<noteq> None \<Longrightarrow> c \<notin> set ''{[tfn '' \<and> c \<noteq> dquote \<and> \<not> is_json_ws c"
  by (auto simp: digit_val_def dquote_def is_json_ws_def Let_def split: if_splits)

text \<open>The first character of a printed value tells its kind, and is not white space.\<close>

lemma json_print_head:
  assumes "json_wf j"
  shows "json_print j \<noteq> [] \<and> \<not> is_json_ws (hd (json_print j)) \<and>
    hd (json_print j) \<noteq> CHR '']''"
proof (cases j)
  case (JNum n)
  with assms have v: "valid_number n" by simp
  from valid_number_head [OF v] show ?thesis
    using JNum digit_not_special [of "hd n"]
    by (auto simp: is_json_ws_def digit_val_def Let_def split: if_splits)
qed (auto simp: quote_def is_json_ws_def dquote_def)

lemma skip_ws_print: "json_wf j \<Longrightarrow> skip_ws (json_print j @ r) = json_print j @ r"
  using json_print_head [of j] by (intro skip_ws_head) auto

fun json_size :: "json \<Rightarrow> nat"
  and elems_size :: "json list \<Rightarrow> nat"
  and members_size :: "(string \<times> json) list \<Rightarrow> nat" where
  "json_size (JArr xs) = Suc (elems_size xs)"
| "json_size (JObj ms) = Suc (members_size ms)"
| "json_size _ = 1"
| "elems_size [] = 0"
| "elems_size (x # xs) = Suc (json_size x + elems_size xs)"
| "members_size [] = 0"
| "members_size ((k, v) # ms) = Suc (json_size v + members_size ms)"

definition ends_value :: "string \<Rightarrow> bool" where
  "ends_value r \<longleftrightarrow> r = [] \<or> (\<not> number_char (hd r) \<and> \<not> is_json_ws (hd r))"

lemma ends_value_simps [simp]:
  "ends_value []" "ends_value (CHR '','' # r)" "ends_value (CHR '']'' # r)"
  "ends_value (CHR ''}'' # r)"
  by (simp_all add: ends_value_def number_char_def is_json_ws_def)

lemma skip_ws_simps [simp]:
  "skip_ws (CHR '','' # r) = CHR '','' # r" "skip_ws (CHR '']'' # r) = CHR '']'' # r"
  "skip_ws (CHR ''}'' # r) = CHR ''}'' # r" "skip_ws (CHR '':'' # r) = CHR '':'' # r"
  "skip_ws (dquote # r) = dquote # r" "skip_ws [] = []"
  by (simp_all add: skip_ws_def is_json_ws_def dquote_def)

lemma print_elems_head:
  "elems_wf (x # xs) \<Longrightarrow> skip_ws (print_elems (x # xs) @ r) = print_elems (x # xs) @ r \<and>
    \<not> prefix '']'' (print_elems (x # xs) @ r)"
proof -
  assume "elems_wf (x # xs)"
  then have h: "json_print x \<noteq> [] \<and> \<not> is_json_ws (hd (json_print x)) \<and>
      hd (json_print x) \<noteq> CHR '']''"
    using json_print_head [of x] by simp
  then obtain c t where x: "json_print x = c # t" by (cases "json_print x") auto
  then obtain t' where "print_elems (x # xs) @ r = c # t'" by (cases xs) auto
  with h x show ?thesis by (auto simp: skip_ws_head)
qed

lemma print_members_head:
  "\<exists>t. print_members (m # ms) = dquote # t"
  by (cases m; cases ms) (auto simp: quote_def)

lemma parse_value_heads:
  "parse_value (Suc n) (dquote # r) = map_option (apfst JStr) (parse_str r)"
  "parse_value (Suc n) (CHR ''{'' # CHR ''}'' # r) = Some (JObj [], r)"
  "parse_value (Suc n) (CHR ''['' # CHR '']'' # r) = Some (JArr [], r)"
  "\<not> prefix ''}'' (skip_ws r) \<Longrightarrow>
    parse_value (Suc n) (CHR ''{'' # r) = map_option (apfst JObj) (parse_members n r)"
  "\<not> prefix '']'' (skip_ws r) \<Longrightarrow>
    parse_value (Suc n) (CHR ''['' # r) = map_option (apfst JArr) (parse_elems n r)"
  "parse_value (Suc n) (''true'' @ r) = Some (JBool True, r)"
  "parse_value (Suc n) (''false'' @ r) = Some (JBool False, r)"
  "parse_value (Suc n) (''null'' @ r) = Some (JNull, r)"
  by (simp_all add: skip_ws_head is_json_ws_def dquote_def)

lemma parse_value_other:
  assumes "\<not> is_json_ws c" "c \<noteq> dquote" "c \<notin> set ''{[tfn''"
  shows "parse_value (Suc n) (c # r) = parse_number (c # r)"
  using assms by (auto simp: skip_ws_head)

declare parse_value.simps [simp del]

lemma parse_value_number:
  assumes "valid_number n" "list_all number_char n" "ends_value r"
  shows "parse_value (Suc k) (n @ r) = Some (JNum n, r)"
proof -
  note h = valid_number_head [OF assms(1)]
  then obtain c n' where n: "n = c # n'" by (cases n) auto
  from h n consider "c = CHR ''-''" | "digit_val c \<noteq> None" by auto
  then have c: "\<not> is_json_ws c \<and> c \<noteq> dquote \<and> c \<notin> set ''{[tfn''"
    by cases (use digit_not_special [of c] in \<open>simp_all add: is_json_ws_def dquote_def\<close>)
  have "parse_number (n @ r) = Some (JNum n, r)"
    using assms(3) by (intro parse_number_print assms(1,2)) (auto simp: ends_value_def)
  then show ?thesis
    using c unfolding n append_Cons by (simp add: parse_value_other)
qed

theorem parse_print_all:
  "json_wf j \<Longrightarrow> json_size j \<le> n \<Longrightarrow> ends_value r \<Longrightarrow>
     parse_value n (json_print j @ r) = Some (j, r)"
  "elems_wf xs \<Longrightarrow> xs \<noteq> [] \<Longrightarrow> elems_size xs \<le> n \<Longrightarrow>
     parse_elems n (print_elems xs @ CHR '']'' # r) = Some (xs, r)"
  "members_wf ms \<Longrightarrow> ms \<noteq> [] \<Longrightarrow> members_size ms \<le> n \<Longrightarrow>
     parse_members n (print_members ms @ CHR ''}'' # r) = Some (ms, r)"
proof (induction j and xs and ms arbitrary: n r and n r and n r
    rule: json_print_print_elems_print_members.induct)
  case 1
  then show ?case using parse_value_heads(8) by (cases n) auto
next
  case (2 b)
  then show ?case using parse_value_heads(6,7) by (cases n) auto
next
  case (3 num)
  then obtain m where "n = Suc m" by (cases n) auto
  with 3 show ?case by (simp add: parse_value_number)
next
  case (4 s)
  then obtain m where "n = Suc m" by (cases n) auto
  with 4 show ?case by (simp add: quote_def parse_str_escape parse_value_heads)
next
  case (5 xs)
  then obtain m where n: "n = Suc m" "elems_size xs \<le> m" by (cases n) auto
  show ?case
  proof (cases xs)
    case Nil
    then show ?thesis using n by (simp add: parse_value_heads)
  next
    case (Cons y ys)
    then have wf: "elems_wf (y # ys)" using 5 by simp
    have "parse_elems m (print_elems xs @ CHR '']'' # r) = Some (xs, r)"
      using 5 n Cons by simp
    moreover have "\<not> prefix '']'' (skip_ws (print_elems xs @ CHR '']'' # r))"
      using print_elems_head [OF wf] Cons by simp
    ultimately show ?thesis
      using n by (simp add: parse_value_heads(5))
  qed
next
  case (6 ms)
  then obtain m where n: "n = Suc m" "members_size ms \<le> m" by (cases n) auto
  show ?case
  proof (cases ms)
    case Nil
    then show ?thesis using n by (simp add: parse_value_heads)
  next
    case (Cons y ys)
    have "parse_members m (print_members ms @ CHR ''}'' # r) = Some (ms, r)"
      using 6 n Cons by simp
    moreover obtain t where t: "print_members ms = dquote # t"
      using print_members_head Cons by blast
    moreover have "dquote \<noteq> CHR ''}''" by (simp add: dquote_def)
    ultimately show ?thesis
      using n by (simp add: parse_value_heads(4))
  qed
next
  case 7
  then show ?case by simp
next
  case (8 x)
  then obtain m where "n = Suc m" "json_size x \<le> m" by (cases n) auto
  with 8 show ?case by simp
next
  case (9 x y ys)
  then obtain m where "n = Suc m" "json_size x \<le> m" "elems_size (y # ys) \<le> m"
    by (cases n) auto
  with 9 show ?case
    unfolding print_elems.simps(3) by (simp del: print_elems.simps elems_size.simps)
next
  case 10
  then show ?case by simp
next
  case (11 k v)
  then obtain m where "n = Suc m" "json_size v \<le> m" by (cases n) auto
  with 11 show ?case by (simp add: quote_def parse_str_escape)
next
  case (12 k v m' ms)
  then obtain m where "n = Suc m" "json_size v \<le> m" "members_size (m' # ms) \<le> m"
    by (cases n) auto
  with 12 show ?case
    unfolding print_members.simps(3)
    by (simp add: quote_def parse_str_escape del: print_members.simps members_size.simps)
qed

lemma json_size_le_print:
  "json_wf j \<Longrightarrow> json_size j \<le> length (json_print j)"
  "elems_wf xs \<Longrightarrow> elems_size xs \<le> Suc (length (print_elems xs))"
  "members_wf ms \<Longrightarrow> members_size ms \<le> Suc (length (print_members ms))"
proof (induction j and xs and ms rule: json_print_print_elems_print_members.induct)
  case (3 n)
  then show ?case using valid_number_head [of n] by (cases n) auto
qed (auto simp: quote_def)

text \<open>What \<open>json.Unmarshal\<close> reads back is what \<open>json.Marshal\<close> was given.\<close>

theorem parse_print: "json_wf j \<Longrightarrow> json_parse (json_print j) = Inr j"
  using parse_print_all(1) [of j "Suc (length (json_print j))" "[]"] json_size_le_print(1) [of j]
  by (simp add: json_parse_def)

section \<open>Storing values in Go variables\<close>

text \<open>
  Errors are one per kind: their text names the JSON value and the Go type, as
  \<open>json.UnmarshalTypeError\<close> does.
\<close>

definition json_kind :: "json \<Rightarrow> string" where
  "json_kind j = (case j of JNull \<Rightarrow> ''null'' | JBool _ \<Rightarrow> ''bool'' | JNum _ \<Rightarrow> ''number''
     | JStr _ \<Rightarrow> ''string'' | JArr _ \<Rightarrow> ''array'' | JObj _ \<Rightarrow> ''object'')"

definition type_error :: "json \<Rightarrow> string \<Rightarrow> goerr" where
  "type_error j ty =
    Err (''json: cannot unmarshal '' @ json_kind j @ '' into Go value of type '' @ ty)"

text \<open>A destination of type \<open>string\<close>, \<open>bool\<close>, \<open>int\<close> and \<open>[]byte\<close>; null leaves
  the first three as they are and makes the last one nil.\<close>

definition to_string :: "json \<Rightarrow> string \<Rightarrow> string res" where
  "to_string j old = (case j of JNull \<Rightarrow> Inr old | JStr s \<Rightarrow> Inr s | _ \<Rightarrow> Inl (type_error j ''string''))"

definition to_bool :: "json \<Rightarrow> bool \<Rightarrow> bool res" where
  "to_bool j old = (case j of JNull \<Rightarrow> Inr old | JBool b \<Rightarrow> Inr b | _ \<Rightarrow> Inl (type_error j ''bool''))"

text \<open>An integer destination takes a literal \<open>strconv.ParseInt\<close> reads, not \<open>1.0\<close> or \<open>1e2\<close>.\<close>

definition to_int :: "json \<Rightarrow> int \<Rightarrow> int res" where
  "to_int j old =
    (case j of
       JNull \<Rightarrow> Inr old
     | JNum n \<Rightarrow> (case Atoi n of Some i \<Rightarrow> Inr i | None \<Rightarrow> Inl (type_error j ''int''))
     | _ \<Rightarrow> Inl (type_error j ''int''))"

definition to_bytes :: "json \<Rightarrow> bytes res" where
  "to_bytes j =
    (case j of
       JNull \<Rightarrow> Inr []
     | JStr s \<Rightarrow> (case b64_DecodeString s of
                   Some b \<Rightarrow> Inr b | None \<Rightarrow> Inl (Err ''illegal base64 data''))
     | _ \<Rightarrow> Inl (type_error j ''[]uint8''))"

fun to_list :: "(json \<Rightarrow> 'a res) \<Rightarrow> json list \<Rightarrow> 'a list res" where
  "to_list f [] = Inr []"
| "to_list f (j # js) = bind_res (f j) (\<lambda>x. bind_res (to_list f js) (\<lambda>xs. Inr (x # xs)))"

definition of_bytes :: "bytes \<Rightarrow> json" where
  "of_bytes b = JStr (b64_EncodeToString b)"

definition of_int :: "int \<Rightarrow> json" where
  "of_int i = JNum (show_int i)"

text \<open>
  An object key names the field it equals, and if there is none the first field it equals
  without regard to case (\<open>K\<close>elvin sign and long s fold to k and s); other keys are skipped.
\<close>

fun fold_key :: "string \<Rightarrow> string" where
  "fold_key [] = []"
| "fold_key (c # s) =
    (if prefix [CHR 0xC5, CHR 0xBF] (c # s) then CHR ''S'' # fold_key (tl s)
     else if prefix [CHR 0xE2, CHR 0x84, CHR 0xAA] (c # s) then CHR ''K'' # fold_key (tl (tl s))
     else upper_char c # fold_key s)"

definition match_field :: "string list \<Rightarrow> string \<Rightarrow> string option" where
  "match_field fs k =
    (if k \<in> set fs then Some k else find (\<lambda>f. fold_key f = fold_key k) fs)"

text \<open>
  Storing an object in a struct: its keys in order, so that of two that name one field the
  later wins; the first error is the one returned.
\<close>

fun store_fields :: "string list \<Rightarrow> (string \<Rightarrow> json \<Rightarrow> 's \<Rightarrow> 's res) \<Rightarrow>
    (string \<times> json) list \<Rightarrow> 's \<Rightarrow> 's res" where
  "store_fields fs put [] s = Inr s"
| "store_fields fs put ((k, v) # kvs) s =
    (case match_field fs k of
       None \<Rightarrow> store_fields fs put kvs s
     | Some f \<Rightarrow> bind_res (put f v s) (store_fields fs put kvs))"

definition to_struct :: "string \<Rightarrow> string list \<Rightarrow> (string \<Rightarrow> json \<Rightarrow> 's \<Rightarrow> 's res) \<Rightarrow>
    json \<Rightarrow> 's \<Rightarrow> 's res" where
  "to_struct ty fs put j s =
    (case j of
       JNull \<Rightarrow> Inr s
     | JObj kvs \<Rightarrow> store_fields fs put kvs s
     | _ \<Rightarrow> Inl (type_error j ty))"

lemma to_string_simps [simp]: "to_string (JStr s) old = Inr s" "to_string JNull old = Inr old"
  by (simp_all add: to_string_def)

lemma to_bool_simps [simp]: "to_bool (JBool b) old = Inr b" "to_bool JNull old = Inr old"
  by (simp_all add: to_bool_def)

lemma to_bytes_of_bytes [simp]: "to_bytes (of_bytes b) = Inr b"
  by (simp add: to_bytes_def of_bytes_def b64_roundtrip)

lemma Atoi_show_nat: "n < 2 ^ 63 \<Longrightarrow> Atoi (show_nat n) = Some (int n)"
proof -
  assume n: "n < 2 ^ 63"
  obtain c cs where s: "show_nat n = c # cs" by (cases "show_nat n") auto
  then have "c \<in> digit ` {..<10}" using show_nat_digits [of n] by auto
  then have "digit_val c \<noteq> None" by auto
  then have "c \<noteq> CHR ''-'' \<and> c \<noteq> CHR ''+''"
    by (auto simp: digit_val_def)
  then show ?thesis
    using n s digits_val_show_nat [of n] by (auto simp: Atoi_def)
qed

lemma to_int_of_int [simp]: "0 \<le> i \<Longrightarrow> i < 2 ^ 63 \<Longrightarrow> to_int (of_int i) old = Inr i"
  using Atoi_show_nat [of "nat i"] by (simp add: to_int_def of_int_def show_int_def nat_less_iff)

lemma match_field_self [simp]: "k \<in> set fs \<Longrightarrow> match_field fs k = Some k"
  by (simp add: match_field_def)

lemma is_ascii_b64: "is_ascii (b64_EncodeToString b)"
  using b64_enc_chars [of b] by (auto simp: is_ascii_def b64_alphabet_def)

lemma json_wf_of_bytes [simp]: "json_wf (of_bytes b)"
  by (simp add: of_bytes_def valid_utf8_ascii is_ascii_b64)

lemma to_list_map: "(\<And>x. x \<in> set xs \<Longrightarrow> f (g x) = Inr x) \<Longrightarrow> to_list f (map g xs) = Inr xs"
  by (induction xs) simp_all

section \<open>Sizes\<close>

lemma length_esc_ascii: "length (esc_ascii c) \<le> 6"
  by (auto simp: esc_ascii_def u_escape_def split: option.splits)

lemma length_escape: "length (escape s) \<le> 6 * length s"
proof (induction s rule: escape.induct)
  case (1 s)
  show ?case
  proof (cases s)
    case Nil
    then show ?thesis by (simp add: escape.simps)
  next
    case (Cons c r)
    show ?thesis
    proof (cases "(of_char c :: nat) < 128")
      case True
      have "escape s = esc_ascii c @ escape r" by (subst escape.simps) (use Cons True in simp)
      with 1(1) [OF Cons True] length_esc_ascii [of c] Cons show ?thesis by simp
    next
      case False
      show ?thesis
      proof (cases "utf8_next s")
        case None
        have "escape s = u_escape 65533 @ escape r"
          by (subst escape.simps) (use None Cons False in simp)
        with 1(2) [OF Cons False None] Cons show ?thesis by (simp add: u_escape_def)
      next
        case (Some p)
        obtain u t where p: "p = (u, t)" by (cases p)
        from Some p have n: "utf8_next s = Some (u, t)" by simp
        have "length s = length u + length t" using arg_cong [OF utf8_next_split [OF n], of length] by simp
        moreover have "u \<noteq> []" by (rule utf8_next_ne [OF n])
        moreover have "length (escape t) \<le> 6 * length t"
          by (rule 1(3) [OF Cons False n refl])
        moreover have "length (u_escape n) = 6" for n by (simp add: u_escape_def)
        moreover have "escape s = (if u = utf8_encode 8232 then u_escape 8232
                else if u = utf8_encode 8233 then u_escape 8233 else u) @ escape t"
          by (subst escape.simps) (simp only: Cons list.case False if_False Some [unfolded Cons p] option.case prod.case)
        ultimately have "length (escape s) \<le> max 6 (length u) + 6 * length t" "1 \<le> length u"
          "length s = length u + length t"
          by (simp_all add: Suc_le_eq split: if_split) auto
        then show ?thesis by simp
      qed
    qed
  qed
qed

lemma length_b64: "length (b64_EncodeToString b) \<le> 4 * length b"
  by (induction b rule: b64_EncodeToString.induct) simp_all

lemma length_of_bytes: "length (json_print (of_bytes b)) \<le> 24 * length b + 2"
  using length_escape [of "b64_EncodeToString b"] length_b64 [of b] by (simp add: of_bytes_def quote_def)

lemma length_quote: "length (quote s) \<le> 6 * length s + 2"
  using length_escape [of s] by (simp add: quote_def)

end
