(* ===== verification/Mr1.thy ===== *)
theory Mr1
  imports Group Json
begin

text \<open>
  \<open>mrcore/mr1.go\<close> and \<open>mrcore/recipient.go\<close>: enrolment and recovery.  Every function takes
  the \<open>Group\<close> it runs over, the cryptographic primitives of Go's standard library as the
  record \<open>crypto\<close>, and the entropy it reads as a byte stream, returning what is left of it.
  \<open>Wipe\<close> clears a slice nothing reads afterwards, so it has no counterpart.

  The client lemmas are proved in the locale \<open>mr_group\<close>, over the contract of the interface
  alone; the properties are stated for \<open>p256Group\<close>.
\<close>

section \<open>Primitives\<close>

text \<open>
  \<open>sha256.Sum256\<close>, \<open>hkdf.Key(sha256.New, secret, salt, info, n)\<close>, HMAC-SHA-256, and
  \<open>Seal\<close> and \<open>Open\<close> of AES-256-GCM without additional data.
\<close>

record crypto =
  sha256Sum :: "bytes \<Rightarrow> bytes"
  hkdfKey :: "bytes \<Rightarrow> bytes \<Rightarrow> string \<Rightarrow> nat \<Rightarrow> bytes res"
  hmacSha256 :: "bytes \<Rightarrow> bytes \<Rightarrow> bytes"
  gcmSeal :: "bytes \<Rightarrow> bytes \<Rightarrow> bytes \<Rightarrow> bytes"
  gcmOpen :: "bytes \<Rightarrow> bytes \<Rightarrow> bytes \<Rightarrow> bytes res"

text \<open>
  What their documentation promises and the protocol needs: HKDF gives a key of the length
  asked for, and what was sealed opens with the same key and nonce.
\<close>

definition crypto_ok :: "crypto \<Rightarrow> bool" where
  "crypto_ok P \<longleftrightarrow>
    (\<forall>s salt info. \<exists>k. hkdfKey P s salt info 32 = Inr k \<and> length k = 32) \<and>
    (\<forall>k nonce p. length k = 32 \<longrightarrow> length nonce = 12 \<longrightarrow>
       gcmOpen P k nonce (gcmSeal P k nonce p) = Inr p)"

text \<open>
  The idealised authenticity of the AEAD: a ciphertext opens under no key but the one it was
  sealed under.
\<close>

definition aead_auth :: "crypto \<Rightarrow> bool" where
  "aead_auth P \<longleftrightarrow>
    (\<forall>k k' nonce p q. length k = 32 \<longrightarrow> length k' = 32 \<longrightarrow>
       gcmOpen P k' nonce (gcmSeal P k nonce p) = Inr q \<longrightarrow> k' = k)"

definition hkdfInfo :: string where
  "hkdfInfo = ''mr-1 enrol''"

definition secretLen :: nat where "secretLen = 32"
definition nonceLen :: nat where "nonceLen = 12"

text \<open>
  \<open>Transport\<close> is a \<open>json.RawMessage\<close>: the JSON value it holds, or \<open>None\<close> when empty.
\<close>

record recipient =
  Kid :: bytes
  rS :: bytes
  rC :: bytes
  Ciphertext :: bytes
  Nonce :: bytes
  Transport :: "json option"

text \<open>\<open>rand.Read(buf)\<close>.\<close>

definition rand_Read :: "nat \<Rightarrow> bytes \<Rightarrow> (bytes \<times> bytes) res" where
  "rand_Read k rng = ReadFull k rng"

definition newGCM :: "bytes \<Rightarrow> bytes res" where
  "newGCM key =
    (if length key \<in> {16, 24, 32} then Inr key
     else Inl (wrap ''aead'' (Err (''crypto/aes: invalid key size '' @ show_nat (length key)))))"

definition aeadSeal :: "crypto \<Rightarrow> bytes \<Rightarrow> bytes \<Rightarrow> bytes \<Rightarrow> bytes res" where
  "aeadSeal P key nonce plaintext =
    (case newGCM key of
       Inl e \<Rightarrow> Inl e
     | Inr gcm \<Rightarrow> Inr (gcmSeal P gcm nonce plaintext))"

definition aeadOpen :: "crypto \<Rightarrow> bytes \<Rightarrow> bytes \<Rightarrow> bytes \<Rightarrow> bytes res" where
  "aeadOpen P key nonce ciphertext =
    (if length nonce \<noteq> nonceLen
     then Inl (Err (''invalid nonce length '' @ show_nat (length nonce) @ '', want '' @
            show_nat nonceLen))
     else
       (case newGCM key of
          Inl e \<Rightarrow> Inl e
        | Inr gcm \<Rightarrow> gcmOpen P gcm nonce ciphertext))"

definition deriveKey :: "group_ops \<Rightarrow> crypto \<Rightarrow> bytes \<Rightarrow> bytes \<Rightarrow> bytes res" where
  "deriveKey g P k kid =
    (case PointToX g k of
       Inl e \<Rightarrow> Inl (wrap ''deriving key'' e)
     | Inr xK \<Rightarrow>
         (case hkdfKey P xK kid hkdfInfo 32 of
            Inl e \<Rightarrow> Inl (wrap ''deriving key'' e)
          | Inr key \<Rightarrow> Inr key))"

section \<open>Enrolment\<close>

definition Enrol :: "group_ops \<Rightarrow> crypto \<Rightarrow> bytes \<Rightarrow> bytes \<Rightarrow>
    (bytes \<times> recipient \<times> bytes) res" where
  "Enrol g P s rng =
    (case rand_Read secretLen rng of
       Inl e \<Rightarrow> Inl (wrap ''mrcore: generating secret'' e)
     | Inr (secret, rng1) \<Rightarrow>
    (case RandomScalar g rng1 of
       Inl e \<Rightarrow> Inl (wrap ''mrcore: enrol'' e)
     | Inr (c, rng2) \<Rightarrow>
    (case ScalarBaseMult g c of
       Inl e \<Rightarrow> Inl (wrap ''mrcore: enrol'' e)
     | Inr C \<Rightarrow>
    (case ScalarMult g s c of
       Inl e \<Rightarrow> Inl (wrap ''mrcore: enrol'' e)
     | Inr K \<Rightarrow>
    (let kid = sha256Sum P s in
     case deriveKey g P K kid of
       Inl e \<Rightarrow> Inl (wrap ''mrcore: enrol'' e)
     | Inr k \<Rightarrow>
    (case rand_Read nonceLen rng2 of
       Inl e \<Rightarrow> Inl (wrap ''mrcore: generating nonce'' e)
     | Inr (nonce, rng3) \<Rightarrow>
    (case aeadSeal P k nonce secret of
       Inl e \<Rightarrow> Inl (wrap ''mrcore: enrol'' e)
     | Inr ct \<Rightarrow>
         Inr (secret,
              \<lparr>Kid = kid, rS = s, rC = C, Ciphertext = ct, Nonce = nonce, Transport = None\<rparr>,
              rng3))))))))"

section \<open>Recovery\<close>

definition ValidateChallengePoint :: "group_ops \<Rightarrow> bytes \<Rightarrow> unit res" where
  "ValidateChallengePoint g x =
    (if length x = 0 then Inl (Err ''mrcore: challenge point is empty'')
     else if length x = 1 \<and> x ! 0 = 0
     then Inl (Err ''mrcore: challenge point is the point at infinity'')
     else
       (case PointToX g x of
          Inl e \<Rightarrow> Inl (wrap ''mrcore: challenge point is not a valid curve point'' e)
        | Inr _ \<Rightarrow> Inr ()))"

definition ChallengeStart :: "group_ops \<Rightarrow> bytes \<Rightarrow> bytes \<Rightarrow> (bytes \<times> bytes \<times> bytes) res" where
  "ChallengeStart g c rng =
    (case RandomScalar g rng of
       Inl err \<Rightarrow> Inl (wrap ''mrcore: challenge start'' err)
     | Inr (e, rng') \<Rightarrow>
    (case ScalarBaseMult g e of
       Inl err \<Rightarrow> Inl (wrap ''mrcore: challenge start'' err)
     | Inr E \<Rightarrow>
    (case gAdd g c E of
       Inl err \<Rightarrow> Inl (wrap ''mrcore: challenge start'' err)
     | Inr X \<Rightarrow> Inr (e, X, rng'))))"

definition finishWithY :: "group_ops \<Rightarrow> crypto \<Rightarrow> recipient \<Rightarrow> bytes \<Rightarrow> bytes \<Rightarrow> bytes res" where
  "finishWithY g P rec eS y =
    (case Negate g eS of
       Inl e \<Rightarrow> Inl (wrap ''mrcore: finish'' e)
     | Inr negEs \<Rightarrow>
    (case gAdd g y negEs of
       Inl e \<Rightarrow> Inl (wrap ''mrcore: finish'' e)
     | Inr Kp \<Rightarrow>
    (case deriveKey g P Kp (Kid rec) of
       Inl e \<Rightarrow> Inl (wrap ''mrcore: finish'' e)
     | Inr k \<Rightarrow>
    (case aeadOpen P k (Nonce rec) (Ciphertext rec) of
       Inl e \<Rightarrow> Inl (wrap ''mrcore: finish: authentication failed'' e)
     | Inr secret \<Rightarrow> Inr secret))))"

definition FinishFullPoint ::
    "group_ops \<Rightarrow> crypto \<Rightarrow> bytes \<Rightarrow> recipient \<Rightarrow> bytes \<Rightarrow> bytes res" where
  "FinishFullPoint g P e rec y =
    (case ScalarMult g (rS rec) e of
       Inl err \<Rightarrow> Inl (wrap ''mrcore: finish'' err)
     | Inr eS \<Rightarrow> finishWithY g P rec eS y)"

definition FinishXOnly ::
    "group_ops \<Rightarrow> crypto \<Rightarrow> bytes \<Rightarrow> recipient \<Rightarrow> bytes \<Rightarrow> bytes res" where
  "FinishXOnly g P e rec xOnly =
    (case ScalarMult g (rS rec) e of
       Inl err \<Rightarrow> Inl (wrap ''mrcore: finish'' err)
     | Inr eS \<Rightarrow>
    (case LiftX g xOnly of
       Inl err \<Rightarrow> Inl (wrap ''mrcore: finish'' err)
     | Inr (evenY, oddY) \<Rightarrow>
    (case finishWithY g P rec eS evenY of
       Inr p \<Rightarrow> Inr p
     | Inl _ \<Rightarrow> finishWithY g P rec eS oddY)))"


text \<open>\<open>Recipient.TransportDeviceID\<close>: the device identifier the recipient was paired with.\<close>

definition TransportDeviceID :: "recipient \<Rightarrow> string option" where
  "TransportDeviceID r =
    (case Transport r of
       None \<Rightarrow> None
     | Some j \<Rightarrow>
         (case to_struct ''struct'' [''device_id''] (\<lambda>_ v s. to_string v s) j [] of
            Inl _ \<Rightarrow> None
          | Inr d \<Rightarrow> if d = [] then None else Some d))"

section \<open>Client lemmas over the interface\<close>

text \<open>
  What enrolment leaves behind: \<open>rec\<close> holds \<open>secret\<close>, sealed under the key of the point
  \<open>sk \<cdot> c\<close>, where \<open>sk\<close> is the key holder's scalar and \<open>rC rec\<close> the point of \<open>c\<close>.
\<close>

definition holds_secret ::
    "group_ops \<Rightarrow> (nat \<Rightarrow> bytes) \<Rightarrow> crypto \<Rightarrow> nat \<Rightarrow> nat \<Rightarrow> recipient \<Rightarrow> bytes \<Rightarrow> bool" where
  "holds_secret g pnt P sk c rec secret \<longleftrightarrow>
    rC rec = pnt c \<and> length (Nonce rec) = 12 \<and>
    (\<exists>k. deriveKey g P (pnt (sk * c)) (Kid rec) = Inr k \<and> length k = 32 \<and>
       Ciphertext rec = gcmSeal P k (Nonce rec) secret)"

lemma deriveKey_length: "crypto_ok P \<Longrightarrow> deriveKey g P k kid = Inr key \<Longrightarrow> length key = 32"
  by (auto simp: crypto_ok_def deriveKey_def split: sum.splits) (metis sum.inject(2))

lemma aeadOpen_sealed:
  assumes "crypto_ok P" "length k = 32" "length nonce = 12"
  shows "aeadOpen P k nonce (gcmSeal P k nonce p) = Inr p"
  using assms by (simp add: aeadOpen_def newGCM_def nonceLen_def crypto_ok_def)

lemma aeadOpen_bad_nonce:
  "length nonce \<noteq> nonceLen \<Longrightarrow>
    aeadOpen P key nonce ct =
      Inl (Err (''invalid nonce length '' @ show_nat (length nonce) @ '', want '' @ show_nat nonceLen))"
  by (simp add: aeadOpen_def)

lemma Enrol_Inr:
  "Enrol g P s rng = Inr (secret, rec, rng') \<longleftrightarrow>
    (\<exists>rng1 c rng2 C K k nonce ct.
       rand_Read secretLen rng = Inr (secret, rng1) \<and> RandomScalar g rng1 = Inr (c, rng2) \<and>
       ScalarBaseMult g c = Inr C \<and> ScalarMult g s c = Inr K \<and>
       deriveKey g P K (sha256Sum P s) = Inr k \<and> rand_Read nonceLen rng2 = Inr (nonce, rng') \<and>
       aeadSeal P k nonce secret = Inr ct \<and>
       rec = \<lparr>Kid = sha256Sum P s, rS = s, rC = C, Ciphertext = ct, Nonce = nonce,
              Transport = None\<rparr>)"
  by (auto simp: Enrol_def Let_def split: sum.splits)

lemma ChallengeStart_Inr:
  "ChallengeStart g c rng = Inr (e, X, rng') \<longleftrightarrow>
    (\<exists>E. RandomScalar g rng = Inr (e, rng') \<and> ScalarBaseMult g e = Inr E \<and> gAdd g c E = Inr X)"
  by (auto simp: ChallengeStart_def split: sum.splits)

context mr_group
begin

lemma Enrol_holds_secret:
  assumes N: "ok N" and P: "crypto_ok P" and S: "den N S sk"
    and enrol: "Enrol (grp N) P S rng = Inr (secret, rec, rng')"
  shows "rS rec = S \<and> Kid rec = sha256Sum P S \<and> length secret = 32 \<and>
    (\<exists>c. 0 < c \<and> c < ord \<and> holds_secret (grp N) (pnt N) P sk c rec secret)"
proof -
  from enrol obtain rng1 c rng2 C K k nonce ct where
    sec: "rand_Read secretLen rng = Inr (secret, rng1)" and
    c: "RandomScalar (grp N) rng1 = Inr (c, rng2)" and
    C: "ScalarBaseMult (grp N) c = Inr C" and
    K: "ScalarMult (grp N) S c = Inr K" and
    k: "deriveKey (grp N) P K (sha256Sum P S) = Inr k" and
    nonce: "rand_Read nonceLen rng2 = Inr (nonce, rng')" and
    ct: "aeadSeal P k nonce secret = Inr ct" and
    rec: "rec = \<lparr>Kid = sha256Sum P S, rS = S, rC = C, Ciphertext = ct, Nonce = nonce,
              Transport = None\<rparr>"
    unfolding Enrol_Inr by blast
  from random_range [OF c] have c32: "length c = 32" "0 < be_nat c" "be_nat c < ord" by simp_all
  with base_mult [OF N c32(1)] mult [OF N S c32(1)] C K
  have "C = pnt N (be_nat c)" "K = pnt N (sk * be_nat c)" by simp_all
  moreover have "ct = gcmSeal P k nonce secret"
    using ct deriveKey_length [OF P k] by (simp add: aeadSeal_def newGCM_def)
  moreover have "length nonce = 12" "length secret = 32"
    using nonce sec by (auto simp: rand_Read_def nonceLen_def secretLen_def ReadFull_Inr)
  ultimately show ?thesis
    using rec k c32 deriveKey_length [OF P k] by (auto simp: holds_secret_def)
qed

lemma unblind:
  assumes "1 < (n :: nat)"
  shows "(sk * (c + e) + sk * e * (n - 1)) mod n = (sk * c) mod n"
proof -
  obtain m where n: "n = Suc m" using assms by (cases n) auto
  have "sk * (c + e) + sk * e * (n - 1) = sk * c + sk * e * n"
    by (simp add: n algebra_simps)
  then show ?thesis by simp
qed

text \<open>Any answer that denotes \<open>sk \<cdot> (c + e)\<close> unblinds to the key enrolment derived.\<close>

lemma finishWithY_holds:
  assumes N: "ok N" and P: "crypto_ok P"
    and rec: "holds_secret (grp N) (pnt N) P sk c rec secret"
    and y: "den N y (sk * (c + e))"
  shows "finishWithY (grp N) P rec (pnt N (sk * e)) y = Inr secret"
proof -
  have K: "gAdd (grp N) y (pnt N (sk * e * (ord - 1))) = Inr (pnt N (sk * c))"
    using add [OF N y den_pnt [OF N]] pnt_cong [OF N unblind [OF ord_pos]] by simp
  from rec obtain k where "deriveKey (grp N) P (pnt N (sk * c)) (Kid rec) = Inr k" "length k = 32"
      "Ciphertext rec = gcmSeal P k (Nonce rec) secret" "length (Nonce rec) = 12"
    by (auto simp: holds_secret_def)
  then show ?thesis
    using negate [OF N] K aeadOpen_sealed [OF P] by (simp add: finishWithY_def)
qed

text \<open>With an authentic AEAD no answer whatever gives anything but the secret.\<close>

lemma finishWithY_only:
  assumes N: "ok N" and P: "crypto_ok P" "aead_auth P"
    and rec: "holds_secret (grp N) (pnt N) P sk c rec secret"
    and fin: "finishWithY (grp N) P rec eS y = Inr p"
  shows "p = secret"
proof -
  from fin obtain Kp k' where k': "deriveKey (grp N) P Kp (Kid rec) = Inr k'"
    and op: "aeadOpen P k' (Nonce rec) (Ciphertext rec) = Inr p"
    by (auto simp: finishWithY_def split: sum.splits)
  from rec obtain k where k: "length k = 32"
      "Ciphertext rec = gcmSeal P k (Nonce rec) secret" "length (Nonce rec) = 12"
    by (auto simp: holds_secret_def)
  have l: "length k' = 32" using deriveKey_length [OF P(1) k'] .
  then have "gcmOpen P k' (Nonce rec) (gcmSeal P k (Nonce rec) secret) = Inr p"
    using op k by (simp add: aeadOpen_def newGCM_def nonceLen_def)
  then have "k' = k" using P(2) l k(1) unfolding aead_auth_def by blast
  with op k aeadOpen_sealed [OF P(1) k(1,3)] show ?thesis by simp
qed

lemma ChallengeStart_points:
  assumes N: "ok N" and C: "den N C c"
    and start: "ChallengeStart (grp N) C rng = Inr (e, X, rng')"
  shows "length e = 32 \<and> X = pnt N (c + be_nat e)"
proof -
  from start obtain E where e: "RandomScalar (grp N) rng = Inr (e, rng')"
    and E: "ScalarBaseMult (grp N) e = Inr E" and X: "gAdd (grp N) C E = Inr X"
    unfolding ChallengeStart_Inr by blast
  from random_range [OF e] have l: "length e = 32" by simp
  with E base_mult [OF N l] have "E = pnt N (be_nat e)" by simp
  with X add [OF N C den_pnt [OF N]] l show ?thesis by simp
qed

lemma FinishFullPoint_holds:
  assumes N: "ok N" and P: "crypto_ok P" and S: "den N (rS rec) sk"
    and rec: "holds_secret (grp N) (pnt N) P sk c rec secret"
    and e: "length e = 32" and y: "den N y (sk * (c + be_nat e))"
  shows "FinishFullPoint (grp N) P e rec y = Inr secret"
  using mult [OF N S e] finishWithY_holds [OF N P rec y] by (simp add: FinishFullPoint_def)

lemma FinishXOnly_holds:
  assumes N: "ok N" and P: "crypto_ok P" "aead_auth P" and S: "den N (rS rec) sk"
    and rec: "holds_secret (grp N) (pnt N) P sk c rec secret"
    and e: "length e = 32" and y: "den N y (sk * (c + be_nat e))"
    and x: "PointToX (grp N) y = Inr x"
  shows "FinishXOnly (grp N) P e rec x = Inr secret"
proof -
  let ?k = "sk * (c + be_nat e)" and ?eS = "pnt N (sk * be_nat e)"
  from lift_x [OF N y x] obtain p q where pq: "LiftX (grp N) x = Inr (p, q)"
    "{p, q} = {pnt N ?k, pnt N (?k * (ord - 1))}" by blast
  then have pq': "p = pnt N ?k \<or> q = pnt N ?k" by (auto simp: doubleton_eq_iff)
  have good: "finishWithY (grp N) P rec ?eS (pnt N ?k) = Inr secret"
    by (rule finishWithY_holds [OF N P(1) rec den_pnt [OF N]])
  have fin: "FinishXOnly (grp N) P e rec x =
      (case finishWithY (grp N) P rec ?eS p of Inr r \<Rightarrow> Inr r
       | Inl _ \<Rightarrow> finishWithY (grp N) P rec ?eS q)"
    using pq(1) mult [OF N S e] by (simp add: FinishXOnly_def)
  show ?thesis
  proof (cases "finishWithY (grp N) P rec ?eS p")
    case (Inl err)
    with pq' good have "q = pnt N ?k" by auto
    with Inl fin good show ?thesis by simp
  next
    case (Inr r)
    with fin finishWithY_only [OF N P rec Inr] show ?thesis by simp
  qed
qed

lemma ValidateChallengePoint_holds:
  assumes "ok N" "ValidateChallengePoint (grp N) x = Inr ()"
  shows "\<exists>k. den N x k \<and> k mod ord \<noteq> 0"
  using assms to_x_valid [of N x]
  by (auto simp: ValidateChallengePoint_def split: if_splits sum.splits)

end

section \<open>Recovery over P-256\<close>

text \<open>Enrolment needs no luck beyond a scalar in range: from such entropy it returns.\<close>

lemma Enrol_total:
  assumes N: "nistec_ok N pt" and P: "crypto_ok P" and S: "SetBytes N S = Inr (pt sk)"
    and sec: "length sec = 32" and c: "length c = 32" "0 < be_nat c" "be_nat c < p256N"
    and nz: "(sk * be_nat c) mod p256N \<noteq> 0" and nonce: "length nonce = 12"
  shows "\<exists>rec. Enrol (p256Group N) P S (sec @ c @ nonce @ rng) = Inr (sec, rec, rng)"
proof -
  have ok: "p256_ok (N, pt)" using N by (simp add: p256_ok_def)
  have den: "p256_den (N, pt) (p256_pnt (N, pt) (sk * be_nat c)) (sk * be_nat c)"
    by (rule p256.den_pnt [OF ok])
  obtain x where x: "PointToX (p256Group N) (p256_pnt (N, pt) (sk * be_nat c)) = Inr x"
    using p256.to_x [OF ok den nz] by (auto simp: is_ok_iff)
  obtain k where k: "hkdfKey P x (sha256Sum P S) hkdfInfo 32 = Inr k" "length k = 32"
    using P unfolding crypto_ok_def by blast
  have K: "ScalarMult (p256Group N) S c = Inr (p256_pnt (N, pt) (sk * be_nat c))"
    using p256.mult [OF ok, of S sk c] S c(1) by (simp add: p256_den_def)
  have C: "ScalarBaseMult (p256Group N) c = Inr (p256_pnt (N, pt) (be_nat c))"
    using p256.base_mult [OF ok c(1)] by simp
  have "deriveKey (p256Group N) P (p256_pnt (N, pt) (sk * be_nat c)) (sha256Sum P S) = Inr k"
    using x k(1) by (simp add: deriveKey_def)
  moreover have "aeadSeal P k nonce sec = Inr (gcmSeal P k nonce sec)"
    using k(2) by (simp add: aeadSeal_def newGCM_def)
  moreover have "RandomScalar (p256Group N) (c @ nonce @ rng) = Inr (c, nonce @ rng)"
    using c by (simp add: randomScalarFrom_accept)
  moreover have "rand_Read secretLen (sec @ c @ nonce @ rng) = Inr (sec, c @ nonce @ rng)"
    "rand_Read nonceLen (nonce @ rng) = Inr (nonce, rng)"
    using sec nonce by (simp_all add: rand_Read_def secretLen_def nonceLen_def)
  ultimately show ?thesis
    using K C unfolding Enrol_Inr by blast
qed

lemma ChallengeStart_total:
  assumes N: "nistec_ok N pt" and C: "SetBytes N C = Inr (pt c)"
    and e: "length e = 32" "0 < be_nat e" "be_nat e < p256N"
  shows "ChallengeStart (p256Group N) C (e @ rng) = Inr (e, ptBytes N (pt (c + be_nat e)), rng)"
  using assms nistec_SetBytes_Bytes [OF N]
  by (simp add: ChallengeStart_def randomScalarFrom_accept p256_ScalarBaseMult_def
      nistec_ScalarBaseMult p256_Add_def nistec_Add)

lemma Enrol_p256:
  assumes N: "nistec_ok N pt" and P: "crypto_ok P" and S: "SetBytes N S = Inr (pt sk)"
    and enrol: "Enrol (p256Group N) P S rng = Inr (secret, rec, rng')"
  obtains c where "rS rec = S" "Kid rec = sha256Sum P S" "length secret = 32"
    "0 < c" "c < p256N" "SetBytes N (rC rec) = Inr (pt c)"
    "holds_secret (p256Group N) (p256_pnt (N, pt)) P sk c rec secret"
proof -
  have ok: "p256_ok (N, pt)" using N by (simp add: p256_ok_def)
  have "p256_den (N, pt) S sk" using S by (simp add: p256_den_def)
  from p256.Enrol_holds_secret [OF ok P this, unfolded comp_def fst_conv, OF enrol]
  obtain c where c: "rS rec = S" "Kid rec = sha256Sum P S" "length secret = 32"
    "0 < c" "c < p256N" "holds_secret (p256Group N) (p256_pnt (N, pt)) P sk c rec secret"
    by blast
  moreover from c(6) have "SetBytes N (rC rec) = Inr (pt c)"
    using nistec_SetBytes_Bytes [OF N] by (simp add: holds_secret_def p256_pnt_def)
  ultimately show thesis using that by blast
qed

lemma valid_point:
  assumes "nistec_ok N pt" and k: "SetBytes N x = Inr (pt k)" "k mod p256N \<noteq> 0"
  shows "ValidateChallengePoint (p256Group N) x = Inr ()"
proof -
  have "length x = 33 \<or> length x = 65"
    using nistec_SetBytes_cases [OF assms(1) k(1)] nistec_Bytes_pt [OF assms(1) k(2)] by auto
  moreover have "is_ok (PointToX (p256Group N) x)"
    using p256.to_x [of "(N, pt)" x k] assms(1) k by (simp add: p256_ok_def p256_den_def)
  ultimately show ?thesis by (auto simp: ValidateChallengePoint_def is_ok_iff)
qed

text \<open>The challenge and the key holder's answer to it, over P-256.\<close>

lemma answer_p256:
  assumes N: "nistec_ok N pt" and C: "SetBytes N C = Inr (pt c)" and s: "length s = 32"
    and start: "ChallengeStart (p256Group N) C rng = Inr (e, X, rng')"
  shows "length e = 32" and "X = ptBytes N (pt (c + be_nat e))"
    and "ScalarMult (p256Group N) X s = Inr (ptBytes N (pt (be_nat s * (c + be_nat e))))"
    and "SetBytes N (ptBytes N (pt (be_nat s * (c + be_nat e)))) =
      Inr (pt (be_nat s * (c + be_nat e)))"
proof -
  have ok: "p256_ok (N, pt)" using N by (simp add: p256_ok_def)
  have "p256_den (N, pt) C c" using C by (simp add: p256_den_def)
  from p256.ChallengeStart_points [OF ok this, unfolded comp_def fst_conv, OF start]
  show "length e = 32" and X: "X = ptBytes N (pt (c + be_nat e))"
    by (simp_all add: p256_pnt_def)
  show "ScalarMult (p256Group N) X s = Inr (ptBytes N (pt (be_nat s * (c + be_nat e))))"
    using s by (simp add: X p256_ScalarMult_def nistec_SetBytes_Bytes [OF N]
        nistec_ScalarMult [OF N] mult.commute)
qed (rule nistec_SetBytes_Bytes [OF N])

text \<open>
  C1. MR-1 is correct with a key holder that returns the full point: whatever entropy enrolment
  and the challenge drew, multiplying the challenge by the scalar behind the enrolled public
  point gives an answer from which the machine recovers exactly the secret that was enrolled.
\<close>

theorem recover_full_point:
  assumes "nistec_ok N pt" and "crypto_ok P"
    and "length s = 32" and "SetBytes N S = Inr (pt (be_nat s))"
    and "Enrol (p256Group N) P S rng1 = Inr (secret, rec, rng2)"
    and "ChallengeStart (p256Group N) (rC rec) rng3 = Inr (e, X, rng4)"
  shows "\<exists>y. ScalarMult (p256Group N) X s = Inr y \<and>
    FinishFullPoint (p256Group N) P e rec y = Inr secret"
proof -
  obtain c where c: "rS rec = S" "SetBytes N (rC rec) = Inr (pt c)"
    "holds_secret (p256Group N) (p256_pnt (N, pt)) P (be_nat s) c rec secret"
    using Enrol_p256 [OF assms(1,2,4,5)] by metis
  note a = answer_p256 [OF assms(1) c(2) assms(3) assms(6)]
  have "FinishFullPoint (p256Group N) P e rec (ptBytes N (pt (be_nat s * (c + be_nat e)))) =
      Inr secret"
    using p256.FinishFullPoint_holds [of "(N, pt)" P rec "be_nat s" c secret e] assms(1,2,4) c a
    by (simp add: p256_ok_def p256_den_def)
  with a(3) show ?thesis by blast
qed

lemma recover_x_only_p256:
  assumes "nistec_ok N pt" and "crypto_ok P" and "aead_auth P"
    and "length s = 32" and "SetBytes N S = Inr (pt (be_nat s))"
    and "Enrol (p256Group N) P S rng1 = Inr (secret, rec, rng2)"
    and "ChallengeStart (p256Group N) (rC rec) rng3 = Inr (e, X, rng4)"
    and "ScalarMult (p256Group N) X s = Inr y" and "PointToX (p256Group N) y = Inr x"
  shows "FinishXOnly (p256Group N) P e rec x = Inr secret"
proof -
  obtain c where c: "rS rec = S" "SetBytes N (rC rec) = Inr (pt c)"
    "holds_secret (p256Group N) (p256_pnt (N, pt)) P (be_nat s) c rec secret"
    using Enrol_p256 [OF assms(1,2,5,6)] by metis
  note a = answer_p256 [OF assms(1) c(2) assms(4) assms(7)]
  with assms(8) have y: "SetBytes N y = Inr (pt (be_nat s * (c + be_nat e)))" by simp
  show ?thesis
    using p256.FinishXOnly_holds [of "(N, pt)" P rec "be_nat s" c secret e y x] assms c y a(1)
    by (simp add: p256_ok_def p256_den_def)
qed

text \<open>
  C2. MR-1 is correct with a key holder that returns only an x-coordinate, as an Android
  Keystore does: lifting it and trying both signs recovers the enrolled secret, given an AEAD
  that does not open under a wrong key.
\<close>

theorem recover_x_only:
  assumes "nistec_ok N pt" and "crypto_ok P" and "aead_auth P"
    and "length s = 32" and "SetBytes N S = Inr (pt (be_nat s))"
    and "Enrol (p256Group N) P S rng1 = Inr (secret, rec, rng2)"
    and "ChallengeStart (p256Group N) (rC rec) rng3 = Inr (e, X, rng4)"
    and "ScalarMult (p256Group N) X s = Inr y" and "PointToX (p256Group N) y = Inr x"
  shows "FinishXOnly (p256Group N) P e rec x = Inr secret"
  by (rule recover_x_only_p256 [OF assms])

text \<open>
  A key holder multiplies its secret only by a real point: a challenge passes validation
  exactly when it encodes a point of the curve other than the point at infinity.
\<close>

theorem ValidateChallengePoint_iff:
  assumes "nistec_ok N pt"
  shows "ValidateChallengePoint (p256Group N) x = Inr () \<longleftrightarrow>
    (\<exists>k. SetBytes N x = Inr (pt k) \<and> k mod p256N \<noteq> 0)"
proof
  assume "ValidateChallengePoint (p256Group N) x = Inr ()"
  then show "\<exists>k. SetBytes N x = Inr (pt k) \<and> k mod p256N \<noteq> 0"
    using p256.ValidateChallengePoint_holds [of "(N, pt)" x] assms
    by (simp add: p256_ok_def p256_den_def)
next
  assume "\<exists>k. SetBytes N x = Inr (pt k) \<and> k mod p256N \<noteq> 0"
  with valid_point [OF assms] show "ValidateChallengePoint (p256Group N) x = Inr ()" by blast
qed

text \<open>
  A damaged token fails recovery and nothing else: when the stored nonce is not 12 bytes the
  AEAD is never asked, so its panic on such a nonce cannot be reached, and both ways of
  finishing return an error.
\<close>

theorem bad_nonce_is_an_error:
  assumes "length (Nonce rec) \<noteq> nonceLen"
  shows "\<not> is_ok (FinishFullPoint (p256Group N) P e rec y) \<and>
    \<not> is_ok (FinishXOnly (p256Group N) P e rec x)"
proof -
  have "finishWithY (p256Group N) P rec eS z \<noteq> Inr q" for eS z q
    using aeadOpen_bad_nonce [OF assms]
    by (auto simp: finishWithY_def split: sum.splits)
  then show ?thesis
    by (auto simp: FinishFullPoint_def FinishXOnly_def is_ok_iff split: sum.splits)
qed

section \<open>A concrete run\<close>

text \<open>
  Primitives that evaluate, to show that the hypotheses can hold: a seal that carries its key in
  front, and derivations that pad and cut.
\<close>

definition pad_to :: "nat \<Rightarrow> bytes \<Rightarrow> bytes" where
  "pad_to n b = take n (b @ replicate n 0)"

definition plain_crypto :: crypto where
  "plain_crypto =
    \<lparr>sha256Sum = pad_to 32,
     hkdfKey = (\<lambda>s salt info n. Inr (pad_to n s)),
     hmacSha256 = (\<lambda>k m. pad_to 32 (k @ m)),
     gcmSeal = (\<lambda>k nonce p. k @ p),
     gcmOpen = (\<lambda>k nonce ct.
       if take 32 ct = k then Inr (drop 32 ct)
       else Inl (Err ''cipher: message authentication failed''))\<rparr>"

lemma length_pad_to [simp]: "length (pad_to n b) = n"
  by (simp add: pad_to_def)

lemma plain_crypto_ok: "crypto_ok plain_crypto"
  by (simp add: crypto_ok_def plain_crypto_def)

lemma plain_crypto_auth: "aead_auth plain_crypto"
  by (simp add: aead_auth_def plain_crypto_def)

text \<open>The scalar k, a secret of 32 bytes and a nonce.\<close>

abbreviation scalar :: "nat \<Rightarrow> bytes" where
  "scalar k \<equiv> be_bytes 32 k"

abbreviation demo_secret :: bytes where
  "demo_secret \<equiv> replicate 32 7"

abbreviation demo_nonce :: bytes where
  "demo_nonce \<equiv> replicate 12 9"

lemma be_nat_scalar: "k < 1000 \<Longrightarrow> be_nat (scalar k) = k"
  by (rule be_nat_be_bytes_small) simp

lemma demo_point: "k < p256N \<Longrightarrow> SetBytes zn_nistec (ptBytes zn_nistec k) = Inr (zn_pt k)"
  using zn_Bytes_decode [of k] by (simp add: zn_pt_def)

lemma demo_small: "k < 1000 \<Longrightarrow> k < p256N"
  by (simp add: p256N_def)

lemma demo_enrol:
  "\<exists>rec. Enrol (p256Group zn_nistec) plain_crypto (ptBytes zn_nistec 2)
    (demo_secret @ scalar 3 @ demo_nonce) = Inr (demo_secret, rec, [])"
  using Enrol_total [OF zn_nistec_ok plain_crypto_ok demo_point [OF demo_small], of 2 demo_secret
      "scalar 3" demo_nonce "[]"]
  by (simp add: be_nat_scalar p256N_def)

lemma demo_challenge:
  assumes rec: "Enrol (p256Group zn_nistec) plain_crypto (ptBytes zn_nistec 2)
      (demo_secret @ scalar 3 @ demo_nonce) = Inr (demo_secret, rec, [])"
  shows "SetBytes zn_nistec (rC rec) = Inr (zn_pt 3)"
    and "ChallengeStart (p256Group zn_nistec) (rC rec) (scalar 5) =
      Inr (scalar 5, ptBytes zn_nistec (zn_pt (3 + 5)), [])"
    and "ValidateChallengePoint (p256Group zn_nistec) (ptBytes zn_nistec (zn_pt (3 + 5))) = Inr ()"
proof -
  have "rC rec = ptBytes zn_nistec (zn_pt 3)"
    using rec by (auto simp: Enrol_Inr rand_Read_def secretLen_def p256_ScalarBaseMult_def
        randomScalarFrom_accept be_nat_scalar nistec_ScalarBaseMult [OF zn_nistec_ok] p256N_def)
  then show C: "SetBytes zn_nistec (rC rec) = Inr (zn_pt 3)"
    by (simp add: nistec_SetBytes_Bytes [OF zn_nistec_ok])
  show "ChallengeStart (p256Group zn_nistec) (rC rec) (scalar 5) =
      Inr (scalar 5, ptBytes zn_nistec (zn_pt (3 + 5)), [])"
    using ChallengeStart_total [OF zn_nistec_ok C, of "scalar 5" "[]"]
    by (simp add: be_nat_scalar p256N_def)
  show "ValidateChallengePoint (p256Group zn_nistec) (ptBytes zn_nistec (zn_pt (3 + 5))) = Inr ()"
    by (rule valid_point [OF zn_nistec_ok nistec_SetBytes_Bytes [OF zn_nistec_ok]]) (simp add: p256N_def)
qed

text \<open>Enrolment, a challenge with ephemeral scalar 5, and the key holder's scalar 2.\<close>

lemma demo_run:
  obtains rec X y x where
    "Enrol (p256Group zn_nistec) plain_crypto (ptBytes zn_nistec 2)
      (demo_secret @ scalar 3 @ demo_nonce) = Inr (demo_secret, rec, [])"
    "ChallengeStart (p256Group zn_nistec) (rC rec) (scalar 5) = Inr (scalar 5, X, [])"
    "ScalarMult (p256Group zn_nistec) X (scalar 2) = Inr y"
    "PointToX (p256Group zn_nistec) y = Inr x"
    "FinishFullPoint (p256Group zn_nistec) plain_crypto (scalar 5) rec y = Inr demo_secret"
proof -
  obtain rec where rec: "Enrol (p256Group zn_nistec) plain_crypto (ptBytes zn_nistec 2)
      (demo_secret @ scalar 3 @ demo_nonce) = Inr (demo_secret, rec, [])"
    using demo_enrol by blast
  have two: "SetBytes zn_nistec (ptBytes zn_nistec 2) = Inr (zn_pt 2)"
    by (rule demo_point) (simp add: p256N_def)
  note C = demo_challenge(1) [OF rec] and start = demo_challenge(2) [OF rec]
  note a = answer_p256 [OF zn_nistec_ok C _ start, of "scalar 2"]
  have "is_ok (PointToX (p256Group zn_nistec) (ptBytes zn_nistec (zn_pt 16)))"
    using p256.to_x [of "(zn_nistec, zn_pt)" _ 16] nistec_SetBytes_Bytes [OF zn_nistec_ok, of 16]
    by (simp add: p256_ok_def p256_den_def zn_nistec_ok p256N_def)
  moreover obtain c where c: "rS rec = ptBytes zn_nistec 2"
      "SetBytes zn_nistec (rC rec) = Inr (zn_pt c)"
      "holds_secret (p256Group zn_nistec) (p256_pnt (zn_nistec, zn_pt)) plain_crypto 2 c rec
        demo_secret"
    using Enrol_p256 [OF zn_nistec_ok plain_crypto_ok two rec] by metis
  have "zn_pt (2 * (c + 5)) = zn_pt 16"
  proof -
    from c(2) C have "c mod p256N = 3 mod p256N" by (simp add: zn_pt_def)
    then have "(2 * (c + 5)) mod p256N = (2 * (3 + 5)) mod p256N"
      by (metis mod_add_left_eq mod_mult_right_eq)
    then show ?thesis by (simp add: zn_pt_def)
  qed
  then have "FinishFullPoint (p256Group zn_nistec) plain_crypto (scalar 5) rec
      (ptBytes zn_nistec (zn_pt 16)) = Inr demo_secret"
    using p256.FinishFullPoint_holds [of "(zn_nistec, zn_pt)" plain_crypto rec 2 c demo_secret
        "scalar 5" "ptBytes zn_nistec (zn_pt 16)"] two c(1,3)
      nistec_SetBytes_Bytes [OF zn_nistec_ok, of 16]
    by (simp add: p256_ok_def p256_den_def zn_nistec_ok plain_crypto_ok be_nat_scalar)
  ultimately show thesis
    using that [OF rec start] a(3) by (auto simp: be_nat_scalar is_ok_iff)
qed

lemma recover_full_point_witness:
  "\<exists>rec X y. Enrol (p256Group zn_nistec) plain_crypto (ptBytes zn_nistec 2)
      (demo_secret @ scalar 3 @ demo_nonce) = Inr (demo_secret, rec, []) \<and>
    ChallengeStart (p256Group zn_nistec) (rC rec) (scalar 5) = Inr (scalar 5, X, []) \<and>
    ScalarMult (p256Group zn_nistec) X (scalar 2) = Inr y \<and>
    FinishFullPoint (p256Group zn_nistec) plain_crypto (scalar 5) rec y = Inr demo_secret"
proof -
  obtain rec X y x where r: "Enrol (p256Group zn_nistec) plain_crypto (ptBytes zn_nistec 2)
      (demo_secret @ scalar 3 @ demo_nonce) = Inr (demo_secret, rec, [])"
    "ChallengeStart (p256Group zn_nistec) (rC rec) (scalar 5) = Inr (scalar 5, X, [])"
    by (rule demo_run)
  have "SetBytes zn_nistec (ptBytes zn_nistec 2) = Inr (zn_pt (be_nat (scalar 2)))"
    by (simp only: be_nat_scalar demo_point demo_small)
  from recover_full_point [OF zn_nistec_ok plain_crypto_ok _ this r] r
  show ?thesis by auto
qed

lemma recover_x_only_witness:
  "\<exists>rec X y x. Enrol (p256Group zn_nistec) plain_crypto (ptBytes zn_nistec 2)
      (demo_secret @ scalar 3 @ demo_nonce) = Inr (demo_secret, rec, []) \<and>
    ChallengeStart (p256Group zn_nistec) (rC rec) (scalar 5) = Inr (scalar 5, X, []) \<and>
    ScalarMult (p256Group zn_nistec) X (scalar 2) = Inr y \<and>
    PointToX (p256Group zn_nistec) y = Inr x \<and>
    FinishXOnly (p256Group zn_nistec) plain_crypto (scalar 5) rec x = Inr demo_secret"
proof -
  obtain rec X y x where r: "Enrol (p256Group zn_nistec) plain_crypto (ptBytes zn_nistec 2)
      (demo_secret @ scalar 3 @ demo_nonce) = Inr (demo_secret, rec, [])"
    "ChallengeStart (p256Group zn_nistec) (rC rec) (scalar 5) = Inr (scalar 5, X, [])"
    "ScalarMult (p256Group zn_nistec) X (scalar 2) = Inr y"
    "PointToX (p256Group zn_nistec) y = Inr x"
    by (rule demo_run)
  have "SetBytes zn_nistec (ptBytes zn_nistec 2) = Inr (zn_pt (be_nat (scalar 2)))"
    by (simp only: be_nat_scalar demo_point demo_small)
  from recover_x_only [OF zn_nistec_ok plain_crypto_ok plain_crypto_auth _ this r] r
  show ?thesis by auto
qed

lemma ValidateChallengePoint_iff_witness:
  "ValidateChallengePoint (p256Group zn_nistec) (ptBytes zn_nistec 2) = Inr () \<and>
    ValidateChallengePoint (p256Group zn_nistec) [0] \<noteq> Inr ()"
proof
  have "SetBytes zn_nistec (ptBytes zn_nistec 2) = Inr (zn_pt 2)"
    by (simp only: demo_point demo_small)
  moreover have "2 mod p256N \<noteq> 0" by (simp add: p256N_def)
  ultimately show "ValidateChallengePoint (p256Group zn_nistec) (ptBytes zn_nistec 2) = Inr ()"
    using ValidateChallengePoint_iff [OF zn_nistec_ok, of "ptBytes zn_nistec 2"] by blast
  show "ValidateChallengePoint (p256Group zn_nistec) [0] \<noteq> Inr ()"
    by (simp add: ValidateChallengePoint_def)
qed

lemma bad_nonce_is_an_error_witness:
  "\<not> is_ok (FinishFullPoint (p256Group zn_nistec) plain_crypto (scalar 5)
      \<lparr>Kid = [], rS = [], rC = [], Ciphertext = [], Nonce = [1, 2, 3], Transport = None\<rparr> [0])"
  using bad_nonce_is_an_error [of
      "\<lparr>Kid = [], rS = [], rC = [], Ciphertext = [], Nonce = [1, 2, 3], Transport = None\<rparr>"
      zn_nistec plain_crypto "scalar 5" "[0]"]
  by (simp add: nonceLen_def)

end
