(* ===== verification/Wire.thy ===== *)
theory Wire
  imports Json
begin

text \<open>
  \<open>mrcore/wire.go\<close> and the messages of \<open>mrcore/pair.go\<close>: a message is its JSON encoding
  behind a 4-byte big-endian length.  The locale \<open>msg_codec\<close> is what a message type has to
  offer (an encoding that decodes); from it the framing round trip is proved once, and it is
  interpreted for each of the seven messages the program sends.
\<close>

section \<open>Connections\<close>

text \<open>
  A connection as the code sees it: the verified identity of the peer, the bytes that are still
  to be read before the stream ends, the bytes written, and how many more writes succeed
  (\<open>None\<close>: all of them) before they fail with \<open>wr_err\<close>.
\<close>

record conn =
  PeerID :: string
  rx :: bytes
  tx :: bytes
  writes_left :: "nat option"
  wr_err :: goerr

definition conn_write :: "bytes \<Rightarrow> conn \<Rightarrow> unit res \<times> conn" where
  "conn_write b c =
    (case writes_left c of
       None \<Rightarrow> (Inr (), c\<lparr>tx := tx c @ b\<rparr>)
     | Some 0 \<Rightarrow> (Inl (wr_err c), c)
     | Some (Suc n) \<Rightarrow> (Inr (), c\<lparr>tx := tx c @ b, writes_left := Some n\<rparr>))"

text \<open>\<open>io.ReadFull\<close> takes what there is, also when that is too little.\<close>

definition conn_read_full :: "nat \<Rightarrow> conn \<Rightarrow> bytes res \<times> conn" where
  "conn_read_full k c =
    (if k \<le> length (rx c) then (Inr (take k (rx c)), c\<lparr>rx := drop k (rx c)\<rparr>)
     else (Inl (if rx c = [] then IoEOF else IoUnexpectedEOF), c\<lparr>rx := []\<rparr>))"

lemma conn_read_full_append [simp]:
  "rx c = xs @ ys \<Longrightarrow> length xs = k \<Longrightarrow> conn_read_full k c = (Inr xs, c\<lparr>rx := ys\<rparr>)"
  by (simp add: conn_read_full_def)

definition maxMessageSize :: nat where
  "maxMessageSize = 64 * 1024"

definition WriteMessage :: "json \<Rightarrow> conn \<Rightarrow> unit res \<times> conn" where
  "WriteMessage v w =
    (let body = bytes_of (json_print v) in
     if length body > maxMessageSize
     then (Inl (Err (''mrcore: message too large: '' @ show_nat (length body) @ '' bytes'')), w)
     else
       (case conn_write (be_bytes 4 (length body)) w of
          (Inl e, w1) \<Rightarrow> (Inl (wrap ''mrcore: writing message length'' e), w1)
        | (Inr _, w1) \<Rightarrow>
            (case conn_write body w1 of
               (Inl e, w2) \<Rightarrow> (Inl (wrap ''mrcore: writing message body'' e), w2)
             | (Inr _, w2) \<Rightarrow> (Inr (), w2))))"

text \<open>\<open>ReadMessage(r, &v)\<close> with \<open>dec\<close> storing a JSON value in a zero \<open>v\<close>.\<close>

definition ReadMessage :: "(json \<Rightarrow> 'm res) \<Rightarrow> conn \<Rightarrow> 'm res \<times> conn" where
  "ReadMessage dec r =
    (case conn_read_full 4 r of
       (Inl e, r1) \<Rightarrow> (Inl (wrap ''mrcore: reading message length'' e), r1)
     | (Inr lenBuf, r1) \<Rightarrow>
         (let n = be_nat lenBuf in
          if n > maxMessageSize
          then (Inl (Err (''mrcore: message too large: '' @ show_nat n @ '' bytes'')), r1)
          else
            (case conn_read_full n r1 of
               (Inl e, r2) \<Rightarrow> (Inl (wrap ''mrcore: reading message body'' e), r2)
             | (Inr body, r2) \<Rightarrow>
                 (case bind_res (json_parse (string_of body)) dec of
                    Inl e \<Rightarrow> (Inl (wrap ''mrcore: decoding message'' e), r2)
                  | Inr v \<Rightarrow> (Inr v, r2)))))"

text \<open>The bytes of one message on the wire.\<close>

definition frame :: "json \<Rightarrow> bytes" where
  "frame v = be_bytes 4 (length (json_print v)) @ bytes_of (json_print v)"

lemma WriteMessage_ok:
  assumes "length (json_print v) \<le> maxMessageSize" and "writes_left c = None"
  shows "WriteMessage v c = (Inr (), c\<lparr>tx := tx c @ frame v\<rparr>)"
  using assms by (simp add: WriteMessage_def conn_write_def frame_def Let_def)

lemma WriteMessage_rx:
  "WriteMessage v c = (r, c') \<Longrightarrow> rx c' = rx c \<and> PeerID c' = PeerID c"
  by (auto simp: WriteMessage_def conn_write_def Let_def split: if_splits option.splits nat.splits)

lemma WriteMessage_Inr:
  "WriteMessage v c = (Inr u, c') \<Longrightarrow> tx c' = tx c @ frame v"
  by (auto simp: WriteMessage_def conn_write_def frame_def Let_def
      split: if_splits option.splits nat.splits)

text \<open>A writer never puts more than a bounded message on the wire, and only a prefix of it.\<close>

lemma WriteMessage_tx:
  "WriteMessage v c = (r, c') \<Longrightarrow>
    \<exists>p. prefix p (frame v) \<and> tx c' = tx c @ p \<and> length p \<le> maxMessageSize + 4"
  by (auto simp: WriteMessage_def conn_write_def frame_def Let_def
      split: if_splits option.splits nat.splits)

lemma maxMessageSize_fits: "maxMessageSize < 256 ^ 4"
  by (simp add: maxMessageSize_def)

lemma ReadMessage_frame:
  assumes "json_wf v" and "length (json_print v) \<le> maxMessageSize" and "rx c = frame v @ rest"
  shows "ReadMessage dec c =
    ((case dec v of Inl e \<Rightarrow> Inl (wrap ''mrcore: decoding message'' e) | Inr m \<Rightarrow> Inr m),
     c\<lparr>rx := rest\<rparr>)"
proof -
  let ?b = "bytes_of (json_print v)" and ?n = "length (json_print v)"
  have "?n < 256 ^ 4" using assms(2) maxMessageSize_fits by simp
  then have len: "be_nat (be_bytes 4 ?n) = ?n" by (rule be_nat_be_bytes_small)
  have r1: "conn_read_full 4 c = (Inr (be_bytes 4 ?n), c\<lparr>rx := ?b @ rest\<rparr>)"
    using assms(3) by (simp add: frame_def)
  have r2: "conn_read_full ?n (c\<lparr>rx := ?b @ rest\<rparr>) = (Inr ?b, c\<lparr>rx := rest\<rparr>)"
    by (simp add: conn_read_full_def)
  show ?thesis
    using assms(1,2) by (simp add: ReadMessage_def r1 len Let_def r2 parse_print split: sum.splits)
qed

text \<open>Whatever the peer sends, reading a message takes at most the bound from the stream.\<close>

lemma ReadMessage_bounded:
  assumes "ReadMessage dec c = (r, c')"
  shows "\<exists>p. rx c = p @ rx c' \<and> length p \<le> maxMessageSize + 4"
proof -
  have read: "\<exists>p. rx x = p @ rx x' \<and> length p \<le> k" if "conn_read_full k x = (q, x')" for k x q x'
    using that by (intro exI [of _ "take k (rx x)"])
      (auto simp: conn_read_full_def split: if_splits)
  obtain q1 r1 where 1: "conn_read_full 4 c = (q1, r1)" by (cases "conn_read_full 4 c")
  from read [OF 1] obtain p1 where p1: "rx c = p1 @ rx r1" "length p1 \<le> 4" by blast
  show ?thesis
  proof (cases "\<exists>b. q1 = Inr b \<and> be_nat b \<le> maxMessageSize")
    case False
    then have "c' = r1" using assms 1
      by (auto simp: ReadMessage_def Let_def split: sum.splits if_splits)
    with p1 show ?thesis by (intro exI [of _ p1]) simp
  next
    case True
    then obtain b where b: "q1 = Inr b" "be_nat b \<le> maxMessageSize" by blast
    obtain q2 r2 where 2: "conn_read_full (be_nat b) r1 = (q2, r2)"
      by (cases "conn_read_full (be_nat b) r1")
    from read [OF 2] obtain p2 where p2: "rx r1 = p2 @ rx r2" "length p2 \<le> be_nat b" by blast
    have "c' = r2" using assms 1 2 b
      by (auto simp: ReadMessage_def Let_def split: sum.splits if_splits)
    with p1 p2 b(2) show ?thesis by (intro exI [of _ "p1 @ p2"]) simp
  qed
qed

section \<open>What a message type offers\<close>

locale msg_codec =
  fixes to_json :: "'m \<Rightarrow> json"
    and of_json :: "json \<Rightarrow> 'm res"
    and ok :: "'m \<Rightarrow> bool"
  assumes of_to: "ok m \<Longrightarrow> of_json (to_json m) = Inr m"
    and wf: "ok m \<Longrightarrow> json_wf (to_json m)"
begin

lemma read_written:
  assumes "ok m" "length (json_print (to_json m)) \<le> maxMessageSize"
    and "rx c = frame (to_json m) @ rest"
  shows "ReadMessage of_json c = (Inr m, c\<lparr>rx := rest\<rparr>)"
  using ReadMessage_frame [OF wf [OF assms(1)] assms(2,3), of of_json] of_to [OF assms(1)] by simp

text \<open>What one side's \<open>WriteMessage\<close> put on the wire the other side's \<open>ReadMessage\<close> returns.\<close>

lemma write_then_read:
  assumes "ok m" and "WriteMessage (to_json m) w = (Inr (), w')"
    and "tx w = []" and "rx r = tx w' @ rest"
  shows "ReadMessage of_json r = (Inr m, r\<lparr>rx := rest\<rparr>)"
proof -
  from assms(2) have "length (json_print (to_json m)) \<le> maxMessageSize"
    by (auto simp: WriteMessage_def Let_def split: if_splits)
  with assms WriteMessage_Inr [OF assms(2)] show ?thesis by (intro read_written) simp_all
qed

end

section \<open>The messages of the recovery exchange\<close>

record recover_request =
  reqKid :: bytes
  reqX :: bytes

record recover_response =
  respY :: bytes
  respXOnly :: bytes
  respError :: string

record recover_result =
  resOK :: bool
  resError :: string

record hello =
  helloName :: string

text \<open>\<open>omitempty\<close>: a field that is empty is not written.\<close>

definition omitempty :: "string \<Rightarrow> 'a list \<Rightarrow> json \<Rightarrow> (string \<times> json) list" where
  "omitempty k v j = (if v = [] then [] else [(k, j)])"

definition request_to_json :: "recover_request \<Rightarrow> json" where
  "request_to_json m = JObj [(''kid'', of_bytes (reqKid m)), (''X'', of_bytes (reqX m))]"

definition request_put :: "string \<Rightarrow> json \<Rightarrow> recover_request \<Rightarrow> recover_request res" where
  "request_put f v m =
    (if f = ''kid'' then bind_res (to_bytes v) (\<lambda>b. Inr (m\<lparr>reqKid := b\<rparr>))
     else bind_res (to_bytes v) (\<lambda>b. Inr (m\<lparr>reqX := b\<rparr>)))"

definition request_of_json :: "json \<Rightarrow> recover_request res" where
  "request_of_json j = to_struct ''mrcore.RecoverRequest'' [''kid'', ''X''] request_put j
    \<lparr>reqKid = [], reqX = []\<rparr>"

definition response_to_json :: "recover_response \<Rightarrow> json" where
  "response_to_json m = JObj
    (omitempty ''Y'' (respY m) (of_bytes (respY m)) @
     omitempty ''xOnly'' (respXOnly m) (of_bytes (respXOnly m)) @
     omitempty ''error'' (respError m) (JStr (respError m)))"

definition response_put :: "string \<Rightarrow> json \<Rightarrow> recover_response \<Rightarrow> recover_response res" where
  "response_put f v m =
    (if f = ''Y'' then bind_res (to_bytes v) (\<lambda>b. Inr (m\<lparr>respY := b\<rparr>))
     else if f = ''xOnly'' then bind_res (to_bytes v) (\<lambda>b. Inr (m\<lparr>respXOnly := b\<rparr>))
     else bind_res (to_string v (respError m)) (\<lambda>s. Inr (m\<lparr>respError := s\<rparr>)))"

definition response_of_json :: "json \<Rightarrow> recover_response res" where
  "response_of_json j =
    to_struct ''mrcore.RecoverResponse'' [''Y'', ''xOnly'', ''error''] response_put j
      \<lparr>respY = [], respXOnly = [], respError = []\<rparr>"

definition result_to_json :: "recover_result \<Rightarrow> json" where
  "result_to_json m = JObj
    ((''ok'', JBool (resOK m)) # omitempty ''error'' (resError m) (JStr (resError m)))"

definition result_put :: "string \<Rightarrow> json \<Rightarrow> recover_result \<Rightarrow> recover_result res" where
  "result_put f v m =
    (if f = ''ok'' then bind_res (to_bool v (resOK m)) (\<lambda>b. Inr (m\<lparr>resOK := b\<rparr>))
     else bind_res (to_string v (resError m)) (\<lambda>s. Inr (m\<lparr>resError := s\<rparr>)))"

definition result_of_json :: "json \<Rightarrow> recover_result res" where
  "result_of_json j = to_struct ''mrcore.RecoverResult'' [''ok'', ''error''] result_put j
    \<lparr>resOK = False, resError = []\<rparr>"

definition hello_to_json :: "hello \<Rightarrow> json" where
  "hello_to_json m = JObj [(''name'', JStr (helloName m))]"

definition hello_of_json :: "json \<Rightarrow> hello res" where
  "hello_of_json j = to_struct ''mrcore.Hello'' [''name'']
    (\<lambda>_ v m. bind_res (to_string v (helloName m)) (\<lambda>s. Inr (m\<lparr>helloName := s\<rparr>))) j
    \<lparr>helloName = []\<rparr>"

section \<open>The messages of pairing\<close>

record pair_challenge =
  pcNonce :: bytes
  pcName :: string

record pair_request =
  prPubKey :: bytes
  prName :: string
  prProof :: bytes

text \<open>\<open>PairResult\<close> has the fields and tags of \<open>RecoverResult\<close>.\<close>

type_synonym pair_result = recover_result

definition challenge_to_json :: "pair_challenge \<Rightarrow> json" where
  "challenge_to_json m = JObj
    ((''nonce'', of_bytes (pcNonce m)) # omitempty ''name'' (pcName m) (JStr (pcName m)))"

definition challenge_put :: "string \<Rightarrow> json \<Rightarrow> pair_challenge \<Rightarrow> pair_challenge res" where
  "challenge_put f v m =
    (if f = ''nonce'' then bind_res (to_bytes v) (\<lambda>b. Inr (m\<lparr>pcNonce := b\<rparr>))
     else bind_res (to_string v (pcName m)) (\<lambda>s. Inr (m\<lparr>pcName := s\<rparr>)))"

definition challenge_of_json :: "json \<Rightarrow> pair_challenge res" where
  "challenge_of_json j = to_struct ''mrcore.PairChallenge'' [''nonce'', ''name''] challenge_put j
    \<lparr>pcNonce = [], pcName = []\<rparr>"

definition pair_request_to_json :: "pair_request \<Rightarrow> json" where
  "pair_request_to_json m = JObj
    ((''pubkey'', of_bytes (prPubKey m)) #
     omitempty ''name'' (prName m) (JStr (prName m)) @
     [(''proof'', of_bytes (prProof m))])"

definition pair_request_put :: "string \<Rightarrow> json \<Rightarrow> pair_request \<Rightarrow> pair_request res" where
  "pair_request_put f v m =
    (if f = ''pubkey'' then bind_res (to_bytes v) (\<lambda>b. Inr (m\<lparr>prPubKey := b\<rparr>))
     else if f = ''name'' then bind_res (to_string v (prName m)) (\<lambda>s. Inr (m\<lparr>prName := s\<rparr>))
     else bind_res (to_bytes v) (\<lambda>b. Inr (m\<lparr>prProof := b\<rparr>)))"

definition pair_request_of_json :: "json \<Rightarrow> pair_request res" where
  "pair_request_of_json j =
    to_struct ''mrcore.PairRequest'' [''pubkey'', ''name'', ''proof''] pair_request_put j
      \<lparr>prPubKey = [], prName = [], prProof = []\<rparr>"

section \<open>Each of them is a codec\<close>

lemmas message_defs =
  request_to_json_def request_of_json_def request_put_def
  response_to_json_def response_of_json_def response_put_def
  result_to_json_def result_of_json_def result_put_def
  hello_to_json_def hello_of_json_def
  challenge_to_json_def challenge_of_json_def challenge_put_def
  pair_request_to_json_def pair_request_of_json_def pair_request_put_def
  omitempty_def to_struct_def

lemma field_names_ascii [simp]:
  "valid_utf8 ''kid''" "valid_utf8 ''X''" "valid_utf8 ''Y''" "valid_utf8 ''xOnly''"
  "valid_utf8 ''error''" "valid_utf8 ''ok''" "valid_utf8 ''name''" "valid_utf8 ''nonce''"
  "valid_utf8 ''pubkey''" "valid_utf8 ''proof''"
  by (simp_all add: valid_utf8_ascii is_ascii_def)

interpretation request: msg_codec request_to_json request_of_json "\<lambda>_. True"
  by unfold_locales (simp_all add: message_defs)

interpretation response: msg_codec response_to_json response_of_json "\<lambda>m. valid_utf8 (respError m)"
  by unfold_locales (simp_all add: message_defs)

interpretation result: msg_codec result_to_json result_of_json "\<lambda>m. valid_utf8 (resError m)"
  by unfold_locales (simp_all add: message_defs)

interpretation hello: msg_codec hello_to_json hello_of_json "\<lambda>m. valid_utf8 (helloName m)"
  by unfold_locales (simp_all add: message_defs)

interpretation challenge: msg_codec challenge_to_json challenge_of_json "\<lambda>m. valid_utf8 (pcName m)"
  by unfold_locales (simp_all add: message_defs)

interpretation pair_request:
  msg_codec pair_request_to_json pair_request_of_json "\<lambda>m. valid_utf8 (prName m)"
  by unfold_locales (simp_all add: message_defs)

section \<open>Properties\<close>

text \<open>
  What one side wrote the other reads: after a greeting and a challenge were written to a
  connection, reading a greeting and then a challenge from the bytes gives back both, field by
  field, and takes exactly those bytes from the stream.
\<close>

theorem greeting_arrives:
  assumes "valid_utf8 (helloName g)" and "tx w = []"
    and "WriteMessage (hello_to_json g) w = (Inr (), w1)"
    and "WriteMessage (request_to_json q) w1 = (Inr (), w2)" and "rx r = tx w2 @ rest"
  shows "\<exists>r1. ReadMessage hello_of_json r = (Inr g, r1) \<and>
    ReadMessage request_of_json r1 = (Inr q, r\<lparr>rx := rest\<rparr>)"
proof -
  have size: "length (json_print v) \<le> maxMessageSize" if "WriteMessage v c = (Inr (), c')" for v c c'
    using that by (auto simp: WriteMessage_def Let_def split: if_splits)
  have "rx r = frame (hello_to_json g) @ frame (request_to_json q) @ rest"
    using assms(2,5) WriteMessage_Inr [OF assms(3)] WriteMessage_Inr [OF assms(4)] by simp
  from hello.read_written [OF assms(1) size [OF assms(3)] this]
  have "ReadMessage hello_of_json r = (Inr g, r\<lparr>rx := frame (request_to_json q) @ rest\<rparr>)" .
  moreover have "ReadMessage request_of_json (r\<lparr>rx := frame (request_to_json q) @ rest\<rparr>) =
      (Inr q, r\<lparr>rx := rest\<rparr>)"
    using request.read_written [OF TrueI size [OF assms(4)], of "r\<lparr>rx := frame (request_to_json q) @ rest\<rparr>"]
    by simp
  ultimately show ?thesis by blast
qed

text \<open>
  C7. Framing is bounded on both sides, whatever the peer sends and whenever the connection
  breaks: a read takes at most 64 KiB and the length field from the stream, and a write puts at
  most that much on it, a prefix of the framed message.
\<close>

theorem framing_bounded:
  "(\<exists>p. rx c = p @ rx (snd (ReadMessage dec c)) \<and> length p \<le> maxMessageSize + 4) \<and>
   (\<exists>p. prefix p (frame v) \<and> tx (snd (WriteMessage v c)) = tx c @ p \<and>
      length p \<le> maxMessageSize + 4)"
  using ReadMessage_bounded [of dec c] WriteMessage_tx [of v c] by (metis prod.collapse)

lemma greeting_arrives_witness:
  "\<exists>w1 w2 r1 r2. WriteMessage (hello_to_json \<lparr>helloName = ''m''\<rparr>)
      \<lparr>PeerID = [], rx = [], tx = [], writes_left = None, wr_err = IoEOF\<rparr> = (Inr (), w1) \<and>
    WriteMessage (request_to_json \<lparr>reqKid = [1], reqX = [2]\<rparr>) w1 = (Inr (), w2) \<and>
    ReadMessage hello_of_json (w1\<lparr>rx := tx w2\<rparr>) = (Inr \<lparr>helloName = ''m''\<rparr>, r1) \<and>
    ReadMessage request_of_json r1 = (Inr \<lparr>reqKid = [1], reqX = [2]\<rparr>, r2)"
proof -
  let ?g = "\<lparr>helloName = ''m''\<rparr>" and ?q = "\<lparr>reqKid = [1], reqX = [2]\<rparr>"
  let ?w = "\<lparr>PeerID = [], rx = [], tx = [], writes_left = None, wr_err = IoEOF\<rparr>"
  have g: "length (json_print (hello_to_json ?g)) \<le> maxMessageSize"
    by code_simp
  have q: "length (json_print (request_to_json ?q)) \<le> maxMessageSize"
    by code_simp
  from WriteMessage_ok [OF g, of ?w] obtain w1 where 1: "WriteMessage (hello_to_json ?g) ?w = (Inr (), w1)"
    "writes_left w1 = None" by simp
  from WriteMessage_ok [OF q 1(2)] obtain w2 where 2: "WriteMessage (request_to_json ?q) w1 = (Inr (), w2)"
    by blast
  have "valid_utf8 (helloName ?g)" by (simp add: valid_utf8_ascii is_ascii_def)
  from greeting_arrives [OF this _ 1(1) 2, of "w1\<lparr>rx := tx w2\<rparr>" "[]"] 1 2 show ?thesis by auto
qed

end
