(* ===== verification/Label.thy ===== *)
theory Label
  imports Json
begin

text \<open>
  \<open>mrcore/label.go\<close>: what \<open>SafeLabel\<close> makes of a string chosen by the peer.  The format
  characters are the ranges of Unicode's category Cf (Unicode 15, the tables of Go 1.21 on).
\<close>

section \<open>Rune values and classes\<close>

definition rune_value :: "string \<Rightarrow> nat" where
  "rune_value u =
    (let b = (\<lambda>i. of_char (u ! i) :: nat) in
     if length u = 1 then b 0
     else if length u = 2 then (b 0 - 192) * 64 + (b 1 - 128)
     else if length u = 3 then (b 0 - 224) * 4096 + (b 1 - 128) * 64 + (b 2 - 128)
     else (b 0 - 240) * 262144 + (b 1 - 128) * 4096 + (b 2 - 128) * 64 + (b 3 - 128))"

definition IsControl :: "nat \<Rightarrow> bool" where
  "IsControl r \<longleftrightarrow> r < 32 \<or> 127 \<le> r \<and> r < 160"

definition cf_ranges :: "(nat \<times> nat) list" where
  "cf_ranges =
    [(0xAD, 0xAD), (0x600, 0x605), (0x61C, 0x61C), (0x6DD, 0x6DD), (0x70F, 0x70F),
     (0x890, 0x891), (0x8E2, 0x8E2), (0x180E, 0x180E), (0x200B, 0x200F), (0x202A, 0x202E),
     (0x2060, 0x2064), (0x2066, 0x206F), (0xFEFF, 0xFEFF), (0xFFF9, 0xFFFB),
     (0x110BD, 0x110BD), (0x110CD, 0x110CD), (0x13430, 0x1343F), (0x1BCA0, 0x1BCA3),
     (0x1D173, 0x1D17A), (0xE0001, 0xE0001), (0xE0020, 0xE007F)]"

definition is_Cf :: "nat \<Rightarrow> bool" where
  "is_Cf r \<longleftrightarrow> list_ex (\<lambda>(lo, hi). lo \<le> r \<and> r \<le> hi) cf_ranges"

text \<open>U+FFFD is \<open>utf8.RuneError\<close>, which is also what a broken sequence decodes to.\<close>

definition bad_rune :: "nat \<Rightarrow> bool" where
  "bad_rune r \<longleftrightarrow> r = 0xFFFD \<or> IsControl r \<or> is_Cf r"

section \<open>The function\<close>

function SafeLabel_loop :: "string \<Rightarrow> int \<Rightarrow> int \<Rightarrow> string" where
  "SafeLabel_loop s maxRunes n =
    (if s = [] then []
     else if n = maxRunes then ''...''
     else
       (case utf8_next s of
          None \<Rightarrow> CHR ''?'' # SafeLabel_loop (tl s) maxRunes (n + 1)
        | Some (u, t) \<Rightarrow>
            (if bad_rune (rune_value u) then ''?'' else u) @ SafeLabel_loop t maxRunes (n + 1)))"
  by pat_completeness auto

termination
  by (relation "measure (\<lambda>(s, _, _). length s)") (auto dest: utf8_next_shrinks)

declare SafeLabel_loop.simps [simp del]

definition SafeLabel :: "string \<Rightarrow> int \<Rightarrow> string" where
  "SafeLabel s maxRunes = SafeLabel_loop s maxRunes 0"

section \<open>What comes out\<close>

text \<open>
  Text that is fit to print: valid UTF-8 without control, format or replacement characters;
  and the number of its runes.
\<close>

function safe_text :: "string \<Rightarrow> bool" where
  "safe_text s =
    (s = [] \<or> (case utf8_next s of None \<Rightarrow> False
               | Some (u, t) \<Rightarrow> \<not> bad_rune (rune_value u) \<and> safe_text t))"
  by pat_completeness auto

termination
  by (relation "measure length") (auto dest: utf8_next_shrinks)

function rune_count :: "string \<Rightarrow> nat" where
  "rune_count s =
    (if s = [] then 0
     else (case utf8_next s of None \<Rightarrow> Suc (rune_count (tl s)) | Some (u, t) \<Rightarrow> Suc (rune_count t)))"
  by pat_completeness auto

termination
  by (relation "measure length") (auto dest: utf8_next_shrinks)

declare safe_text.simps [simp del] rune_count.simps [simp del]

lemma safe_text_rune:
  assumes "utf8_next s = Some (u, t)"
  shows "safe_text (u @ r) \<longleftrightarrow> \<not> bad_rune (rune_value u) \<and> safe_text r"
    and "rune_count (u @ r) = Suc (rune_count r)"
  using utf8_next_append [OF assms, of r] utf8_next_ne [OF assms]
  by (subst safe_text.simps, simp, subst rune_count.simps, simp)

lemma safe_ascii:
  assumes "32 \<le> (of_char c :: nat)" "(of_char c :: nat) < 127"
  shows "safe_text (c # r) \<longleftrightarrow> safe_text r" and "rune_count (c # r) = Suc (rune_count r)"
proof -
  have n: "utf8_next (c # r) = Some ([c], r)" using assms by (simp add: utf8_next_ascii)
  have "\<not> bad_rune (rune_value [c])"
    using assms by (auto simp: bad_rune_def rune_value_def IsControl_def is_Cf_def cf_ranges_def)
  with safe_text_rune [OF n, of r]
  show "safe_text (c # r) \<longleftrightarrow> safe_text r" and "rune_count (c # r) = Suc (rune_count r)" by simp_all
qed

lemma safe_Nil [simp]: "safe_text []" "rune_count [] = 0"
  by (simp_all add: safe_text.simps rune_count.simps)

lemma safe_dots: "safe_text ''...''" "rune_count ''...'' = 3"
  by (simp_all add: safe_ascii)

lemma SafeLabel_loop_safe:
  "safe_text (SafeLabel_loop s m n) \<and>
    (n \<le> m \<longrightarrow> int (rune_count (SafeLabel_loop s m n)) \<le> m - n + 3)"
proof (induction s m n rule: SafeLabel_loop.induct)
  case (1 s m n)
  show ?case
  proof (cases "s = [] \<or> n = m")
    case True
    then show ?thesis by (subst SafeLabel_loop.simps, subst SafeLabel_loop.simps) (auto simp: safe_dots)
  next
    case False
    show ?thesis
    proof (cases "utf8_next s")
      case None
      then have "SafeLabel_loop s m n = CHR ''?'' # SafeLabel_loop (tl s) m (n + 1)"
        using False by (subst SafeLabel_loop.simps) simp
      with 1(1) [OF _ _ None] False show ?thesis by (auto simp: safe_ascii)
    next
      case (Some p)
      obtain u t where p: "p = (u, t)" by (cases p)
      let ?w = "if bad_rune (rune_value u) then ''?'' else u"
      have eq: "SafeLabel_loop s m n = ?w @ SafeLabel_loop t m (n + 1)"
        using False Some p by (subst SafeLabel_loop.simps) simp
      have "safe_text (?w @ r) = safe_text r" "rune_count (?w @ r) = Suc (rune_count r)" for r
        using safe_text_rune [of s u t r] Some p by (auto simp: safe_ascii)
      with 1(2) [OF _ _ Some p [symmetric]] False eq show ?thesis by auto
    qed
  qed
qed

lemma SafeLabel_loop_id:
  "safe_text s \<Longrightarrow> n + int (rune_count s) \<le> m \<Longrightarrow> SafeLabel_loop s m n = s"
proof (induction s m n rule: SafeLabel_loop.induct)
  case (1 s m n)
  show ?case
  proof (cases "s = []")
    case True
    then show ?thesis by (simp add: SafeLabel_loop.simps)
  next
    case False
    from 1(3) False obtain u t where ut: "utf8_next s = Some (u, t)"
        "\<not> bad_rune (rune_value u)" "safe_text t"
      by (subst (asm) safe_text.simps) (auto split: option.splits)
    note s = utf8_next_split [OF ut(1)]
    have rc: "rune_count s = Suc (rune_count t)"
      using False ut(1) by (subst rune_count.simps) simp
    with 1(4) have ne: "n \<noteq> m" by simp
    have "SafeLabel_loop t m (n + 1) = t"
      using 1(2) [OF False ne ut(1) refl ut(3)] 1(4) rc by simp
    then show ?thesis
      using False ne ut s by (subst SafeLabel_loop.simps) simp
  qed
qed

text \<open>
  C10. A label is fit to print: whatever bytes the peer chose, the result is valid UTF-8 without
  control or format characters, of at most \<open>maxRunes\<close> characters and the three dots; and a
  string that is already so is shown as it is.
\<close>

theorem SafeLabel_safe:
  assumes "0 \<le> m"
  shows "safe_text (SafeLabel s m) \<and> int (rune_count (SafeLabel s m)) \<le> m + 3 \<and>
    (safe_text s \<and> int (rune_count s) \<le> m \<longrightarrow> SafeLabel s m = s)"
  using SafeLabel_loop_safe [of s m 0] SafeLabel_loop_id [of s 0 m] assms
  by (simp add: SafeLabel_def)

lemma SafeLabel_safe_witness:
  "safe_text (SafeLabel [CHR 0x1B, CHR ''['', CHR 0x0A, CHR ''x''] 3) \<and>
    int (rune_count (SafeLabel [CHR 0x1B, CHR ''['', CHR 0x0A, CHR ''x''] 3)) \<le> 6"
  using SafeLabel_safe [of 3 "[CHR 0x1B, CHR ''['', CHR 0x0A, CHR ''x'']"] by simp

end
