(* ===== verification/Pair.thy ===== *)
theory Pair
  imports Mr1
begin

text \<open>
  \<open>mrcore/pair.go\<close>: the pairing secret and its console form, and the proof that binds a
  pairing request to the code, to both ends of the connection, to the machine's nonce and to
  the key that is to be enrolled.  The messages are in theory \<open>Wire\<close>.
\<close>

section \<open>The pairing secret\<close>

definition pairingSecretLen :: nat where
  "pairingSecretLen = 16"

definition NewPairingSecret :: "bytes \<Rightarrow> (bytes \<times> string \<times> bytes) res" where
  "NewPairingSecret rng =
    (case rand_Read pairingSecretLen rng of
       Inl e \<Rightarrow> Inl (wrap ''mrcore: generating a pairing secret'' e)
     | Inr (secret, rng') \<Rightarrow> Inr (secret, b32_EncodeToString secret, rng'))"

definition DecodePairingSecret :: "string \<Rightarrow> bytes res" where
  "DecodePairingSecret encoded =
    (let trimmed = ToUpper (TrimSpace encoded) in
     case b32_DecodeString trimmed of
       None \<Rightarrow> Inl (wrap ''mrcore: invalid pairing secret'' (Err ''illegal base32 data''))
     | Some secret \<Rightarrow>
         if length secret \<noteq> pairingSecretLen
         then Inl (Err (''mrcore: pairing secret is '' @ show_nat (length secret) @
                '' bytes, want '' @ show_nat pairingSecretLen))
         else Inr secret)"

lemma upper_b32:
  "upper_char c \<in> set b32_alphabet \<Longrightarrow> printable c"
proof -
  assume u: "upper_char c \<in> set b32_alphabet"
  have "(of_char (upper_char c) :: nat) \<ge> 50" "(of_char (upper_char c) :: nat) \<le> 90"
    using u by (auto simp: b32_alphabet_def)
  then show ?thesis
    by (auto simp: printable_def upper_char_def Let_def split: if_splits)
qed

text \<open>
  A pairing code typed off the console decodes to the secret it was made from, whatever
  mixture of upper and lower case it is typed in and whatever white space surrounds it.
\<close>

theorem DecodePairingSecret_typed:
  assumes "length secret = pairingSecretLen"
    and "map upper_char t = b32_EncodeToString secret"
    and "set ws \<subseteq> set ws_encodings" and "set ws' \<subseteq> set ws_encodings"
  shows "DecodePairingSecret (concat ws @ t @ concat ws') = Inr secret"
proof -
  have chars: "\<forall>c \<in> set t. upper_char c \<in> set b32_alphabet"
    using b32_enc_chars [of secret] assms(2) by (metis (no_types) image_eqI image_set subsetD)
  then have pr: "list_all printable t" by (auto simp: list_all_iff intro: upper_b32)
  obtain a b c d e r where "secret = a # b # c # d # e # r"
    using assms(1) by (auto simp: pairingSecretLen_def numeral_eq_Suc length_Suc_conv)
  then have "8 \<le> length (b32_EncodeToString secret)" by simp
  then have "b32_EncodeToString secret \<noteq> []" by (cases "b32_EncodeToString secret") simp_all
  with assms(2) have "t \<noteq> []" by auto
  then have "printable (hd t)" "printable (last t)"
    using pr by (auto simp: list_all_iff)
  with \<open>t \<noteq> []\<close> assms(3,4) have trim: "TrimSpace (concat ws @ t @ concat ws') = t"
    by (intro TrimSpace_padded)
  have "is_ascii t" using pr by (auto simp: is_ascii_def list_all_iff printable_def)
  with assms(2) have "ToUpper t = b32_EncodeToString secret" by (simp add: ToUpper_ascii)
  then show ?thesis
    using assms(1) by (simp add: DecodePairingSecret_def trim b32_roundtrip)
qed

section \<open>The proof\<close>

definition pairProofLabel :: string where
  "pairProofLabel = ''synctang-pair-v2''"

text \<open>One part as it is written to the MAC: its length in eight bytes, then the part.\<close>

definition mac_part :: "bytes \<Rightarrow> bytes" where
  "mac_part part = be_bytes 8 (length part) @ part"

definition pair_mac_input :: "string \<Rightarrow> string \<Rightarrow> bytes \<Rightarrow> bytes \<Rightarrow> bytes" where
  "pair_mac_input machineID peerID pubKey nonce =
    concat (map mac_part
      [bytes_of pairProofLabel, bytes_of machineID, bytes_of peerID, pubKey, nonce])"

definition PairProof :: "crypto \<Rightarrow> bytes \<Rightarrow> string \<Rightarrow> string \<Rightarrow> bytes \<Rightarrow> bytes \<Rightarrow> bytes" where
  "PairProof P secret machineID peerID pubKey nonce =
    hmacSha256 P secret (pair_mac_input machineID peerID pubKey nonce)"

definition PairRefusedCodeMismatch :: string where
  "PairRefusedCodeMismatch = ''the pairing code did not match''"
definition PairRefusedInvalidKey :: string where
  "PairRefusedInvalidKey = ''the public key offered is not a valid P-256 point''"
definition PairRefusedDeclined :: string where
  "PairRefusedDeclined = ''the operator declined the pairing''"
definition PairRefusedEnrolFailed :: string where
  "PairRefusedEnrolFailed = ''the machine could not enrol this key holder''"

text \<open>A Go slice is shorter than 2^63 bytes.\<close>

abbreviation go_len :: "'a list \<Rightarrow> bool" where
  "go_len xs \<equiv> length xs < 2 ^ 63"

lemma mac_part_split:
  assumes "go_len p" "go_len q" "mac_part p @ xs = mac_part q @ ys"
  shows "p = q \<and> xs = ys"
proof -
  have "be_bytes 8 (length p) @ p @ xs = be_bytes 8 (length q) @ q @ ys"
    using assms(3) by (simp only: mac_part_def append_assoc)
  then have "be_bytes 8 (length p) = be_bytes 8 (length q) \<and> p @ xs = q @ ys"
    by (rule append_eq_split [rotated]) simp
  then have "be_bytes 8 (length p) = be_bytes 8 (length q)" and rest: "p @ xs = q @ ys" by blast+
  then have "length p = length q"
    by (intro be_bytes_inj [of "length p" 8 "length q"]) (use assms(1,2) in simp_all)
  with rest show ?thesis by simp
qed

lemma pair_mac_input_inj:
  assumes "go_len mid" "go_len mid'" "go_len pid" "go_len pid'" "go_len pk" "go_len pk'"
    and "go_len nonce" "go_len nonce'"
    and "pair_mac_input mid pid pk nonce = pair_mac_input mid' pid' pk' nonce'"
  shows "mid = mid' \<and> pid = pid' \<and> pk = pk' \<and> nonce = nonce'"
proof -
  from assms(9) have a: "mac_part (bytes_of mid) @ mac_part (bytes_of pid) @ mac_part pk @ mac_part nonce =
      mac_part (bytes_of mid') @ mac_part (bytes_of pid') @ mac_part pk' @ mac_part nonce'"
    by (simp add: pair_mac_input_def)
  have b: "mid = mid'" "mac_part (bytes_of pid) @ mac_part pk @ mac_part nonce =
      mac_part (bytes_of pid') @ mac_part pk' @ mac_part nonce'"
    using mac_part_split [OF _ _ a] assms(1,2) by simp_all
  have c: "pid = pid'" "mac_part pk @ mac_part nonce = mac_part pk' @ mac_part nonce'"
    using mac_part_split [OF _ _ b(2)] assms(3,4) by simp_all
  have d: "pk = pk'" "mac_part nonce @ [] = mac_part nonce' @ []"
    using mac_part_split [OF _ _ c(2)] assms(5,6) by simp_all
  from mac_part_split [OF _ _ d(2)] assms(7,8) b(1) c(1) d(1) show ?thesis by simp
qed

text \<open>
  A pairing proof is worth nothing anywhere else: under a MAC without collisions, two
  proofs made with one secret agree only when the machine, the peer, the public key and the
  nonce all agree, since the MAC's input can be split in one way only.
\<close>

theorem PairProof_binds:
  assumes "\<forall>m m'. hmacSha256 P secret m = hmacSha256 P secret m' \<longrightarrow> m = m'"
    and "go_len mid" "go_len mid'" "go_len pid" "go_len pid'" "go_len pk" "go_len pk'"
    and "go_len nonce" "go_len nonce'"
    and "PairProof P secret mid pid pk nonce = PairProof P secret mid' pid' pk' nonce'"
  shows "mid = mid' \<and> pid = pid' \<and> pk = pk' \<and> nonce = nonce'"
  using assms(1,10) by (intro pair_mac_input_inj assms(2-9)) (auto simp: PairProof_def)

lemma PairProof_binds_witness:
  "PairProof (plain_crypto\<lparr>hmacSha256 := (\<lambda>k m. k @ m)\<rparr>) [1] ''M'' ''P'' [4] [5] \<noteq>
    PairProof (plain_crypto\<lparr>hmacSha256 := (\<lambda>k m. k @ m)\<rparr>) [1] ''MP'' '''' [4] [5]"
  using PairProof_binds [of "plain_crypto\<lparr>hmacSha256 := (\<lambda>k m. k @ m)\<rparr>" "[1]"
      "''M''" "''MP''" "''P''" "''''" "[4]" "[4]" "[5]" "[5]"]
  by auto

lemma upper_b32_fixed: "c \<in> set b32_alphabet \<Longrightarrow> upper_char c = c"
  by (auto simp: b32_alphabet_def upper_char_def)

lemma DecodePairingSecret_typed_witness:
  "DecodePairingSecret (''  '' @ b32_EncodeToString (replicate 16 1) @ [CHR 0x0A]) =
    Inr (replicate 16 1)"
proof -
  have "map upper_char (b32_EncodeToString (replicate 16 1)) = b32_EncodeToString (replicate 16 1)"
    using b32_enc_chars by (intro map_idI upper_b32_fixed) blast
  moreover have "set [[CHR 0x20], [CHR 0x20]] \<subseteq> set ws_encodings" "set [[CHR 0x0A]] \<subseteq> set ws_encodings"
    by (simp_all add: ws_encodings_def)
  ultimately show ?thesis
    using DecodePairingSecret_typed [of "replicate 16 1" _ "[[CHR 0x20], [CHR 0x20]]" "[[CHR 0x0A]]"]
    by (simp add: pairingSecretLen_def)
qed

end
