(* ===== verification/GoTime.thy ===== *)
theory GoTime
  imports GoText
begin

text \<open>
  What the code uses of Go's \<open>time\<close>, \<open>bufio.Scanner\<close> and \<open>fmt\<close>: durations in
  nanoseconds, their rounding and printing, the lines of a text, quoting, and the text of an
  error.
\<close>

section \<open>Durations\<close>

text \<open>A \<open>time.Duration\<close>, and the instants it separates, in nanoseconds.\<close>

type_synonym duration = int

abbreviation Microsecond :: duration where "Microsecond \<equiv> 1000"
abbreviation Millisecond :: duration where "Millisecond \<equiv> 1000000"
abbreviation Second :: duration where "Second \<equiv> 1000000000"
abbreviation Minute :: duration where "Minute \<equiv> 60 * Second"

text \<open>\<open>d.Round(m)\<close> rounds half away from zero and saturates.\<close>

definition Round :: "duration \<Rightarrow> duration \<Rightarrow> duration" where
  "Round d m =
    (if m \<le> 0 then d
     else
       (let r = \<bar>d\<bar> mod m;
            u = (if r + r < m then \<bar>d\<bar> - r else \<bar>d\<bar> + m - r) in
        if d < 0 then max (- u) (- (2 ^ 63)) else min u (2 ^ 63 - 1)))"

text \<open>The digits after the point, without trailing zeros: \<open>fmtFrac\<close>.\<close>

definition frac_digits :: "nat \<Rightarrow> nat \<Rightarrow> string" where
  "frac_digits v prec =
    (let s = show_nat (v mod 10 ^ prec);
         ds = rev (dropWhile (\<lambda>c. c = CHR ''0'') (rev (replicate (prec - length s) (CHR ''0'') @ s))) in
     if v mod 10 ^ prec = 0 then [] else CHR ''.'' # ds)"

definition with_frac :: "nat \<Rightarrow> nat \<Rightarrow> string" where
  "with_frac v prec = show_nat (v div 10 ^ prec) @ frac_digits v prec"

definition micro_sign :: string where
  "micro_sign = [CHR 0xC2, CHR 0xB5]"

definition duration_string :: "duration \<Rightarrow> string" where
  "duration_string d =
    (let u = nat \<bar>d\<bar>; sign = (if d < 0 then ''-'' else []) in
     if u = 0 then ''0s''
     else if u < 1000 then sign @ show_nat u @ ''ns''
     else if u < 1000000 then sign @ with_frac u 3 @ micro_sign @ ''s''
     else if u < 1000000000 then sign @ with_frac u 6 @ ''ms''
     else
       (let secs = u div 10 ^ 9; tail = frac_digits u 9 @ ''s''; mins = secs div 60; hours = mins div 60 in
        if mins = 0 then sign @ show_nat secs @ tail
        else if hours = 0 then sign @ show_nat mins @ ''m'' @ show_nat (secs mod 60) @ tail
        else sign @ show_nat hours @ ''h'' @ show_nat (mins mod 60) @ ''m'' @ show_nat (secs mod 60) @ tail))"

section \<open>Quoting\<close>

text \<open>\<open>%q\<close>; bytes of non-ASCII characters stand for themselves.\<close>

definition hex_digit :: "nat \<Rightarrow> char" where
  "hex_digit n = (if n < 10 then char_of (48 + n) else char_of (87 + n))"

definition quote_char :: "char \<Rightarrow> string" where
  "quote_char c =
    (let n = (of_char c :: nat); esc = (\<lambda>x. [CHR 0x5C, x]) in
     if c = CHR 0x22 then esc c
     else if c = CHR 0x5C then esc c
     else if n = 7 then esc (CHR ''a'') else if n = 8 then esc (CHR ''b'')
     else if n = 9 then esc (CHR ''t'') else if n = 10 then esc (CHR ''n'')
     else if n = 11 then esc (CHR ''v'') else if n = 12 then esc (CHR ''f'')
     else if n = 13 then esc (CHR ''r'')
     else if n < 32 \<or> n = 127 then [CHR 0x5C, CHR ''x'', hex_digit (n div 16), hex_digit (n mod 16)]
     else [c])"

definition Quote :: "string \<Rightarrow> string" where
  "Quote s = CHR 0x22 # concat (map quote_char s) @ [CHR 0x22]"

section \<open>The text of an error\<close>

fun error_text :: "goerr \<Rightarrow> string" where
  "error_text (Err s) = s"
| "error_text (Wrap pre e post) = pre @ error_text e @ post"
| "error_text (Joined es) = join_with [CHR 0x0A] (map error_text es)"
| "error_text (RateLimited d) =
    ''discovery lookup returned HTTP 429: asked to wait '' @ duration_string (Round d Second)"
| "error_text (DialErr e) = error_text e"
| "error_text (KindErr k detail e) = error_text e"
| "error_text (PairRefusedErr reason) =
    (if reason = [] then ''the machine refused the pairing''
     else ''the machine refused the pairing: '' @ reason)"
| "error_text IoEOF = ''EOF''"
| "error_text IoUnexpectedEOF = ''unexpected EOF''"
| "error_text CtxCanceled = ''context canceled''"
| "error_text CtxDeadlineExceeded = ''context deadline exceeded''"

section \<open>Lines of a text\<close>

text \<open>
  \<open>bufio.Scanner\<close>: the lines without their line end (\<open>\n\<close> or \<open>\r\n\<close>), up to the first
  that does not fit the 64 KiB buffer, and whether there was such a line.
\<close>

definition maxScanTokenSize :: nat where
  "maxScanTokenSize = 64 * 1024"

definition drop_cr :: "string \<Rightarrow> string" where
  "drop_cr l = (if l \<noteq> [] \<and> last l = CHR 0x0D then butlast l else l)"

definition raw_lines :: "string \<Rightarrow> string list" where
  "raw_lines s =
    (let ls = split_on (CHR 0x0A) s in if last ls = [] then butlast ls else ls)"

definition scan_lines :: "string \<Rightarrow> string list \<times> bool" where
  "scan_lines s =
    (let fits = (\<lambda>l. length l < maxScanTokenSize); ls = raw_lines s in
     (map drop_cr (takeWhile fits ls), \<not> list_all fits ls))"

definition ErrTooLong :: goerr where
  "ErrTooLong = Err ''bufio.Scanner: token too long''"

lemma scan_lines_join:
  assumes "list_all (\<lambda>l. CHR 0x0A \<notin> set l \<and> length l < maxScanTokenSize \<and> (l \<noteq> [] \<longrightarrow> last l \<noteq> CHR 0x0D)) ls"
    and "ls \<noteq> []"
  shows "scan_lines (join_with [CHR 0x0A] ls @ [CHR 0x0A]) = (ls, False)"
proof -
  have j: "join_with [CHR 0x0A] ls @ [CHR 0x0A] = join_with [CHR 0x0A] (ls @ [[]])"
    using assms(2) by (induction ls rule: induct_list012) auto
  have "split_on (CHR 0x0A) (join_with [CHR 0x0A] (ls @ [[]])) = ls @ [[]]"
    using assms by (intro split_on_join) (auto simp: list_all_iff)
  then have r: "raw_lines (join_with [CHR 0x0A] ls @ [CHR 0x0A]) = ls"
    unfolding j by (simp add: raw_lines_def)
  have m: "map drop_cr ls = ls"
    using assms(1) by (intro map_idI) (auto simp: drop_cr_def list_all_iff)
  have l: "list_all (\<lambda>l. length l < maxScanTokenSize) ls"
    using assms(1) by (auto simp: list_all_iff)
  then have t: "takeWhile (\<lambda>l. length l < maxScanTokenSize) ls = ls"
    by (simp add: list_all_iff)
  show ?thesis unfolding scan_lines_def r Let_def t m using l by simp
qed

end
