(* ===== verification/Token.thy ===== *)
theory Token
  imports Wire Mr1 GoTime "HOL-Library.AList" "HOL-Library.List_Lexorder" "HOL-Library.Char_ord"
begin

text \<open>
  \<open>mrcore/token.go\<close>: the LUKS2 token and its JSON form.  A Go map is an association list with
  distinct keys in ascending order, the order in which \<open>json.Marshal\<close> writes a map and in
  which nothing else can see it.  A nil slice and an empty one are the same list, written as
  \<open>[]\<close> (Go writes \<open>null\<close> for a nil one; both are read back as empty).
\<close>

definition tokenType :: string where
  "tokenType = ''mr-1''"

definition currentVersion :: int where
  "currentVersion = 1"

record machine_info =
  mName :: string
  mTransportID :: string

record token =
  Version :: int
  Keyslots :: "string list"
  Recipients :: "recipient list"
  Machine :: machine_info
  extra :: "(string \<times> json) list"

definition tokenWireFields :: "string list" where
  "tokenWireFields = [''type'', ''version'', ''keyslots'', ''recipients'', ''machine'']"

section \<open>Maps\<close>

text \<open>The map a sequence of assignments leaves: the last one to a key wins.\<close>

definition norm_map :: "(string \<times> 'v) list \<Rightarrow> (string \<times> 'v) list" where
  "norm_map kvs = sort_key fst (AList.clearjunk (rev kvs))"

definition is_map :: "(string \<times> 'v) list \<Rightarrow> bool" where
  "is_map m \<longleftrightarrow> sorted (map fst m) \<and> distinct (map fst m)"

lemma is_map_norm [simp]: "is_map (norm_map kvs)"
proof -
  have "distinct (map fst (AList.clearjunk (rev kvs)))" by (rule distinct_clearjunk)
  then show ?thesis
    by (simp add: is_map_def norm_map_def distinct_map)
qed

lemma map_of_norm [simp]: "map_of (norm_map kvs) = map_of (rev kvs)"
proof -
  have "distinct (map fst (AList.clearjunk (rev kvs)))" by (rule distinct_clearjunk)
  then have "map_of (sort_key fst (AList.clearjunk (rev kvs))) = map_of (AList.clearjunk (rev kvs))"
    by (intro map_of_inject_set [THEN iffD2]) (simp_all add: distinct_map)
  then show ?thesis by (simp add: norm_map_def map_of_clearjunk)
qed

lemma is_map_eqI:
  assumes "is_map xs" "is_map ys" "map_of xs = map_of ys"
  shows "xs = ys"
proof -
  have d: "distinct (map fst xs)" "distinct (map fst ys)"
    using assms(1,2) by (simp_all add: is_map_def)
  then have s: "set xs = set ys" using assms(3) by (simp add: map_of_inject_set)
  then have "inj_on fst (set xs \<union> set ys)" using d by (simp add: distinct_map)
  then show ?thesis
    using assms(1,2) s map_sorted_distinct_set_unique [of fst xs ys] by (simp add: is_map_def)
qed

section \<open>Writing a token\<close>

definition recipient_to_json :: "recipient \<Rightarrow> json" where
  "recipient_to_json r = JObj
    ([(''kid'', of_bytes (Kid r)), (''S'', of_bytes (rS r)), (''C'', of_bytes (rC r)),
      (''ct'', of_bytes (Ciphertext r)), (''nonce'', of_bytes (Nonce r))] @
     (case Transport r of None \<Rightarrow> [] | Some j \<Rightarrow> [(''transport'', j)]))"

definition machine_to_json :: "machine_info \<Rightarrow> json" where
  "machine_to_json m = JObj [(''name'', JStr (mName m)), (''transport_id'', JStr (mTransportID m))]"

text \<open>The fields this build writes, in the order they are put in the map.\<close>

definition token_fields :: "token \<Rightarrow> (string \<times> json) list" where
  "token_fields t =
    [(''type'', JStr tokenType),
     (''version'', of_int (Version t)),
     (''keyslots'', JArr (map JStr (Keyslots t))),
     (''recipients'', JArr (map recipient_to_json (Recipients t))),
     (''machine'', machine_to_json (Machine t))]"

definition token_json :: "token \<Rightarrow> json" where
  "token_json t = JObj (norm_map (extra t @ token_fields t))"

text \<open>
  The bytes: \<open>json.Marshal\<close> of that map, which writes U+FFFD for a byte that is not part of valid
  UTF-8, so that a name with such a byte is stored as another name.
\<close>

definition token_MarshalJSON :: "token \<Rightarrow> string" where
  [simp]: "token_MarshalJSON t = json_print (token_json t)"

section \<open>Reading a token\<close>

definition recipient_fields :: "string list" where
  "recipient_fields = [''kid'', ''S'', ''C'', ''ct'', ''nonce'', ''transport'']"

definition recipient_put :: "string \<Rightarrow> json \<Rightarrow> recipient \<Rightarrow> recipient res" where
  "recipient_put f v r =
    (if f = ''transport'' then Inr (r\<lparr>Transport := Some v\<rparr>)
     else bind_res (to_bytes v) (\<lambda>b. Inr
       (if f = ''kid'' then r\<lparr>Kid := b\<rparr>
        else if f = ''S'' then r\<lparr>rS := b\<rparr>
        else if f = ''C'' then r\<lparr>rC := b\<rparr>
        else if f = ''ct'' then r\<lparr>Ciphertext := b\<rparr>
        else r\<lparr>Nonce := b\<rparr>)))"

definition zero_recipient :: recipient where
  "zero_recipient = \<lparr>Kid = [], rS = [], rC = [], Ciphertext = [], Nonce = [], Transport = None\<rparr>"

definition recipient_of_json :: "json \<Rightarrow> recipient res" where
  "recipient_of_json j = to_struct ''mrcore.Recipient'' recipient_fields recipient_put j zero_recipient"

definition machine_put :: "string \<Rightarrow> json \<Rightarrow> machine_info \<Rightarrow> machine_info res" where
  "machine_put f v m =
    (if f = ''name'' then bind_res (to_string v (mName m)) (\<lambda>s. Inr (m\<lparr>mName := s\<rparr>))
     else bind_res (to_string v (mTransportID m)) (\<lambda>s. Inr (m\<lparr>mTransportID := s\<rparr>)))"

definition machine_of_json :: "json \<Rightarrow> machine_info \<Rightarrow> machine_info res" where
  "machine_of_json j m = to_struct ''mrcore.MachineInfo'' [''name'', ''transport_id''] machine_put j m"

text \<open>A slice destination: null makes it nil, an array is read element by element.\<close>

definition to_slice :: "string \<Rightarrow> (json \<Rightarrow> 'a res) \<Rightarrow> json \<Rightarrow> 'a list res" where
  "to_slice ty f j =
    (case j of JNull \<Rightarrow> Inr [] | JArr js \<Rightarrow> to_list f js | _ \<Rightarrow> Inl (type_error j ty))"

text \<open>\<open>getTokenField\<close>: an absent field leaves the destination alone.\<close>

definition getTokenField :: "(string \<times> json) list \<Rightarrow> string \<Rightarrow> (json \<Rightarrow> 'a res) \<Rightarrow> 'a \<Rightarrow> 'a res" where
  "getTokenField raw key dec dst =
    (case map_of raw key of
       None \<Rightarrow> Inr dst
     | Some v \<Rightarrow> map_err (wrap (''mrcore: unmarshal token: '' @ key)) (dec v))"

definition raw_of_json :: "json \<Rightarrow> (string \<times> json) list res" where
  "raw_of_json j =
    (case j of JNull \<Rightarrow> Inr [] | JObj kvs \<Rightarrow> Inr (norm_map kvs)
     | _ \<Rightarrow> Inl (type_error j ''map[string]json.RawMessage''))"

definition token_UnmarshalJSON :: "json \<Rightarrow> token res" where
  "token_UnmarshalJSON data =
    (case raw_of_json data of
       Inl e \<Rightarrow> Inl (wrap ''mrcore: unmarshal token'' e)
     | Inr raw \<Rightarrow>
    (case getTokenField raw ''type'' (\<lambda>v. to_string v []) [] of
       Inl e \<Rightarrow> Inl e
     | Inr typ \<Rightarrow>
    (if typ \<noteq> tokenType
     then Inl (Err (''mrcore: unmarshal token: unsupported type '' @ Quote typ @ '', want '' @ Quote tokenType))
     else
    (case getTokenField raw ''version'' (\<lambda>v. to_int v 0) 0 of
       Inl e \<Rightarrow> Inl e
     | Inr version \<Rightarrow>
    (if version \<noteq> currentVersion
     then Inl (Err (''mrcore: unmarshal token: unsupported version '' @ show_int version @
            '', want '' @ show_int currentVersion))
     else
    (case getTokenField raw ''keyslots'' (to_slice ''[]string'' (\<lambda>v. to_string v [])) [] of
       Inl e \<Rightarrow> Inl e
     | Inr keyslots \<Rightarrow>
    (case getTokenField raw ''recipients'' (to_slice ''[]mrcore.Recipient'' recipient_of_json) [] of
       Inl e \<Rightarrow> Inl e
     | Inr recipients \<Rightarrow>
    (case getTokenField raw ''machine''
            (\<lambda>v. machine_of_json v \<lparr>mName = [], mTransportID = []\<rparr>)
            \<lparr>mName = [], mTransportID = []\<rparr> of
       Inl e \<Rightarrow> Inl e
     | Inr machine \<Rightarrow>
         Inr \<lparr>Version = version, Keyslots = keyslots, Recipients = recipients, Machine = machine,
              extra = filter (\<lambda>(k, _). k \<notin> set tokenWireFields) raw\<rparr>))))))))"

section \<open>Round trip\<close>

lemma recipient_roundtrip [simp]: "recipient_of_json (recipient_to_json r) = Inr r"
  by (cases r) (simp add: recipient_of_json_def recipient_to_json_def to_struct_def
      recipient_fields_def recipient_put_def zero_recipient_def split: option.splits)

lemma machine_roundtrip [simp]: "machine_of_json (machine_to_json m) z = Inr m"
  by (cases m; cases z) (simp add: machine_of_json_def machine_to_json_def to_struct_def machine_put_def)

definition token_ok :: "token \<Rightarrow> bool" where
  "token_ok t \<longleftrightarrow>
    Version t = currentVersion \<and> is_map (extra t) \<and>
    (\<forall>k \<in> fst ` set (extra t). k \<notin> set tokenWireFields)"

lemma map_of_token_fields:
  "map_of (rev (extra t @ token_fields t)) k =
    (case map_of (token_fields t) k of Some v \<Rightarrow> Some v | None \<Rightarrow> map_of (rev (extra t)) k)"
  by (simp add: token_fields_def)

lemma map_of_filter_key:
  "map_of (filter (\<lambda>(k, _). Q k) xs) k = (if Q k then map_of xs k else None)"
  by (induction xs) auto

lemma map_of_rev_distinct: "distinct (map fst xs) \<Longrightarrow> map_of (rev xs) = map_of xs"
  by (intro map_of_inject_set [THEN iffD2]) (simp_all add: rev_map [symmetric])

lemma norm_map_id: "is_map m \<Longrightarrow> norm_map m = m"
  by (rule is_map_eqI [OF is_map_norm]) (simp_all add: map_of_rev_distinct is_map_def)

lemma filter_norm_extra:
  assumes "token_ok t"
  shows "filter (\<lambda>(k, _). k \<notin> set tokenWireFields) (norm_map (extra t @ token_fields t)) = extra t"
proof (rule is_map_eqI)
  let ?P = "\<lambda>(k, _). k \<notin> set tokenWireFields"
  have m: "is_map (norm_map (extra t @ token_fields t))" by (rule is_map_norm)
  then show "is_map (filter ?P (norm_map (extra t @ token_fields t)))"
    by (auto simp: is_map_def distinct_map intro: sorted_filter inj_on_subset)
  show "is_map (extra t)" using assms by (simp add: token_ok_def)
  then have d: "distinct (map fst (extra t))" by (simp add: is_map_def)
  show "map_of (filter ?P (norm_map (extra t @ token_fields t))) = map_of (extra t)"
  proof
    fix k
    have "map_of (extra t) k = None" if "k \<in> set tokenWireFields"
      using assms that by (force simp: token_ok_def map_of_eq_None_iff)
    moreover have "map_of (token_fields t) k = None" if "k \<notin> set tokenWireFields"
      using that by (simp add: token_fields_def tokenWireFields_def)
    ultimately show "map_of (filter ?P (norm_map (extra t @ token_fields t))) k = map_of (extra t) k"
      unfolding map_of_filter_key map_of_norm map_of_token_fields
      by (simp add: map_of_rev_distinct [OF d])
  qed
qed

lemma getTokenField_Some:
  "map_of raw k = Some v \<Longrightarrow>
    getTokenField raw k dec dst = map_err (wrap (''mrcore: unmarshal token: '' @ k)) (dec v)"
  by (simp add: getTokenField_def)

lemma token_field:
  assumes "map_of (token_fields t) k = Some v"
  shows "map_of (norm_map (extra t @ token_fields t)) k = Some v"
  unfolding map_of_norm map_of_token_fields using assms by simp

lemma token_reads_back:
  assumes "token_ok t"
  shows "token_UnmarshalJSON (token_json t) = Inr t"
proof -
  have m: "norm_map (norm_map (extra t @ token_fields t)) = norm_map (extra t @ token_fields t)"
    by (rule norm_map_id) simp
  have fields:
    "map_of (token_fields t) ''type'' = Some (JStr tokenType)"
    "map_of (token_fields t) ''version'' = Some (of_int (Version t))"
    "map_of (token_fields t) ''keyslots'' = Some (JArr (map JStr (Keyslots t)))"
    "map_of (token_fields t) ''recipients'' = Some (JArr (map recipient_to_json (Recipients t)))"
    "map_of (token_fields t) ''machine'' = Some (machine_to_json (Machine t))"
    by (simp_all add: token_fields_def)
  note get = fields [THEN token_field, THEN getTokenField_Some]
  have version: "Version t = 1" using assms by (simp add: token_ok_def currentVersion_def)
  have slots: "to_list (\<lambda>v. to_string v []) (map JStr (Keyslots t)) = Inr (Keyslots t)"
    by (rule to_list_map) simp
  have recs: "to_list recipient_of_json (map recipient_to_json (Recipients t)) = Inr (Recipients t)"
    by (rule to_list_map) simp
  show ?thesis
    using filter_norm_extra [OF assms] version
    by (simp add: token_UnmarshalJSON_def token_json_def raw_of_json_def m get
        to_slice_def slots recs currentVersion_def)
qed

text \<open>What a token must hold to be printable, and that reading printable JSON gives such a token.\<close>

lemma elems_wf_iff: "elems_wf xs \<longleftrightarrow> (\<forall>x \<in> set xs. json_wf x)"
  by (induction xs) auto

lemma members_wf_iff: "members_wf ms \<longleftrightarrow> (\<forall>(k, v) \<in> set ms. valid_utf8 k \<and> json_wf v)"
  by (induction ms) auto

definition recipient_wf :: "recipient \<Rightarrow> bool" where
  "recipient_wf r \<longleftrightarrow> (case Transport r of None \<Rightarrow> True | Some j \<Rightarrow> json_wf j)"

definition machine_wf :: "machine_info \<Rightarrow> bool" where
  "machine_wf m \<longleftrightarrow> valid_utf8 (mName m) \<and> valid_utf8 (mTransportID m)"

definition token_wf :: "token \<Rightarrow> bool" where
  "token_wf t \<longleftrightarrow>
    token_ok t \<and> (\<forall>k \<in> set (Keyslots t). valid_utf8 k) \<and> (\<forall>r \<in> set (Recipients t). recipient_wf r) \<and>
    machine_wf (Machine t) \<and> members_wf (extra t)"

lemma set_norm_map: "set (norm_map kvs) \<subseteq> set kvs"
proof
  fix kv
  assume "kv \<in> set (norm_map kvs)"
  then have "kv \<in> set (AList.clearjunk (rev kvs))" by (simp add: norm_map_def)
  then have "kv \<in> Map.graph (map_of (rev kvs))" by (simp add: graph_map_of)
  then have "map_of (rev kvs) (fst kv) = Some (snd kv)" by (cases kv) (auto dest: in_graphD)
  then have "(fst kv, snd kv) \<in> set (rev kvs)" by (rule map_of_SomeD)
  then show "kv \<in> set kvs" by simp
qed

lemma members_wf_norm: "members_wf kvs \<Longrightarrow> members_wf (norm_map kvs)"
  using set_norm_map [of kvs] by (auto simp: members_wf_iff)

lemma valid_utf8_Nil [simp]: "valid_utf8 []"
  by (simp add: valid_utf8.simps)

lemma token_field_names_ascii [simp]:
  "valid_utf8 ''type''" "valid_utf8 ''version''" "valid_utf8 ''keyslots''" "valid_utf8 ''recipients''"
  "valid_utf8 ''machine''" "valid_utf8 ''S''" "valid_utf8 ''C''" "valid_utf8 ''ct''"
  "valid_utf8 ''transport''" "valid_utf8 ''transport_id''" "valid_utf8 ''mr-1''" "valid_utf8 ''device_id''"
  by (simp_all add: valid_utf8_ascii is_ascii_def)

lemma show_int_1: "show_int 1 = ''1''"
proof -
  have "char_of (49 :: nat) = CHR ''1''" by (simp add: char_of_eq_iff)
  then show ?thesis by (simp add: show_int_def show_nat.simps digit_def)
qed

lemma number_1: "json_wf (of_int 1)"
  by (simp add: of_int_def show_int_1 valid_number_def valid_int_part_def
      digits1_def digit_val_def number_char_def TrimPrefix_def)

lemma token_wf_json:
  assumes "token_wf t"
  shows "json_wf (token_json t)"
proof -
  have "json_wf (recipient_to_json r)" if "recipient_wf r" for r
    using that by (auto simp: recipient_to_json_def recipient_wf_def split: option.splits)
  then have "members_wf (extra t @ token_fields t)"
    using assms number_1
    by (auto simp: token_wf_def token_fields_def members_wf_iff elems_wf_iff machine_wf_def
        machine_to_json_def tokenType_def token_ok_def currentVersion_def)
  then show ?thesis by (simp add: token_json_def members_wf_norm)
qed

lemma to_string_wf: "to_string j old = Inr s \<Longrightarrow> json_wf j \<Longrightarrow> valid_utf8 old \<Longrightarrow> valid_utf8 s"
  by (auto simp: to_string_def split: json.splits)

lemma to_list_wf:
  "to_list f js = Inr xs \<Longrightarrow> elems_wf js \<Longrightarrow> (\<And>j x. json_wf j \<Longrightarrow> f j = Inr x \<Longrightarrow> Q x) \<Longrightarrow> \<forall>x \<in> set xs. Q x"
  by (induction js arbitrary: xs) (auto simp: bind_res_Inr_iff)

lemma to_slice_wf:
  "to_slice ty f j = Inr xs \<Longrightarrow> json_wf j \<Longrightarrow> (\<And>j x. json_wf j \<Longrightarrow> f j = Inr x \<Longrightarrow> Q x) \<Longrightarrow> \<forall>x \<in> set xs. Q x"
  by (cases j) (simp_all add: to_slice_def to_list_wf)

lemma store_fields_wf:
  assumes "store_fields fs put kvs s = Inr s'" "members_wf kvs" "I s"
    and "\<And>f v s s'. json_wf v \<Longrightarrow> I s \<Longrightarrow> put f v s = Inr s' \<Longrightarrow> I s'"
  shows "I s'"
  using assms(1-3)
proof (induction kvs arbitrary: s)
  case (Cons kv kvs)
  obtain k v where kv: "kv = (k, v)" by (cases kv)
  show ?case
  proof (cases "match_field fs k")
    case None
    with Cons kv show ?thesis by simp
  next
    case (Some f)
    with Cons.prems kv obtain s1 where s1: "put f v s = Inr s1" "store_fields fs put kvs s1 = Inr s'"
      by (auto simp: bind_res_Inr_iff)
    have "json_wf v" "members_wf kvs" using Cons.prems(2) kv by simp_all
    with s1 Cons.IH [OF s1(2)] assms(4) Cons.prems(3) show ?thesis by blast
  qed
qed simp

lemma recipient_put_wf:
  assumes "json_wf v" "recipient_wf r" "recipient_put f v r = Inr r'"
  shows "recipient_wf r'"
proof (cases "f = ''transport''")
  case True
  with assms show ?thesis by (auto simp: recipient_put_def recipient_wf_def)
next
  case False
  with assms(3) obtain b where "to_bytes v = Inr b"
    by (cases "to_bytes v") (simp_all add: recipient_put_def)
  with False assms(3) have "Transport r' = Transport r"
    by (simp add: recipient_put_def split: if_split_asm) (auto split: if_split_asm)
  with assms(2) show ?thesis by (simp add: recipient_wf_def)
qed

lemma recipient_wf_zero: "zero_recipient = r \<Longrightarrow> recipient_wf r"
  by (auto simp: zero_recipient_def recipient_wf_def)

lemma recipient_of_json_wf:
  assumes "recipient_of_json j = Inr r" "json_wf j"
  shows "recipient_wf r"
proof (cases j)
  case (JObj kvs)
  with assms have "store_fields recipient_fields recipient_put kvs zero_recipient = Inr r" "members_wf kvs"
    by (simp_all add: recipient_of_json_def to_struct_def)
  then show ?thesis
    by (rule store_fields_wf [where I = recipient_wf])
      (simp_all add: recipient_wf_zero recipient_put_wf)
qed (use assms in \<open>simp_all add: recipient_of_json_def to_struct_def recipient_wf_zero\<close>)

lemma machine_of_json_wf:
  assumes "machine_of_json j m = Inr m'" "json_wf j" "machine_wf m"
  shows "machine_wf m'"
proof (cases j)
  case (JObj kvs)
  with assms have "store_fields [''name'', ''transport_id''] machine_put kvs m = Inr m'" "members_wf kvs"
    by (simp_all add: machine_of_json_def to_struct_def)
  then show ?thesis using assms(3)
    by (rule store_fields_wf [where I = machine_wf])
      (auto simp: machine_wf_def machine_put_def bind_res_Inr_iff split: if_splits dest: to_string_wf)
qed (use assms in \<open>simp_all add: machine_of_json_def to_struct_def\<close>)

lemma getTokenField_wf:
  assumes "getTokenField raw k dec dst = Inr x" "members_wf raw" "Q dst"
    and "\<And>j x. json_wf j \<Longrightarrow> dec j = Inr x \<Longrightarrow> Q x"
  shows "Q x"
  using assms by (auto simp: getTokenField_def members_wf_iff split: option.splits dest!: map_of_SomeD)

lemma raw_of_json_wf: "raw_of_json j = Inr raw \<Longrightarrow> json_wf j \<Longrightarrow> members_wf raw \<and> is_map raw"
  by (cases j) (auto simp: raw_of_json_def is_map_def members_wf_norm [unfolded is_map_def]
      is_map_norm [unfolded is_map_def])

lemma unmarshalled_token_wf:
  assumes "token_UnmarshalJSON j = Inr t" "json_wf j"
  shows "token_wf t"
proof -
  let ?z = "\<lparr>mName = [], mTransportID = []\<rparr>"
  from assms(1) obtain raw slots recs mach where
    raw: "raw_of_json j = Inr raw" and
    slots: "getTokenField raw ''keyslots'' (to_slice ''[]string'' (\<lambda>v. to_string v [])) [] = Inr slots" and
    recs: "getTokenField raw ''recipients'' (to_slice ''[]mrcore.Recipient'' recipient_of_json) [] = Inr recs" and
    mach: "getTokenField raw ''machine'' (\<lambda>v. machine_of_json v ?z) ?z = Inr mach" and
    t: "t = \<lparr>Version = currentVersion, Keyslots = slots, Recipients = recs, Machine = mach,
             extra = filter (\<lambda>(k, _). k \<notin> set tokenWireFields) raw\<rparr>"
    by (auto simp: token_UnmarshalJSON_def split: sum.splits if_splits)
  from raw_of_json_wf [OF raw assms(2)] have wf: "members_wf raw" "is_map raw" by simp_all
  have "\<forall>k \<in> set slots. valid_utf8 k"
  proof (rule getTokenField_wf [OF slots wf(1), where Q = "\<lambda>xs. \<forall>k \<in> set xs. valid_utf8 k"])
    fix j xs
    assume "json_wf j" "to_slice ''[]string'' (\<lambda>v. to_string v []) j = Inr xs"
    then show "\<forall>k \<in> set xs. valid_utf8 k"
      by (intro to_slice_wf [where Q = valid_utf8]) (auto dest: to_string_wf)
  qed simp
  moreover have "\<forall>r \<in> set recs. recipient_wf r"
  proof (rule getTokenField_wf [OF recs wf(1), where Q = "\<lambda>xs. \<forall>r \<in> set xs. recipient_wf r"])
    fix j xs
    assume "json_wf j" "to_slice ''[]mrcore.Recipient'' recipient_of_json j = Inr xs"
    then show "\<forall>r \<in> set xs. recipient_wf r"
      by (intro to_slice_wf [where Q = recipient_wf]) (auto dest: recipient_of_json_wf)
  qed simp
  moreover have "machine_wf mach"
  proof (rule getTokenField_wf [OF mach wf(1), where Q = machine_wf])
    show z: "machine_wf ?z" by (simp add: machine_wf_def)
    show "machine_wf m" if "json_wf j" "machine_of_json j ?z = Inr m" for j m
      using machine_of_json_wf [OF that(2,1) z] .
  qed
  moreover have "is_map (filter (\<lambda>(k, _). k \<notin> set tokenWireFields) raw)"
    using wf(2) by (auto simp: is_map_def distinct_map intro: sorted_filter inj_on_subset)
  ultimately show ?thesis
    using wf(1) by (auto simp: t token_wf_def token_ok_def members_wf_iff)
qed

text \<open>
  C8. A token survives being written and read: when its strings are valid UTF-8, the bytes that
  \<open>MarshalJSON\<close> writes parse, and \<open>UnmarshalJSON\<close> reads the same token back from them: version,
  keyslots, recipients with their transport data, the machine, and every top-level field this build
  does not know.
\<close>

theorem token_roundtrip:
  assumes "token_wf t"
  shows "bind_res (json_parse (token_MarshalJSON t)) token_UnmarshalJSON = Inr t"
  using token_reads_back [of t] parse_print [OF token_wf_json [OF assms]] assms
  by (simp add: token_wf_def)

text \<open>
  A token of another tool is refused for what it is: when the type is not \<open>mr-1\<close> the
  error names the type, whatever the other fields hold and however broken they are.
\<close>

theorem foreign_token_refused:
  assumes "map_of (rev kvs) ''type'' = Some (JStr ty)" and "ty \<noteq> tokenType"
  shows "token_UnmarshalJSON (JObj kvs) =
    Inl (Err (''mrcore: unmarshal token: unsupported type '' @ Quote ty @ '', want '' @ Quote tokenType))"
  using assms by (simp add: token_UnmarshalJSON_def raw_of_json_def getTokenField_def)

lemma foreign_token_refused_witness:
  "token_UnmarshalJSON (JObj [(''type'', JStr ''clevis''), (''recipients'', JNum ''7'')]) =
    Inl (Err (''mrcore: unmarshal token: unsupported type '' @ Quote ''clevis'' @ '', want '' @ Quote tokenType))"
  using foreign_token_refused [of "[(''type'', JStr ''clevis''), (''recipients'', JNum ''7'')]" "''clevis''"]
  by (simp add: tokenType_def)

lemma token_roundtrip_witness:
  "bind_res (json_parse (token_MarshalJSON
    \<lparr>Version = 1, Keyslots = [''3''], Recipients = [zero_recipient],
     Machine = \<lparr>mName = ''host'', mTransportID = ''ID''\<rparr>, extra = [(''note'', JBool True)]\<rparr>)) token_UnmarshalJSON =
    Inr \<lparr>Version = 1, Keyslots = [''3''], Recipients = [zero_recipient],
     Machine = \<lparr>mName = ''host'', mTransportID = ''ID''\<rparr>, extra = [(''note'', JBool True)]\<rparr>"
  by (rule token_roundtrip)
    (simp add: token_wf_def token_ok_def currentVersion_def is_map_def tokenWireFields_def recipient_wf_def
      zero_recipient_def machine_wf_def valid_utf8_ascii is_ascii_def)

end
