(* ===== verification/LuksDump.thy ===== *)
theory LuksDump
  imports Json
begin

text \<open>
  \<open>cmd/synctang-unlocker/luksdump.go\<close>: reading the text of \<open>cryptsetup luksDump\<close>.  The
  format is \<open>dump_text\<close>: unindented lines, some of which head a section whose entries are
  indented by two blanks (\<open>  N: kind\<close>) and followed by tab-indented details.  The
  theorems say that what was printed in that format is what the parser finds.
\<close>

definition maxKeyslots :: nat where
  "maxKeyslots = 32"

abbreviation newline :: char where
  "newline \<equiv> CHR 0x0A"

abbreviation tab :: char where
  "tab \<equiv> CHR 0x09"

section \<open>The parser\<close>

fun section_lines :: "string \<Rightarrow> bool \<Rightarrow> string list \<Rightarrow> string list" where
  "section_lines heading inSection [] = []"
| "section_lines heading inSection (line # ls) =
    (if \<not> HasPrefix line '' '' \<and> \<not> HasPrefix line [tab]
     then section_lines heading (TrimSpace line = heading @ '':'') ls
     else if inSection then line # section_lines heading inSection ls
     else section_lines heading inSection ls)"

definition parseSection :: "string \<Rightarrow> string \<Rightarrow> string list" where
  "parseSection dump heading = section_lines heading False (split_on newline dump)"

fun entryIDs :: "string list \<Rightarrow> (int \<times> string) list" where
  "entryIDs [] = []"
| "entryIDs (line # ls) =
    (if HasPrefix line [tab] then entryIDs ls
     else
       (case cut_at CHR '':'' (TrimSpace line) of
          None \<Rightarrow> entryIDs ls
        | Some (idPart, rest) \<Rightarrow>
            (case Atoi (TrimSpace idPart) of
               None \<Rightarrow> entryIDs ls
             | Some n \<Rightarrow> (n, TrimSpace rest) # entryIDs ls)))"

definition usedKeyslots :: "string \<Rightarrow> int list" where
  "usedKeyslots dump = map fst (entryIDs (parseSection dump ''Keyslots''))"

definition lowestFreeKeyslot :: "string \<Rightarrow> nat res" where
  "lowestFreeKeyslot dump =
    (let used = usedKeyslots dump in
     case find (\<lambda>i. int i \<notin> set used) [0..<maxKeyslots] of
       Some i \<Rightarrow> Inr i
     | None \<Rightarrow> Inl (Err (''no free keyslot: all '' @ show_nat maxKeyslots @ '' slots are occupied'')))"

definition tokenIDsOfType :: "string \<Rightarrow> string \<Rightarrow> int list" where
  "tokenIDsOfType dump tokenType =
    map fst (filter (\<lambda>(_, rest). rest = tokenType) (entryIDs (parseSection dump ''Tokens'')))"

section \<open>The format\<close>

text \<open>An entry is its number, its kind and its detail lines.\<close>

type_synonym dump_entry = "nat \<times> string \<times> string list"

datatype dump_item = Plain string | Section string "dump_entry list"

definition entry_lines :: "dump_entry \<Rightarrow> string list" where
  "entry_lines e =
    (case e of (n, kind, details) \<Rightarrow>
      (''  '' @ show_nat n @ '': '' @ kind) # map ((#) tab) details)"

fun item_lines :: "dump_item \<Rightarrow> string list" where
  "item_lines (Plain l) = [l]"
| "item_lines (Section h es) = (h @ '':'') # concat (map entry_lines es)"

definition dump_text :: "dump_item list \<Rightarrow> string" where
  "dump_text items = join_with [newline] (concat (map item_lines items))"

definition word_ok :: "string \<Rightarrow> bool" where
  "word_ok s \<longleftrightarrow> s \<noteq> [] \<and> printable (hd s) \<and> printable (last s) \<and> newline \<notin> set s"

definition entry_ok :: "dump_entry \<Rightarrow> bool" where
  "entry_ok e =
    (case e of (n, kind, details) \<Rightarrow>
      n < 2 ^ 63 \<and> word_ok kind \<and> (\<forall>d \<in> set details. newline \<notin> set d))"

text \<open>A plain line is not indented and is not the heading that is looked for.\<close>

fun item_ok :: "string \<Rightarrow> dump_item \<Rightarrow> bool" where
  "item_ok h (Plain l) =
    (newline \<notin> set l \<and> \<not> HasPrefix l '' '' \<and> \<not> HasPrefix l [tab] \<and> TrimSpace l \<noteq> h @ '':'')"
| "item_ok h (Section h' es) = (word_ok h' \<and> (\<forall>e \<in> set es. entry_ok e))"

fun entries_under :: "string \<Rightarrow> dump_item \<Rightarrow> (int \<times> string) list" where
  "entries_under h (Plain l) = []"
| "entries_under h (Section h' es) =
    (if h' = h then map (\<lambda>(n, kind, _). (int n, kind)) es else [])"

definition dump_entries :: "string \<Rightarrow> dump_item list \<Rightarrow> (int \<times> string) list" where
  "dump_entries h items = concat (map (entries_under h) items)"

section \<open>What the parser finds\<close>

lemma printable_not_blank: "printable c \<Longrightarrow> c \<noteq> CHR 0x20 \<and> c \<noteq> tab \<and> c \<noteq> newline"
  by (auto simp: printable_def)

lemma show_nat_facts:
  "printable (hd (show_nat n))" "printable (last (show_nat n))"
  "CHR '':'' \<notin> set (show_nat n)" "newline \<notin> set (show_nat n)"
proof -
  have d: "\<exists>d < 10. c = digit d" if "c \<in> set (show_nat n)" for c
    using show_nat_digits [of n] that by auto
  have "digit_val c \<noteq> None" if "c \<in> set (show_nat n)" for c using d [OF that] by auto
  then show "CHR '':'' \<notin> set (show_nat n)" "newline \<notin> set (show_nat n)"
    by (force simp: digit_val_def)+
  show "printable (hd (show_nat n))" "printable (last (show_nat n))"
    using printable_show_nat [of n] by (auto simp: list_all_iff)
qed

lemma entry_line_parse:
  assumes "entry_ok (n, kind, details)"
  shows "entryIDs ((''  '' @ show_nat n @ '': '' @ kind) # ls) = (int n, kind) # entryIDs ls"
proof -
  have k: "kind \<noteq> []" "printable (hd kind)" "printable (last kind)" "n < 2 ^ 63"
    using assms by (auto simp: entry_ok_def word_ok_def)
  have trim: "TrimSpace (''  '' @ show_nat n @ '': '' @ kind) = show_nat n @ '': '' @ kind"
    using TrimSpace_blanks [of "show_nat n @ '': '' @ kind" 2] k show_nat_facts [of n]
    by (simp add: numeral_2_eq_2)
  have cut: "cut_at CHR '':'' (show_nat n @ '': '' @ kind) = Some (show_nat n, '' '' @ kind)"
    using cut_at_append [OF show_nat_facts(3) [of n], of "'' '' @ kind"] by simp
  have id: "TrimSpace (show_nat n) = show_nat n"
    by (intro TrimSpace_printable) (simp_all add: show_nat_facts)
  have rest: "TrimSpace ('' '' @ kind) = kind"
    using TrimSpace_blanks [of kind 1] k by simp
  show ?thesis
    unfolding entryIDs.simps trim cut option.case prod.case id rest
    using k(4) by (simp add: Atoi_show_nat del: append.simps) simp
qed

lemma detail_lines_skip: "entryIDs (map ((#) tab) details @ ls) = entryIDs ls"
  by (induction details) simp_all

lemma entries_parse:
  "\<forall>e \<in> set es. entry_ok e \<Longrightarrow>
    entryIDs (concat (map entry_lines es) @ ls) = map (\<lambda>(n, kind, _). (int n, kind)) es @ entryIDs ls"
proof (induction es)
  case (Cons e es)
  obtain n kind details where e: "e = (n, kind, details)" by (cases e)
  have lines: "entry_lines e @ rest =
      (''  '' @ show_nat n @ '': '' @ kind) # (map ((#) tab) details @ rest)" for rest
    by (simp add: e entry_lines_def)
  have ok: "entry_ok (n, kind, details)" using Cons.prems e by simp
  have "entryIDs (entry_lines e @ rest) = (int n, kind) # entryIDs rest" for rest
    by (simp only: lines entry_line_parse [OF ok] detail_lines_skip)
  with Cons show ?case by (simp add: e)
qed simp

text \<open>Entry and detail lines are all indented, so they are kept or dropped together.\<close>

definition indented :: "string \<Rightarrow> bool" where
  "indented l \<longleftrightarrow> HasPrefix l '' '' \<or> HasPrefix l [tab]"

lemma section_lines_indented:
  "list_all indented ls \<Longrightarrow>
    section_lines h b (ls @ rest) = (if b then ls else []) @ section_lines h b rest"
  by (induction ls) (auto simp: indented_def)

lemma entry_lines_indented: "list_all indented (concat (map entry_lines es))"
  by (induction es) (auto simp: entry_lines_def indented_def list_all_iff)

lemma section_lines_items:
  "\<forall>i \<in> set items. item_ok h i \<Longrightarrow>
    entryIDs (section_lines h b (concat (map item_lines items))) = dump_entries h items"
proof (induction items arbitrary: b)
  case Nil
  then show ?case by (simp add: dump_entries_def)
next
  case (Cons i items)
  show ?case
  proof (cases i)
    case (Plain l)
    with Cons show ?thesis by (simp add: dump_entries_def)
  next
    case (Section h' es)
    with Cons.prems have ok: "word_ok h'" "\<forall>e \<in> set es. entry_ok e" by simp_all
    then obtain c r where h': "h' = c # r" "printable c" by (cases h') (auto simp: word_ok_def)
    then have head: "\<not> indented (h' @ '':'')"
      using printable_not_blank [of c] by (auto simp: indented_def)
    have trim: "TrimSpace (h' @ '':'') = h' @ '':''"
      using h' by (intro TrimSpace_printable) (simp_all add: printable_def)
    show ?thesis
      using Section Cons ok head trim
      by (simp add: indented_def section_lines_indented entry_lines_indented entries_parse
          dump_entries_def)
  qed
qed

lemma item_lines_no_newline: "item_ok h i \<Longrightarrow> l \<in> set (item_lines i) \<Longrightarrow> newline \<notin> set l"
  by (cases i) (auto simp: entry_lines_def entry_ok_def word_ok_def show_nat_facts)

lemma dump_parses:
  assumes "items \<noteq> []" and "\<forall>i \<in> set items. item_ok h i"
  shows "entryIDs (parseSection (dump_text items) h) = dump_entries h items"
proof -
  have "concat (map item_lines items) \<noteq> []"
    using assms(1) by (cases items) (auto, metis item_lines.elims list.discI)
  then have "split_on newline (dump_text items) = concat (map item_lines items)"
    unfolding dump_text_def using assms(2)
    by (intro split_on_join) (auto dest: item_lines_no_newline)
  with section_lines_items [OF assms(2)] show ?thesis
    by (simp add: parseSection_def)
qed

text \<open>
  C9. What \<open>luksDump\<close> prints under a heading is what the parser returns for it: the entries of
  every section with that heading, in order, and nothing from other sections, plain lines or
  detail lines.
\<close>

theorem parse_dump_text:
  assumes "items \<noteq> []" and "\<forall>i \<in> set items. item_ok h i"
  shows "entryIDs (parseSection (dump_text items) h) = dump_entries h items"
  using assms by (rule dump_parses)

lemma lowest_free:
  "case lowestFreeKeyslot dump of
     Inr i \<Rightarrow> i < maxKeyslots \<and> int i \<notin> set (usedKeyslots dump) \<and>
       {int j | j. j < i} \<subseteq> set (usedKeyslots dump)
   | Inl _ \<Rightarrow> {int j | j. j < maxKeyslots} \<subseteq> set (usedKeyslots dump)"
proof (cases "find (\<lambda>i. int i \<notin> set (usedKeyslots dump)) [0..<maxKeyslots]")
  case None
  then have "\<forall>j < maxKeyslots. int j \<in> set (usedKeyslots dump)" by (auto simp: find_None_all)
  with None show ?thesis by (auto simp: lowestFreeKeyslot_def Let_def)
next
  case (Some i)
  then obtain k where k: "k < maxKeyslots" "int k \<notin> set (usedKeyslots dump)" "i = k"
      "\<forall>j < k. int j \<in> set (usedKeyslots dump)"
    by (auto simp: find_Some_iff)
  with Some show ?thesis by (auto simp: lowestFreeKeyslot_def Let_def)
qed

text \<open>
  The keyslot an enrolment takes is free and the lowest free one, below the LUKS2 limit; and
  it is refused only when all 32 are occupied.
\<close>

theorem lowestFreeKeyslot_correct:
  "case lowestFreeKeyslot dump of
     Inr i \<Rightarrow> i < maxKeyslots \<and> int i \<notin> set (usedKeyslots dump) \<and>
       {int j | j. j < i} \<subseteq> set (usedKeyslots dump)
   | Inl _ \<Rightarrow> {int j | j. j < maxKeyslots} \<subseteq> set (usedKeyslots dump)"
  by (rule lowest_free)

lemma parse_dump_text_witness:
  "entryIDs (parseSection (dump_text
     [Plain ''LUKS header information'', Plain [],
      Section ''Keyslots'' [(0, ''luks2'', [''Key: 512 bits'']), (2, ''luks2'', [])],
      Section ''Tokens'' [(5, ''mr-1'', [''Keyslot: 2''])]]) ''Keyslots'') =
    [(0, ''luks2''), (2, ''luks2'')]"
proof -
  let ?items = "[Plain ''LUKS header information'', Plain [],
      Section ''Keyslots'' [(0, ''luks2'', [''Key: 512 bits'']), (2, ''luks2'', [])],
      Section ''Tokens'' [(5, ''mr-1'', [''Keyslot: 2''])]]"
  have "TrimSpace ''LUKS header information'' = ''LUKS header information''"
    by (intro TrimSpace_printable) (simp_all add: printable_def)
  moreover have "TrimSpace [] = []"
    by (intro TrimSpace_id) (simp_all add: ws_prefix_def ws_suffix_def ws_encodings_def)
  ultimately have "\<forall>i \<in> set ?items. item_ok ''Keyslots'' i"
    by (simp add: entry_ok_def word_ok_def printable_def)
  from parse_dump_text [OF _ this] show ?thesis
    by (simp add: dump_entries_def)
qed

end
