(* ===== verification/Enrolment.thy ===== *)
theory Enrolment
  imports Token LuksDump
begin

text \<open>
  \<open>cmd/synctang-unlocker/enrol.go\<close>, \<open>transportid.go\<close> and the key material of
  \<open>cryptsetup.go\<close>: adding, removing and rotating key holders on a LUKS2 header.  The program
  \<open>cryptsetup\<close> is the parameter \<open>'h cryptsetup\<close>, one field per command line the code
  runs, over a header of some type \<open>'h\<close>; a command that fails returns an error and a header.
  The theorems relate what the code does to two views of the header: its keyslots (the key
  each was added with) and its tokens.
\<close>

section \<open>The world the commands run in\<close>

text \<open>
  \<open>luksDump\<close>; \<open>luksAddKey --key-file --new-keyfile --new-key-slot\<close>; \<open>luksKillSlot\<close>;
  \<open>token export\<close> (which may fail once and then work, so it is told which attempt it is);
  \<open>token remove\<close>; \<open>token import\<close>, with or without an id; \<open>open --test-passphrase\<close>.
\<close>

record 'h cryptsetup =
  luksDump :: "'h \<Rightarrow> string res"
  luksAddKey :: "bytes \<Rightarrow> bytes \<Rightarrow> nat \<Rightarrow> 'h \<Rightarrow> unit res \<times> 'h"
  luksKillSlot :: "bytes \<Rightarrow> string \<Rightarrow> 'h \<Rightarrow> unit res \<times> 'h"
  tokenExport :: "int \<Rightarrow> nat \<Rightarrow> 'h \<Rightarrow> string res"
  tokenRemove :: "int \<Rightarrow> 'h \<Rightarrow> unit res \<times> 'h"
  tokenImport :: "int option \<Rightarrow> string \<Rightarrow> 'h \<Rightarrow> unit res \<times> 'h"
  testPassphrase :: "bytes \<Rightarrow> 'h \<Rightarrow> unit res"

text \<open>
  What the unlocker is built on: cryptsetup, the cryptographic primitives, the group, and
  syncthing's \<open>protocol.DeviceIDFromString\<close> followed by \<open>String\<close>.
\<close>

record 'h unlocker =
  cs :: "'h cryptsetup"
  cr :: crypto
  gr :: group_ops
  DeviceIDFromString :: "string \<Rightarrow> string res"

section \<open>Device identifiers\<close>

definition canonicalDeviceID :: "'h unlocker \<Rightarrow> string \<Rightarrow> string res" where
  "canonicalDeviceID U s =
    (let trimmed = TrimSpace s in
     if trimmed = [] then Inl (Err ''an empty string is not a Device ID'')
     else
       (case DeviceIDFromString U trimmed of
          Inl e \<Rightarrow> Inl (Wrap (s @ '' is not a Device ID: '') e [])
        | Inr canonical \<Rightarrow> Inr canonical))"

definition canonicalOrRaw :: "'h unlocker \<Rightarrow> string \<Rightarrow> string" where
  "canonicalOrRaw U s = (case canonicalDeviceID U s of Inr c \<Rightarrow> c | Inl _ \<Rightarrow> s)"

definition recipientTransportBlob :: "'h unlocker \<Rightarrow> string \<Rightarrow> json res" where
  "recipientTransportBlob U deviceID =
    (case canonicalDeviceID U deviceID of
       Inl e \<Rightarrow> Inl e
     | Inr d \<Rightarrow> Inr (JObj [(''device_id'', JStr d)]))"

section \<open>Key material and names\<close>

definition luksKeyMaterial :: "bytes \<Rightarrow> bytes" where
  "luksKeyMaterial p = bytes_of (hex_EncodeToString p)"

definition shortKid :: "bytes \<Rightarrow> string" where
  "shortKid kid =
    (let s = hex_EncodeToString kid in if length s \<le> 8 then s else take 8 s @ ''...'')"

definition mrTokenType :: string where
  "mrTokenType = ''mr-1''"

definition keyslotOf :: "token \<Rightarrow> nat \<Rightarrow> string" where
  "keyslotOf tok idx = (if idx < length (Keyslots tok) then Keyslots tok ! idx else ''?'')"

definition recipientsByTransportID :: "'h unlocker \<Rightarrow> token \<Rightarrow> string \<Rightarrow> nat list" where
  "recipientsByTransportID U tok want_id =
    (let want = canonicalOrRaw U want_id in
     filter (\<lambda>i. case TransportDeviceID (Recipients tok ! i) of
                   Some got \<Rightarrow> canonicalOrRaw U got = want | None \<Rightarrow> False)
       [0..<length (Recipients tok)])"

definition describeRecipients :: "token \<Rightarrow> nat list \<Rightarrow> string" where
  "describeRecipients tok idxs =
    join_with '', '' (map (\<lambda>i. ''keyslot '' @ keyslotOf tok i @ '' (key '' @
      shortKid (Kid (Recipients tok ! i)) @ '')'') idxs)"

section \<open>Reading the token\<close>

definition tokenReadAttempts :: nat where
  "tokenReadAttempts = 4"

text \<open>Attempts \<open>n\<close> up to the limit, until one succeeds; the last error is returned.\<close>

fun exportToken :: "'h cryptsetup \<Rightarrow> int \<Rightarrow> 'h \<Rightarrow> nat \<Rightarrow> nat \<Rightarrow> string res" where
  "exportToken C tid h n 0 = tokenExport C tid n h"
| "exportToken C tid h n (Suc left) =
    (case tokenExport C tid n h of
       Inr text \<Rightarrow> Inr text
     | Inl _ \<Rightarrow> exportToken C tid h (Suc n) left)"

definition loadToken ::
    "'h unlocker \<Rightarrow> 'h \<Rightarrow> string \<Rightarrow> string \<Rightarrow> string \<Rightarrow> (token \<times> int) res" where
  "loadToken U h dump machineName transportID =
    (case tokenIDsOfType dump mrTokenType of
       [] \<Rightarrow>
         Inr (\<lparr>Version = 1, Keyslots = [], Recipients = [],
               Machine = \<lparr>mName = machineName, mTransportID = transportID\<rparr>, extra = []\<rparr>, -1)
     | tid # _ \<Rightarrow>
         (case exportToken (cs U) tid h 1 (tokenReadAttempts - 1) of
            Inl e \<Rightarrow> Inl (wrap ''reading the existing token'' e)
          | Inr exported \<Rightarrow>
              (case bind_res (json_parse exported) token_UnmarshalJSON of
                 Inl e \<Rightarrow> Inl (wrap ''decoding the existing token'' e)
               | Inr tok \<Rightarrow> Inr (tok, tid))))"

definition loadEnrolledToken :: "'h unlocker \<Rightarrow> string \<Rightarrow> 'h \<Rightarrow> (token \<times> int) res" where
  "loadEnrolledToken U device h =
    (case luksDump (cs U) h of
       Inl e \<Rightarrow> Inl (wrap ''reading LUKS header'' e)
     | Inr dump \<Rightarrow>
    (case loadToken U h dump [] [] of
       Inl e \<Rightarrow> Inl e
     | Inr (tok, existingTokenID) \<Rightarrow>
         if existingTokenID < 0 then Inl (Err (device @ '' has no enrolled mr-1 recipients''))
         else if length (Keyslots tok) \<noteq> length (Recipients tok)
         then Inl (Err (''token integrity check failed: '' @ show_nat (length (Keyslots tok)) @
                '' keyslots for '' @ show_nat (length (Recipients tok)) @
                '' recipients, refusing to guess which is which''))
         else Inr (tok, existingTokenID)))"

section \<open>Adding a key holder\<close>

text \<open>Writing the token: the old version is removed, the new one imported under its id.\<close>

definition writeToken :: "'h unlocker \<Rightarrow> token \<Rightarrow> int \<Rightarrow> 'h \<Rightarrow> unit res \<times> 'h" where
  "writeToken U tok existingTokenID h =
    (let tokenJSON = token_MarshalJSON tok in
     if existingTokenID \<ge> 0 then
       (case tokenRemove (cs U) existingTokenID h of
          (Inl e, h1) \<Rightarrow> (Inl (wrap ''removing the previous token version'' e), h1)
        | (Inr _, h1) \<Rightarrow>
            (case tokenImport (cs U) (Some existingTokenID) tokenJSON h1 of
               (Inl e, h2) \<Rightarrow> (Inl (wrap ''writing token'' e), h2)
             | (Inr _, h2) \<Rightarrow> (Inr (), h2)))
     else
       (case tokenImport (cs U) None tokenJSON h of
          (Inl e, h2) \<Rightarrow> (Inl (wrap ''writing token'' e), h2)
        | (Inr _, h2) \<Rightarrow> (Inr (), h2)))"

definition enrolRecipient ::
    "'h unlocker \<Rightarrow> bytes \<Rightarrow> bytes \<Rightarrow> string \<Rightarrow> string \<Rightarrow> string \<Rightarrow> 'h \<Rightarrow> bytes \<Rightarrow>
      unit res \<times> 'h \<times> bytes" where
  "enrolRecipient U existingPassphrase recipientPublicKey machineName transportID
      recipientTransportID h rng =
    (case luksDump (cs U) h of
       Inl e \<Rightarrow> (Inl (wrap ''reading LUKS header'' e), h, rng)
     | Inr dump \<Rightarrow>
    (case loadToken U h dump machineName transportID of
       Inl e \<Rightarrow> (Inl e, h, rng)
     | Inr (tok, existingTokenID) \<Rightarrow>
    (case lowestFreeKeyslot dump of
       Inl e \<Rightarrow> (Inl (wrap ''choosing a keyslot'' e), h, rng)
     | Inr slot \<Rightarrow>
    (case Enrol (gr U) (cr U) recipientPublicKey rng of
       Inl e \<Rightarrow> (Inl (wrap ''mrcore enrol'' e), h, rng)
     | Inr (P, rec, rng') \<Rightarrow>
    (case (if recipientTransportID \<noteq> [] then
             (case recipientTransportBlob U recipientTransportID of
                Inl e \<Rightarrow> Inl (wrap ''--recipient-transport-id'' e)
              | Inr blob \<Rightarrow> Inr (rec\<lparr>Transport := Some blob\<rparr>))
           else Inr rec) of
       Inl e \<Rightarrow> (Inl e, h, rng')
     | Inr rec' \<Rightarrow>
    (case luksAddKey (cs U) existingPassphrase (luksKeyMaterial P) slot h of
       (Inl e, h1) \<Rightarrow> (Inl (wrap ''adding keyslot'' e), h1, rng')
     | (Inr _, h1) \<Rightarrow>
         (case writeToken U
                (tok\<lparr>Keyslots := Keyslots tok @ [show_nat slot],
                     Recipients := Recipients tok @ [rec']\<rparr>) existingTokenID h1 of
            (r, h2) \<Rightarrow> (r, h2, rng'))))))))"

record existing_recipient =
  exKeyslot :: string
  exKid :: bytes

datatype enrol_plan = PlanAdd | PlanAlready existing_recipient | PlanReplace existing_recipient

definition planEnrolment :: "'h unlocker \<Rightarrow> bytes \<Rightarrow> string \<Rightarrow> 'h \<Rightarrow> enrol_plan res" where
  "planEnrolment U publicKey transportID h =
    (case luksDump (cs U) h of
       Inl e \<Rightarrow> Inl (wrap ''reading LUKS header'' e)
     | Inr dump \<Rightarrow>
    (case loadToken U h dump [] [] of
       Inl e \<Rightarrow> Inl e
     | Inr (tok, tokenID) \<Rightarrow>
         if tokenID < 0 then Inr PlanAdd
         else
           (let idxs = recipientsByTransportID U tok transportID in
            case idxs of
              [] \<Rightarrow> Inr PlanAdd
            | [i] \<Rightarrow>
                (let existing = \<lparr>exKeyslot = keyslotOf tok i, exKid = Kid (Recipients tok ! i)\<rparr> in
                 if exKid existing = sha256Sum (cr U) publicKey then Inr (PlanAlready existing)
                 else Inr (PlanReplace existing))
            | _ \<Rightarrow> Inl (Err (''transport id '' @ transportID @ '' is enrolled more than once ('' @
                describeRecipients tok idxs @ '')'')))))"

record enrol_outcome =
  oAlready :: bool
  oKeyslot :: string

definition enrolOnce ::
    "'h unlocker \<Rightarrow> bytes \<Rightarrow> bytes \<Rightarrow> string \<Rightarrow> string \<Rightarrow> string \<Rightarrow> 'h \<Rightarrow> bytes \<Rightarrow>
      enrol_outcome res \<times> 'h \<times> bytes" where
  "enrolOnce U existingPassphrase recipientPublicKey machineName transportID
      recipientTransportID h rng =
    (let add = (case enrolRecipient U existingPassphrase recipientPublicKey machineName
                      transportID recipientTransportID h rng of
                  (Inl e, h', rng') \<Rightarrow> (Inl e, h', rng')
                | (Inr _, h', rng') \<Rightarrow> (Inr \<lparr>oAlready = False, oKeyslot = []\<rparr>, h', rng')) in
     if recipientTransportID \<noteq> [] then
       (case planEnrolment U recipientPublicKey recipientTransportID h of
          Inl e \<Rightarrow> (Inl e, h, rng)
        | Inr (PlanAlready ex) \<Rightarrow> (Inr \<lparr>oAlready = True, oKeyslot = exKeyslot ex\<rparr>, h, rng)
        | Inr (PlanReplace ex) \<Rightarrow>
            (Inl (Err (''transport id '' @ recipientTransportID @
              '' is already enrolled with a different key (keyslot '' @ exKeyslot ex @
              '', key '' @ shortKid (exKid ex) @ '')'')), h, rng)
        | Inr PlanAdd \<Rightarrow> add)
     else add)"

section \<open>Removing and rotating\<close>

definition selectRecipient :: "'h unlocker \<Rightarrow> token \<Rightarrow> string \<Rightarrow> string \<Rightarrow> nat res" where
  "selectRecipient U tok recipientTransportID keyslot =
    (let idxs = recipientsByTransportID U tok recipientTransportID in
     if idxs = [] then Inl (Err (''no enrolled recipient with transport id '' @ recipientTransportID))
     else if keyslot \<noteq> [] then
       (case find (\<lambda>i. keyslotOf tok i = keyslot) idxs of
          Some i \<Rightarrow> Inr i
        | None \<Rightarrow> Inl (Err (''keyslot '' @ keyslot @ '' holds no entry for transport id '' @
            recipientTransportID @ '' (it has: '' @ describeRecipients tok idxs @ '')'')))
     else if length idxs > 1 then
       Inl (Err (''transport id '' @ recipientTransportID @ '' is enrolled more than once ('' @
         describeRecipients tok idxs @ ''), so it cannot tell which you mean; name one with --keyslot <n>''))
     else Inr (idxs ! 0))"

definition remove_at :: "nat \<Rightarrow> 'a list \<Rightarrow> 'a list" where
  "remove_at i xs = take i xs @ drop (Suc i) xs"

definition removeRecipientAt ::
    "'h unlocker \<Rightarrow> bytes \<Rightarrow> token \<Rightarrow> int \<Rightarrow> nat \<Rightarrow> 'h \<Rightarrow> unit res \<times> 'h" where
  "removeRecipientAt U existingPassphrase tok tokenID idx h =
    (let keyslot = Keyslots tok ! idx in
     case luksKillSlot (cs U) existingPassphrase keyslot h of
       (Inl e, h1) \<Rightarrow> (Inl (wrap (''destroying keyslot '' @ keyslot) e), h1)
     | (Inr _, h1) \<Rightarrow>
         (let tokenJSON = token_MarshalJSON
                (tok\<lparr>Keyslots := remove_at idx (Keyslots tok),
                     Recipients := remove_at idx (Recipients tok)\<rparr>) in
          case tokenRemove (cs U) tokenID h1 of
            (Inl e, h2) \<Rightarrow> (Inl (wrap ''removing the previous token version'' e), h2)
          | (Inr _, h2) \<Rightarrow>
              (case tokenImport (cs U) (Some tokenID) tokenJSON h2 of
                 (Inl e, h3) \<Rightarrow> (Inl (wrap ''writing token'' e), h3)
               | (Inr _, h3) \<Rightarrow> (Inr (), h3))))"

definition removeRecipient ::
    "'h unlocker \<Rightarrow> string \<Rightarrow> bytes \<Rightarrow> string \<Rightarrow> string \<Rightarrow> 'h \<Rightarrow> unit res \<times> 'h" where
  "removeRecipient U device existingPassphrase recipientTransportID keyslot h =
    (case loadEnrolledToken U device h of
       Inl e \<Rightarrow> (Inl e, h)
     | Inr (tok, existingTokenID) \<Rightarrow>
    (case selectRecipient U tok recipientTransportID keyslot of
       Inl e \<Rightarrow> (Inl e, h)
     | Inr idx \<Rightarrow> removeRecipientAt U existingPassphrase tok existingTokenID idx h))"

text \<open>\<open>slices.Index\<close>.\<close>

definition slice_index :: "'a list \<Rightarrow> 'a \<Rightarrow> nat option" where
  "slice_index xs x = find (\<lambda>i. xs ! i = x) [0..<length xs]"

definition replaceRecipient ::
    "'h unlocker \<Rightarrow> string \<Rightarrow> bytes \<Rightarrow> bytes \<Rightarrow> string \<Rightarrow> string \<Rightarrow> string \<Rightarrow> 'h \<Rightarrow> bytes \<Rightarrow>
      unit res \<times> 'h \<times> bytes" where
  "replaceRecipient U device existingPassphrase newPublicKey oldTID newTID keyslot h rng =
    (case loadEnrolledToken U device h of
       Inl e \<Rightarrow> (Inl e, h, rng)
     | Inr (tok, _) \<Rightarrow>
    (case selectRecipient U tok oldTID keyslot of
       Inl e \<Rightarrow> (Inl e, h, rng)
     | Inr idx \<Rightarrow>
    (let oldKeyslot = Keyslots tok ! idx in
     case enrolRecipient U existingPassphrase newPublicKey [] [] newTID h rng of
       (Inl e, h1, rng') \<Rightarrow>
         (Inl (wrap ''enrolling the replacement key (nothing was revoked, the old key still works)'' e),
          h1, rng')
     | (Inr _, h1, rng') \<Rightarrow>
    (case loadEnrolledToken U device h1 of
       Inl e \<Rightarrow> (Inl (wrap ''re-reading the token after enrolling the replacement key'' e), h1, rng')
     | Inr (tok1, tokenID) \<Rightarrow>
    (case slice_index (Keyslots tok1) oldKeyslot of
       None \<Rightarrow> (Inl (Err (''the replacement key is enrolled, but keyslot '' @ oldKeyslot @
         '' (the old key) is no longer in the token, so it was not revoked'')), h1, rng')
     | Some idx1 \<Rightarrow>
    (case removeRecipientAt U existingPassphrase tok1 tokenID idx1 h1 of
       (Inl e, h2) \<Rightarrow>
         (Inl (wrap (''the replacement key is enrolled and works, but revoking the old key in keyslot '' @
            oldKeyslot @ '' failed, so '' @ device @ '' can currently be opened by either key'') e),
          h2, rng')
     | (Inr _, h2) \<Rightarrow> (Inr (), h2, rng')))))))"

definition verifyPassphrase :: "'h unlocker \<Rightarrow> 'h \<Rightarrow> bytes \<Rightarrow> unit res" where
  "verifyPassphrase U h p = testPassphrase (cs U) p h"

section \<open>What cryptsetup is relied on for\<close>

definition token_type :: "json \<Rightarrow> string" where
  "token_type j =
    (case j of JObj kvs \<Rightarrow> (case map_of (rev kvs) ''type'' of Some (JStr s) \<Rightarrow> s | _ \<Rightarrow> []) | _ \<Rightarrow> [])"

text \<open>
  \<open>keys h n\<close> is the key keyslot n was added with, \<open>toks h n\<close> the token n.  cryptsetup
  documents: the dump lists the keyslots and the tokens with their types; an export is the
  token's JSON; a keyslot is added under an existing key into a free slot; killing a keyslot
  removes it and also its number from the \<open>keyslots\<close> of tokens that name it, so of those only
  presence and type are promised; tokens are removed and imported by id; a command that fails
  changes nothing; a passphrase passes the test exactly when some keyslot has it.
\<close>

type_synonym 'h slots_view = "'h \<Rightarrow> nat \<rightharpoonup> bytes"
type_synonym 'h tokens_view = "'h \<Rightarrow> nat \<rightharpoonup> json"

definition shows_header :: "'h slots_view \<Rightarrow> 'h tokens_view \<Rightarrow> 'h \<Rightarrow> dump_item list \<Rightarrow> bool" where
  "shows_header keys toks h items \<longleftrightarrow>
    items \<noteq> [] \<and> (\<forall>i \<in> set items. item_ok ''Keyslots'' i) \<and> (\<forall>i \<in> set items. item_ok ''Tokens'' i) \<and>
    fst ` set (dump_entries ''Keyslots'' items) = int ` dom (keys h) \<and>
    set (dump_entries ''Tokens'' items) = {(int n, token_type j) | n j. toks h n = Some j}"

definition dump_law :: "'h cryptsetup \<Rightarrow> 'h slots_view \<Rightarrow> 'h tokens_view \<Rightarrow> bool" where
  "dump_law C keys toks \<longleftrightarrow> (\<forall>h d. luksDump C h = Inr d \<longrightarrow>
    (\<exists>items. d = dump_text items \<and> shows_header keys toks h items))"

definition header_law :: "'h slots_view \<Rightarrow> 'h tokens_view \<Rightarrow> bool" where
  "header_law keys toks \<longleftrightarrow>
    (\<forall>h n. keys h n \<noteq> None \<longrightarrow> n < maxKeyslots) \<and> (\<forall>h n j. toks h n = Some j \<longrightarrow> json_wf j)"

definition export_law :: "'h cryptsetup \<Rightarrow> 'h tokens_view \<Rightarrow> bool" where
  "export_law C toks \<longleftrightarrow> (\<forall>i k h text. tokenExport C i k h = Inr text \<longrightarrow>
    (\<exists>n j. i = int n \<and> toks h n = Some j \<and> json_parse text = Inr j))"

definition add_law :: "'h cryptsetup \<Rightarrow> 'h slots_view \<Rightarrow> 'h tokens_view \<Rightarrow> bool" where
  "add_law C keys toks \<longleftrightarrow> (\<forall>p new slot h h'. luksAddKey C p new slot h = (Inr (), h') \<longrightarrow>
    p \<in> ran (keys h) \<and> keys h slot = None \<and> keys h' = (keys h)(slot \<mapsto> new) \<and> toks h' = toks h)"

definition kill_law :: "'h cryptsetup \<Rightarrow> 'h slots_view \<Rightarrow> 'h tokens_view \<Rightarrow> bool" where
  "kill_law C keys toks \<longleftrightarrow> (\<forall>p s h h'. luksKillSlot C p s h = (Inr (), h') \<longrightarrow>
    (\<exists>n. Atoi s = Some (int n) \<and> keys h n \<noteq> None \<and> keys h' = (keys h)(n := None)) \<and>
    (\<forall>n. map_option token_type (toks h' n) = map_option token_type (toks h n)))"

definition remove_law :: "'h cryptsetup \<Rightarrow> 'h slots_view \<Rightarrow> 'h tokens_view \<Rightarrow> bool" where
  "remove_law C keys toks \<longleftrightarrow> (\<forall>i h h'. tokenRemove C i h = (Inr (), h') \<longrightarrow>
    keys h' = keys h \<and> (\<exists>n. i = int n \<and> toks h' = (toks h)(n := None)))"

definition import_law :: "'h cryptsetup \<Rightarrow> 'h slots_view \<Rightarrow> 'h tokens_view \<Rightarrow> bool" where
  "import_law C keys toks \<longleftrightarrow> (\<forall>i text h h'. tokenImport C i text h = (Inr (), h') \<longrightarrow>
    keys h' = keys h \<and>
    (\<exists>n j. (i = None \<or> i = Some (int n)) \<and> toks h n = None \<and> json_parse text = Inr j \<and>
      toks h' = (toks h)(n \<mapsto> j)))"

definition same_header :: "'h slots_view \<Rightarrow> 'h tokens_view \<Rightarrow> 'h \<Rightarrow> 'h \<Rightarrow> bool" where
  "same_header keys toks h h' \<longleftrightarrow> keys h' = keys h \<and> toks h' = toks h"

definition fail_law :: "'h cryptsetup \<Rightarrow> 'h slots_view \<Rightarrow> 'h tokens_view \<Rightarrow> bool" where
  "fail_law C keys toks \<longleftrightarrow>
    (\<forall>p new slot h e h'. luksAddKey C p new slot h = (Inl e, h') \<longrightarrow> same_header keys toks h h') \<and>
    (\<forall>p s h e h'. luksKillSlot C p s h = (Inl e, h') \<longrightarrow> same_header keys toks h h') \<and>
    (\<forall>i h e h'. tokenRemove C i h = (Inl e, h') \<longrightarrow> same_header keys toks h h') \<and>
    (\<forall>i text h e h'. tokenImport C i text h = (Inl e, h') \<longrightarrow> same_header keys toks h h')"

definition test_law :: "'h cryptsetup \<Rightarrow> 'h slots_view \<Rightarrow> bool" where
  "test_law C keys \<longleftrightarrow> (\<forall>p h. testPassphrase C p h = Inr () \<longleftrightarrow> p \<in> ran (keys h))"

definition cryptsetup_ok :: "'h cryptsetup \<Rightarrow> 'h slots_view \<Rightarrow> 'h tokens_view \<Rightarrow> bool" where
  "cryptsetup_ok C keys toks \<longleftrightarrow>
    dump_law C keys toks \<and> header_law keys toks \<and> export_law C toks \<and> add_law C keys toks \<and>
    kill_law C keys toks \<and> remove_law C keys toks \<and> import_law C keys toks \<and>
    fail_law C keys toks \<and> test_law C keys"

text \<open>A device identifier's canonical form is ASCII, not empty, and its own canonical form.\<close>

definition devid_ok :: "'h unlocker \<Rightarrow> bool" where
  "devid_ok U \<longleftrightarrow>
    (\<forall>s c. DeviceIDFromString U s = Inr c \<longrightarrow>
      is_ascii c \<and> c \<noteq> [] \<and> TrimSpace c = c \<and> DeviceIDFromString U c = Inr c)"

lemma cryptsetup_okD:
  assumes "cryptsetup_ok C keys toks"
  shows cs_dump: "luksDump C h = Inr d \<Longrightarrow>
      \<exists>items. d = dump_text items \<and> shows_header keys toks h items"
    and cs_slots: "keys h n \<noteq> None \<Longrightarrow> n < maxKeyslots"
    and cs_wf: "toks h n = Some j \<Longrightarrow> json_wf j"
    and cs_export: "tokenExport C i k h = Inr text \<Longrightarrow>
      \<exists>n j. i = int n \<and> toks h n = Some j \<and> json_parse text = Inr j"
    and cs_add: "luksAddKey C p new slot h = (Inr u, h') \<Longrightarrow>
      p \<in> ran (keys h) \<and> keys h slot = None \<and> keys h' = (keys h)(slot \<mapsto> new) \<and> toks h' = toks h"
    and cs_kill: "luksKillSlot C p s h = (Inr u, h') \<Longrightarrow>
      (\<exists>n. Atoi s = Some (int n) \<and> keys h n \<noteq> None \<and> keys h' = (keys h)(n := None)) \<and>
      (\<forall>n. map_option token_type (toks h' n) = map_option token_type (toks h n))"
    and cs_remove: "tokenRemove C i h = (Inr u, h') \<Longrightarrow>
      keys h' = keys h \<and> (\<exists>n. i = int n \<and> toks h' = (toks h)(n := None))"
    and cs_import: "tokenImport C o' text h = (Inr u, h') \<Longrightarrow>
      keys h' = keys h \<and>
      (\<exists>n j. (o' = None \<or> o' = Some (int n)) \<and> toks h n = None \<and> json_parse text = Inr j \<and>
        toks h' = (toks h)(n \<mapsto> j))"
    and cs_test: "testPassphrase C p h = Inr u \<longleftrightarrow> p \<in> ran (keys h)"
proof -
  from assms have laws: "dump_law C keys toks" "header_law keys toks" "export_law C toks"
    "add_law C keys toks" "kill_law C keys toks" "remove_law C keys toks" "import_law C keys toks"
    "test_law C keys"
    by (simp_all add: cryptsetup_ok_def)
  show "keys h n \<noteq> None \<Longrightarrow> n < maxKeyslots" "toks h n = Some j \<Longrightarrow> json_wf j"
    using laws(2) unfolding header_law_def by blast+
qed (insert assms, simp_all add: cryptsetup_ok_def dump_law_def export_law_def add_law_def kill_law_def
      remove_law_def import_law_def test_law_def)

lemma cs_fail:
  assumes "cryptsetup_ok C keys toks"
  shows "luksAddKey C p new slot h = (Inl e, h') \<Longrightarrow> same_header keys toks h h'"
    and "luksKillSlot C p s h = (Inl e, h') \<Longrightarrow> same_header keys toks h h'"
    and "tokenRemove C i h = (Inl e, h') \<Longrightarrow> same_header keys toks h h'"
    and "tokenImport C o' text h = (Inl e, h') \<Longrightarrow> same_header keys toks h h'"
  using assms unfolding cryptsetup_ok_def fail_law_def by blast+

lemma dump_keyslots:
  assumes "cryptsetup_ok C keys toks" "luksDump C h = Inr d"
  shows "set (usedKeyslots d) = int ` dom (keys h)"
proof -
  obtain items where i: "d = dump_text items" "shows_header keys toks h items"
    using cs_dump [OF assms] by blast
  then have "items \<noteq> []" "\<forall>i \<in> set items. item_ok ''Keyslots'' i"
    by (simp_all add: shows_header_def)
  from dump_parses [OF this] i show ?thesis by (simp add: usedKeyslots_def shows_header_def)
qed

lemma dump_tokens:
  assumes "cryptsetup_ok C keys toks" "luksDump C h = Inr d"
  shows "t \<in> set (tokenIDsOfType d ty) \<longleftrightarrow> (\<exists>n j. t = int n \<and> toks h n = Some j \<and> token_type j = ty)"
proof -
  obtain items where i: "d = dump_text items" "shows_header keys toks h items"
    using cs_dump [OF assms] by blast
  then have "items \<noteq> []" "\<forall>i \<in> set items. item_ok ''Tokens'' i"
    by (simp_all add: shows_header_def)
  note p = dump_parses [OF this]
  have "t \<in> set (tokenIDsOfType d ty) \<longleftrightarrow> (t, ty) \<in> set (dump_entries ''Tokens'' items)"
    by (force simp: tokenIDsOfType_def i(1) p)
  also have "\<dots> \<longleftrightarrow> (\<exists>n j. t = int n \<and> toks h n = Some j \<and> token_type j = ty)"
    using i(2) by (auto simp: shows_header_def)
  finally show ?thesis .
qed

lemma free_slot:
  assumes "cryptsetup_ok C keys toks" "luksDump C h = Inr d" "lowestFreeKeyslot d = Inr slot"
  shows "keys h slot = None \<and> slot < maxKeyslots \<and> (\<forall>i < slot. keys h i \<noteq> None)"
  using lowest_free [of d] dump_keyslots [OF assms(1,2)] assms(3) by (auto simp: subset_iff)

lemma exportToken_Inr: "exportToken C tid h n k = Inr text \<Longrightarrow> \<exists>m. tokenExport C tid m h = Inr text"
  by (induction k arbitrary: n) (auto split: sum.splits)

definition fresh_token :: "string \<Rightarrow> string \<Rightarrow> token" where
  "fresh_token name tid = \<lparr>Version = 1, Keyslots = [], Recipients = [],
     Machine = \<lparr>mName = name, mTransportID = tid\<rparr>, extra = []\<rparr>"

text \<open>What \<open>loadToken\<close> returns: the header's mr-1 token under its id, or a fresh one.\<close>

lemma loadToken_reads:
  assumes ok: "cryptsetup_ok (cs U) keys toks" and d: "luksDump (cs U) h = Inr d"
    and load: "loadToken U h d name tid = Inr (tok, i)"
  shows "(i = -1 \<and> tok = fresh_token name tid \<and>
      (\<forall>n j. toks h n = Some j \<longrightarrow> token_type j \<noteq> mrTokenType)) \<or>
    (\<exists>n j. i = int n \<and> toks h n = Some j \<and> token_type j = mrTokenType \<and>
      token_UnmarshalJSON j = Inr tok)"
proof (cases "tokenIDsOfType d mrTokenType")
  case Nil
  then have "\<forall>n j. toks h n = Some j \<longrightarrow> token_type j \<noteq> mrTokenType"
    using dump_tokens [OF ok d, of _ mrTokenType] by fastforce
  with load Nil show ?thesis by (simp add: loadToken_def fresh_token_def)
next
  case (Cons t ts)
  then have "t \<in> set (tokenIDsOfType d mrTokenType)" by simp
  then obtain n j where n: "t = int n" "toks h n = Some j" "token_type j = mrTokenType"
    unfolding dump_tokens [OF ok d] by blast
  from load Cons obtain exported where
      ex: "exportToken (cs U) t h 1 (tokenReadAttempts - 1) = Inr exported"
    and tok: "bind_res (json_parse exported) token_UnmarshalJSON = Inr tok" and i: "i = t"
    by (auto simp: loadToken_def split: sum.splits)
  from exportToken_Inr [OF ex] cs_export [OF ok] n have "json_parse exported = Inr j" by fastforce
  with tok n i show ?thesis by auto
qed

section \<open>What enrolment does to the header\<close>

definition mr_token :: "'h tokens_view \<Rightarrow> 'h \<Rightarrow> nat \<Rightarrow> token \<Rightarrow> bool" where
  "mr_token toks h n tok \<longleftrightarrow>
    (\<exists>j. toks h n = Some j \<and> token_type j = mrTokenType \<and> token_UnmarshalJSON j = Inr tok)"

definition no_mr_token :: "'h tokens_view \<Rightarrow> 'h \<Rightarrow> bool" where
  "no_mr_token toks h \<longleftrightarrow> (\<forall>n j. toks h n = Some j \<longrightarrow> token_type j \<noteq> mrTokenType)"

text \<open>The token a further recipient is added to.\<close>

definition base_token :: "'h tokens_view \<Rightarrow> 'h \<Rightarrow> string \<Rightarrow> string \<Rightarrow> nat \<Rightarrow> token \<Rightarrow> bool" where
  "base_token toks h name tid n tok \<longleftrightarrow>
    mr_token toks h n tok \<or> (no_mr_token toks h \<and> toks h n = None \<and> tok = fresh_token name tid)"

definition add_recipient :: "token \<Rightarrow> nat \<Rightarrow> recipient \<Rightarrow> token" where
  "add_recipient tok slot rec =
    tok\<lparr>Keyslots := Keyslots tok @ [show_nat slot], Recipients := Recipients tok @ [rec]\<rparr>"

definition drop_recipient :: "token \<Rightarrow> nat \<Rightarrow> token" where
  "drop_recipient tok i =
    tok\<lparr>Keyslots := remove_at i (Keyslots tok), Recipients := remove_at i (Recipients tok)\<rparr>"

definition with_transport :: "'h unlocker \<Rightarrow> string \<Rightarrow> recipient \<Rightarrow> recipient \<Rightarrow> bool" where
  "with_transport U tid rec rec' \<longleftrightarrow>
    (tid = [] \<and> rec' = rec) \<or>
    (tid \<noteq> [] \<and> (\<exists>c. canonicalDeviceID U tid = Inr c \<and>
       rec' = rec\<lparr>Transport := Some (JObj [(''device_id'', JStr c)])\<rparr>))"

lemma is_ascii_show_nat: "is_ascii (show_nat n)"
  using printable_show_nat [of n] by (auto simp: is_ascii_def list_all_iff printable_def)

lemma canonicalDeviceID_ascii: "devid_ok U \<Longrightarrow> canonicalDeviceID U s = Inr c \<Longrightarrow> is_ascii c"
  by (auto simp: canonicalDeviceID_def devid_ok_def Let_def split: if_splits sum.splits)

lemma with_transport_wf:
  "devid_ok U \<Longrightarrow> with_transport U tid rec rec' \<Longrightarrow> Transport rec = None \<Longrightarrow> recipient_wf rec'"
  by (auto simp: with_transport_def recipient_wf_def valid_utf8_ascii dest: canonicalDeviceID_ascii)

lemma token_wf_add:
  "token_wf tok \<Longrightarrow> recipient_wf rec \<Longrightarrow> token_wf (add_recipient tok slot rec)"
  by (auto simp: token_wf_def token_ok_def add_recipient_def valid_utf8_ascii is_ascii_show_nat)

lemma set_remove_at: "set (remove_at i xs) \<subseteq> set xs"
  by (auto simp: remove_at_def dest: in_set_takeD in_set_dropD)

lemma token_wf_drop: "token_wf tok \<Longrightarrow> token_wf (drop_recipient tok i)"
  using set_remove_at [of i "Keyslots tok"] set_remove_at [of i "Recipients tok"]
  by (auto simp: token_wf_def token_ok_def drop_recipient_def)

lemma token_wf_fresh: "valid_utf8 name \<Longrightarrow> valid_utf8 tid \<Longrightarrow> token_wf (fresh_token name tid)"
  by (simp add: token_wf_def token_ok_def fresh_token_def currentVersion_def machine_wf_def is_map_def)

lemma token_type_marshal: "token_type (token_json t) = mrTokenType"
proof -
  have "map_of (norm_map (extra t @ token_fields t)) ''type'' = Some (JStr tokenType)"
    by (rule token_field) (simp add: token_fields_def)
  moreover have "map_of (rev (norm_map (extra t @ token_fields t))) =
      map_of (norm_map (extra t @ token_fields t))"
    using is_map_norm [of "extra t @ token_fields t"] by (intro map_of_rev_distinct) (simp add: is_map_def)
  ultimately show ?thesis
    by (simp add: token_type_def token_json_def tokenType_def mrTokenType_def del: map_of_norm)
qed

lemma mr_token_marshal:
  assumes "token_wf t" "toks h n = Some (token_json t)"
  shows "mr_token toks h n t"
  using assms token_reads_back [of t] by (simp add: mr_token_def token_type_marshal token_wf_def)

lemma writeToken_effect:
  assumes ok: "cryptsetup_ok (cs U) keys toks" and wf: "token_wf tok"
    and w: "writeToken U tok i h = (Inr u, h')"
  shows "keys h' = keys h \<and> (\<exists>n. (if i < 0 then toks h n = None else i = int n) \<and>
    toks h' = (toks h)(n \<mapsto> token_json tok))"
proof -
  have p: "json_parse (json_print (token_json tok)) = Inr (token_json tok)"
    by (rule parse_print [OF token_wf_json [OF wf]])
  show ?thesis
  proof (cases "i < 0")
    case True
    with w have "tokenImport (cs U) None (json_print (token_json tok)) h = (Inr (), h')"
      by (auto simp: writeToken_def Let_def split: prod.splits sum.splits)
    from cs_import [OF ok this] p True show ?thesis by auto
  next
    case False
    with w obtain h1 where 1: "tokenRemove (cs U) i h = (Inr (), h1)"
      and 2: "tokenImport (cs U) (Some i) (json_print (token_json tok)) h1 = (Inr (), h')"
      by (auto simp: writeToken_def Let_def split: prod.splits sum.splits)
    from cs_remove [OF ok 1] cs_import [OF ok 2] p False show ?thesis by force
  qed
qed

lemma enrolRecipient_Inr:
  assumes "enrolRecipient U p pub name tid rtid h rng = (Inr u, h', rng')"
  obtains d tok i slot P rec rec' h1 where
    "luksDump (cs U) h = Inr d" "loadToken U h d name tid = Inr (tok, i)"
    "lowestFreeKeyslot d = Inr slot" "Enrol (gr U) (cr U) pub rng = Inr (P, rec, rng')"
    "with_transport U rtid rec rec'"
    "luksAddKey (cs U) p (luksKeyMaterial P) slot h = (Inr (), h1)"
    "writeToken U (add_recipient tok slot rec') i h1 = (Inr (), h')"
  using assms
  by (auto simp: enrolRecipient_def with_transport_def recipientTransportBlob_def add_recipient_def
      split: sum.splits prod.splits if_splits)

lemma Enrol_Transport: "Enrol g P s rng = Inr (secret, rec, rng') \<Longrightarrow> Transport rec = None"
  by (auto simp: Enrol_Inr)

lemma loadToken_wf:
  assumes "cryptsetup_ok C keys toks" "mr_token toks h n tok"
  shows "token_wf tok"
  using assms cs_wf [OF assms(1)] unmarshalled_token_wf by (auto simp: mr_token_def)

lemma enrol_effect:
  assumes ok: "cryptsetup_ok (cs U) keys toks" and dev: "devid_ok U"
    and names: "valid_utf8 name" "valid_utf8 tid"
    and run: "enrolRecipient U p pub name tid rtid h rng = (Inr u, h', rng')"
  shows "\<exists>slot P rec rec' n tok.
    Enrol (gr U) (cr U) pub rng = Inr (P, rec, rng') \<and> with_transport U rtid rec rec' \<and>
    p \<in> ran (keys h) \<and> slot < maxKeyslots \<and> keys h slot = None \<and>
    keys h' = (keys h)(slot \<mapsto> luksKeyMaterial P) \<and>
    base_token toks h name tid n tok \<and> token_wf (add_recipient tok slot rec') \<and>
    toks h' = (toks h)(n \<mapsto> token_json (add_recipient tok slot rec'))"
proof -
  from run obtain d tok i slot P rec rec' h1 where
    d: "luksDump (cs U) h = Inr d" and load: "loadToken U h d name tid = Inr (tok, i)" and
    slot: "lowestFreeKeyslot d = Inr slot" and P: "Enrol (gr U) (cr U) pub rng = Inr (P, rec, rng')" and
    rec: "with_transport U rtid rec rec'" and
    add: "luksAddKey (cs U) p (luksKeyMaterial P) slot h = (Inr (), h1)" and
    w: "writeToken U (add_recipient tok slot rec') i h1 = (Inr (), h')"
    by (rule enrolRecipient_Inr)
  note l = loadToken_reads [OF ok d load]
  have tokwf: "token_wf tok"
    using l
  proof
    assume "i = -1 \<and> tok = fresh_token name tid \<and>
      (\<forall>n j. toks h n = Some j \<longrightarrow> token_type j \<noteq> mrTokenType)"
    then show ?thesis using token_wf_fresh [OF names] by simp
  next
    assume "\<exists>n j. i = int n \<and> toks h n = Some j \<and> token_type j = mrTokenType \<and>
      token_UnmarshalJSON j = Inr tok"
    then show ?thesis using cs_wf [OF ok] unmarshalled_token_wf by blast
  qed
  have recwf: "recipient_wf rec'"
    by (rule with_transport_wf [OF dev rec Enrol_Transport [OF P]])
  note wf = token_wf_add [OF tokwf recwf, of slot]
  note a = cs_add [OF ok add]
  from writeToken_effect [OF ok wf w] obtain n where
    "if i < 0 then toks h1 n = None else i = int n" "keys h' = keys h1"
      "toks h' = (toks h1)(n \<mapsto> token_json (add_recipient tok slot rec'))" by blast
  with a have n: "if i < 0 then toks h n = None else i = int n" "keys h' = keys h1"
      "toks h' = (toks h)(n \<mapsto> token_json (add_recipient tok slot rec'))"
    by (simp_all split: if_split_asm)
  have "base_token toks h name tid n tok"
    using l n(1) by (auto simp: base_token_def mr_token_def no_mr_token_def)
  with P rec a n wf free_slot [OF ok d slot] show ?thesis by fastforce
qed

section \<open>The invariant of an enrolled header\<close>

text \<open>
  There is at most one mr-1 token; its two lists have one length, no keyslot is named twice,
  and every keyslot it names is occupied.
\<close>

definition names_slots :: "(nat \<rightharpoonup> bytes) \<Rightarrow> token \<Rightarrow> bool" where
  "names_slots ks tok \<longleftrightarrow>
    length (Keyslots tok) = length (Recipients tok) \<and> distinct (Keyslots tok) \<and>
    set (Keyslots tok) \<subseteq> show_nat ` dom ks"

definition header_ok :: "'h slots_view \<Rightarrow> 'h tokens_view \<Rightarrow> 'h \<Rightarrow> bool" where
  "header_ok keys toks h \<longleftrightarrow>
    (\<forall>n n' j j'. toks h n = Some j \<longrightarrow> toks h n' = Some j' \<longrightarrow>
       token_type j = mrTokenType \<longrightarrow> token_type j' = mrTokenType \<longrightarrow> n = n') \<and>
    (\<forall>n j. toks h n = Some j \<longrightarrow> token_type j = mrTokenType \<longrightarrow>
       (\<exists>tok. token_UnmarshalJSON j = Inr tok \<and> names_slots (keys h) tok))"

lemma header_okI:
  assumes "\<And>m j. m \<noteq> n \<Longrightarrow> toks h m = Some j \<Longrightarrow> token_type j \<noteq> mrTokenType"
    and "toks h n = Some (token_json tok)" "token_wf tok" "names_slots (keys h) tok"
  shows "header_ok keys toks h"
  unfolding header_ok_def
proof (intro conjI allI impI)
  show "m = m'" if "toks h m = Some j" "toks h m' = Some j'"
    "token_type j = mrTokenType" "token_type j' = mrTokenType" for m m' j j'
    using assms(1) that by metis
  show "\<exists>tok. token_UnmarshalJSON j = Inr tok \<and> names_slots (keys h) tok"
    if "toks h m = Some j" "token_type j = mrTokenType" for m j
  proof -
    have "m = n" using assms(1) that by metis
    with that(1) assms(2) have "j = token_json tok" by simp
    with token_reads_back [of tok] assms(3,4) show ?thesis by (auto simp: token_wf_def)
  qed
qed

lemma header_ok_names: "header_ok keys toks h \<Longrightarrow> mr_token toks h n tok \<Longrightarrow> names_slots (keys h) tok"
  unfolding header_ok_def mr_token_def by fastforce

lemma header_ok_only:
  "header_ok keys toks h \<Longrightarrow> mr_token toks h n tok \<Longrightarrow> m \<noteq> n \<Longrightarrow> toks h m = Some j \<Longrightarrow>
    token_type j \<noteq> mrTokenType"
  unfolding header_ok_def mr_token_def by blast

lemma names_slots_add:
  assumes "names_slots ks tok" "ks slot = None"
  shows "names_slots (ks(slot \<mapsto> k)) (add_recipient tok slot rec)"
proof -
  have "show_nat slot \<notin> show_nat ` dom ks"
    using assms(2) by (auto dest: show_nat_inj)
  with assms show ?thesis by (auto simp: names_slots_def add_recipient_def)
qed

lemma names_slots_fresh: "names_slots ks (fresh_token name tid)"
  by (simp add: names_slots_def fresh_token_def)

lemma base_token_names:
  assumes "header_ok keys toks h" "base_token toks h name tid n tok"
  shows "names_slots (keys h) tok \<and>
    (\<forall>m j. m \<noteq> n \<longrightarrow> toks h m = Some j \<longrightarrow> token_type j \<noteq> mrTokenType)"
  using assms header_ok_names header_ok_only
  by (fastforce simp: base_token_def no_mr_token_def names_slots_fresh)

lemma enrol_header_ok:
  assumes "header_ok keys toks h" "base_token toks h name tid n tok" "keys h slot = None"
    and "keys h' = (keys h)(slot \<mapsto> k)" "token_wf (add_recipient tok slot rec)"
    and "toks h' = (toks h)(n \<mapsto> token_json (add_recipient tok slot rec))"
  shows "header_ok keys toks h'"
  using base_token_names [OF assms(1,2)] names_slots_add [of "keys h" tok slot k rec] assms(3-6)
  by (intro header_okI [of n _ _ "add_recipient tok slot rec"]) auto

section \<open>Removing and rotating\<close>

lemma distinct_remove_at: "distinct xs \<Longrightarrow> distinct (remove_at i xs)"
  by (auto simp: remove_at_def distinct_take distinct_drop dest: set_take_disj_set_drop_if_distinct [of _ i "Suc i"])

lemma remove_at_not_in:
  assumes "distinct xs" "i < length xs"
  shows "xs ! i \<notin> set (remove_at i xs)"
proof -
  have "xs = take i xs @ xs ! i # drop (Suc i) xs" using assms(2) by (rule id_take_nth_drop)
  with assms(1) have "distinct (take i xs @ xs ! i # drop (Suc i) xs)" by simp
  then show ?thesis by (auto simp: remove_at_def)
qed

lemma length_remove_at: "i < length xs \<Longrightarrow> length (remove_at i xs) = length xs - 1"
  by (simp add: remove_at_def)

lemma names_slots_drop:
  assumes "names_slots ks tok" "i < length (Recipients tok)" "Keyslots tok ! i = show_nat n"
  shows "names_slots (ks(n := None)) (drop_recipient tok i)"
proof -
  from assms have d: "distinct (Keyslots tok)" "i < length (Keyslots tok)"
    "set (Keyslots tok) \<subseteq> show_nat ` dom ks" by (auto simp: names_slots_def)
  have "show_nat n \<notin> set (remove_at i (Keyslots tok))"
    using remove_at_not_in [OF d(1,2)] assms(3) by simp
  with d(3) set_remove_at [of i "Keyslots tok"]
  have "set (remove_at i (Keyslots tok)) \<subseteq> show_nat ` (dom ks - {n})" by fastforce
  with assms d show ?thesis
    by (auto simp: names_slots_def drop_recipient_def length_remove_at distinct_remove_at)
qed

lemma removeRecipientAt_effect:
  assumes ok: "cryptsetup_ok (cs U) keys toks" and h: "header_ok keys toks h"
    and tok: "mr_token toks h t tok" and i: "i < length (Recipients tok)"
    and run: "removeRecipientAt U p tok (int t) i h = (Inr u, h')"
  shows "\<exists>n. Keyslots tok ! i = show_nat n \<and> keys h n \<noteq> None \<and> keys h' = (keys h)(n := None) \<and>
    mr_token toks h' t (drop_recipient tok i) \<and> header_ok keys toks h' \<and>
    (\<forall>m. m \<noteq> t \<longrightarrow> map_option token_type (toks h' m) = map_option token_type (toks h m))"
proof -
  let ?json = "json_print (token_json (drop_recipient tok i))"
  from run obtain h1 h2 where
    kill: "luksKillSlot (cs U) p (Keyslots tok ! i) h = (Inr (), h1)" and
    rem: "tokenRemove (cs U) (int t) h1 = (Inr (), h2)" and
    imp: "tokenImport (cs U) (Some (int t)) ?json h2 = (Inr (), h')"
    by (auto simp: removeRecipientAt_def drop_recipient_def Let_def split: prod.splits sum.splits)
  note names = header_ok_names [OF h tok]
  then have "Keyslots tok ! i \<in> show_nat ` dom (keys h)"
    using i nth_mem [of i "Keyslots tok"] by (auto simp: names_slots_def)
  then obtain n where n: "Keyslots tok ! i = show_nat n" "keys h n \<noteq> None" by blast
  have "n < maxKeyslots" by (rule cs_slots [OF ok n(2)])
  then have atoi: "Atoi (show_nat n) = Some (int n)"
    by (intro Atoi_show_nat) (simp add: maxKeyslots_def)
  note k = cs_kill [OF ok kill]
  with atoi n have k1: "keys h1 = (keys h)(n := None)"
    "\<And>m. map_option token_type (toks h1 m) = map_option token_type (toks h m)" by auto
  have wf: "token_wf (drop_recipient tok i)"
    by (rule token_wf_drop [OF loadToken_wf [OF ok tok]])
  have p: "json_parse ?json = Inr (token_json (drop_recipient tok i))"
    by (rule parse_print [OF token_wf_json [OF wf]])
  from cs_remove [OF ok rem] cs_import [OF ok imp] p
  have e: "keys h' = keys h1" "toks h' = (toks h1)(t \<mapsto> token_json (drop_recipient tok i))"
    by auto
  have others: "\<forall>m. m \<noteq> t \<longrightarrow> map_option token_type (toks h' m) = map_option token_type (toks h m)"
    using e k1 by simp
  have only: "token_type j \<noteq> mrTokenType" if "m \<noteq> t" "toks h' m = Some j" for m j
  proof -
    have "map_option token_type (toks h m) = Some (token_type j)"
      using others that by (metis option.map(2))
    then obtain j0 where "toks h m = Some j0" "token_type j0 = token_type j" by auto
    with header_ok_only [OF h tok that(1)] show ?thesis by metis
  qed
  have "names_slots (keys h') (drop_recipient tok i)"
    using names_slots_drop [OF names i n(1)] e k1 by simp
  then have "header_ok keys toks h'"
    using only e wf by (intro header_okI [of t _ _ "drop_recipient tok i"]) auto
  moreover have "mr_token toks h' t (drop_recipient tok i)"
    using mr_token_marshal [OF wf, of toks h' t] e by simp
  moreover have "keys h' = (keys h)(n := None)" using e k1 by simp
  ultimately show ?thesis using n others by blast
qed

lemma loadEnrolledToken_Inr:
  assumes ok: "cryptsetup_ok (cs U) keys toks"
    and load: "loadEnrolledToken U device h = Inr (tok, i)"
  shows "(\<exists>n. i = int n \<and> mr_token toks h n tok) \<and> length (Keyslots tok) = length (Recipients tok)"
proof -
  from load obtain d where d: "luksDump (cs U) h = Inr d" and l: "loadToken U h d [] [] = Inr (tok, i)"
    and i: "\<not> i < 0" "length (Keyslots tok) = length (Recipients tok)"
    by (auto simp: loadEnrolledToken_def split: sum.splits if_splits)
  from loadToken_reads [OF ok d l] i show ?thesis by (auto simp: mr_token_def)
qed

text \<open>Selecting an entry: it has the transport id, and it is the only one or has the keyslot named.\<close>

definition has_transport :: "'h unlocker \<Rightarrow> token \<Rightarrow> string \<Rightarrow> nat \<Rightarrow> bool" where
  "has_transport U tok tid i \<longleftrightarrow>
    i < length (Recipients tok) \<and>
    (\<exists>got. TransportDeviceID (Recipients tok ! i) = Some got \<and> canonicalOrRaw U got = canonicalOrRaw U tid)"

lemma in_recipientsByTransportID:
  "i \<in> set (recipientsByTransportID U tok tid) \<longleftrightarrow> has_transport U tok tid i"
  by (auto simp: recipientsByTransportID_def has_transport_def Let_def split: option.splits)

lemma distinct_recipientsByTransportID [simp]: "distinct (recipientsByTransportID U tok tid)"
  by (simp add: recipientsByTransportID_def Let_def)

lemma single_recipient:
  assumes "recipientsByTransportID U tok tid = [i]"
  shows "has_transport U tok tid i \<and> (\<forall>j. has_transport U tok tid j \<longrightarrow> j = i)"
  using assms in_recipientsByTransportID [of _ U tok tid] by auto

lemma selectRecipient_Inr:
  assumes "selectRecipient U tok tid keyslot = Inr i"
  shows "has_transport U tok tid i \<and>
    (if keyslot = [] then \<forall>j. has_transport U tok tid j \<longrightarrow> j = i else keyslotOf tok i = keyslot)"
proof (cases "keyslot = []")
  case True
  with assms have "recipientsByTransportID U tok tid = [i]"
    by (cases "recipientsByTransportID U tok tid"; cases "tl (recipientsByTransportID U tok tid)")
      (auto simp: selectRecipient_def Let_def split: if_splits)
  with single_recipient [OF this] True show ?thesis by simp
next
  case False
  with assms have "find (\<lambda>i. keyslotOf tok i = keyslot) (recipientsByTransportID U tok tid) = Some i"
    by (auto simp: selectRecipient_def Let_def split: if_splits option.splits)
  with find_Some_in [OF this] False show ?thesis
    by (simp add: in_recipientsByTransportID)
qed

lemma removeRecipient_effect:
  assumes ok: "cryptsetup_ok (cs U) keys toks" and h: "header_ok keys toks h"
    and run: "removeRecipient U device p tid keyslot h = (Inr u, h')"
  shows "\<exists>t tok i n. mr_token toks h t tok \<and> selectRecipient U tok tid keyslot = Inr i \<and>
    Keyslots tok ! i = show_nat n \<and> keys h n \<noteq> None \<and> keys h' = (keys h)(n := None) \<and>
    mr_token toks h' t (drop_recipient tok i) \<and> header_ok keys toks h'"
proof -
  from run obtain tok ti i where l: "loadEnrolledToken U device h = Inr (tok, ti)"
    and s: "selectRecipient U tok tid keyslot = Inr i"
    and r: "removeRecipientAt U p tok ti i h = (Inr u, h')"
    by (auto simp: removeRecipient_def split: sum.splits)
  from loadEnrolledToken_Inr [OF ok l] obtain t where t: "ti = int t" "mr_token toks h t tok" by blast
  have "i < length (Recipients tok)"
    using selectRecipient_Inr [OF s] by (simp add: has_transport_def)
  from removeRecipientAt_effect [OF ok h t(2) this r [unfolded t(1)]] t(2) s show ?thesis by blast
qed

lemma slice_index_Some: "slice_index xs x = Some i \<Longrightarrow> i < length xs \<and> xs ! i = x"
  by (auto simp: slice_index_def dest: find_Some_in)

lemma slice_index_nth: "distinct xs \<Longrightarrow> i < length xs \<Longrightarrow> slice_index xs (xs ! i) = Some i"
  by (auto simp: slice_index_def find_Some_iff nth_eq_iff_index_eq intro!: exI [of _ i])

text \<open>Whatever comes of it, writing a token leaves the keyslots alone, and adding only adds.\<close>

lemma writeToken_keys:
  assumes ok: "cryptsetup_ok (cs U) keys toks" and run: "writeToken U tok i h = (r, h')"
  shows "keys h' = keys h"
proof -
  have rem: "keys x' = keys x" if "tokenRemove (cs U) i x = (q, x')" for x x' q
    using that cs_remove [OF ok, of i x] cs_fail(3) [OF ok, of i x]
    by (cases q) (auto simp: same_header_def)
  have imp: "keys x' = keys x" if "tokenImport (cs U) o' j x = (q, x')" for o' j x x' q
    using that cs_import [OF ok, of o' j x] cs_fail(4) [OF ok, of o' j x]
    by (cases q) (auto simp: same_header_def)
  show ?thesis
    using run by (auto simp: writeToken_def Let_def dest!: rem imp split: if_splits prod.splits sum.splits)
qed

lemma enrol_keys_mono:
  assumes ok: "cryptsetup_ok (cs U) keys toks"
    and run: "enrolRecipient U p pub name tid rtid h rng = (r, h', rng')"
  shows "keys h \<subseteq>\<^sub>m keys h'"
proof -
  have add: "keys x \<subseteq>\<^sub>m keys x'" if "luksAddKey (cs U) p new slot x = (q, x')" for new slot x x' q
    using that cs_add [OF ok, of p new slot x] cs_fail(1) [OF ok, of p new slot x]
    by (cases q) (auto simp: same_header_def map_le_def)
  have w: "keys x \<subseteq>\<^sub>m keys x''"
    if "luksAddKey (cs U) p new slot x = (q, x')" "writeToken U t i x' = (q', x'')" for new slot x x' x'' q q' t i
    using add [OF that(1)] writeToken_keys [OF ok that(2)] by simp
  from run show ?thesis
    by (auto simp: enrolRecipient_def map_le_refl dest: add w split: sum.splits prod.splits if_splits)
qed

lemma removeRecipientAt_keys:
  assumes ok: "cryptsetup_ok (cs U) keys toks" and run: "removeRecipientAt U p tok t i h = (r, h')"
  shows "keys h' = keys h \<or>
    (\<exists>n. Atoi (Keyslots tok ! i) = Some (int n) \<and> keys h' = (keys h)(n := None))"
proof -
  have rem: "keys x' = keys x" if "tokenRemove (cs U) t x = (q, x')" for x x' q
    using that cs_remove [OF ok, of t x] cs_fail(3) [OF ok, of t x]
    by (cases q) (auto simp: same_header_def)
  have imp: "keys x' = keys x" if "tokenImport (cs U) o' j x = (q, x')" for o' j x x' q
    using that cs_import [OF ok, of o' j x] cs_fail(4) [OF ok, of o' j x]
    by (cases q) (auto simp: same_header_def)
  obtain q h1 where k: "luksKillSlot (cs U) p (Keyslots tok ! i) h = (q, h1)"
    by (cases "luksKillSlot (cs U) p (Keyslots tok ! i) h")
  have "keys h' = keys h1"
    using run k by (auto simp: removeRecipientAt_def Let_def dest!: rem imp split: prod.splits sum.splits)
  with k cs_kill [OF ok, of p "Keyslots tok ! i" h] cs_fail(2) [OF ok, of p "Keyslots tok ! i" h]
  show ?thesis by (cases q) (auto simp: same_header_def)
qed

text \<open>
  The state after the new key is enrolled: the old entry is still in the token, at the same
  place, and in a different keyslot from the new one.
\<close>

lemma replace_middle:
  assumes ok: "cryptsetup_ok (cs U) keys toks" and dev: "devid_ok U" and h: "header_ok keys toks h"
    and load: "loadEnrolledToken U device h = Inr (tok, ti)"
    and i: "i < length (Recipients tok)"
    and run: "enrolRecipient U p pub [] [] new h rng = (Inr u, h1, rng')"
  obtains t n slot P rec rec' where
    "mr_token toks h t tok" "Keyslots tok ! i = show_nat n" "keys h n \<noteq> None" "n < maxKeyslots"
    "Enrol (gr U) (cr U) pub rng = Inr (P, rec, rng')" "with_transport U new rec rec'"
    "keys h slot = None" "keys h1 = (keys h)(slot \<mapsto> luksKeyMaterial P)"
    "mr_token toks h1 t (add_recipient tok slot rec')" "header_ok keys toks h1"
    "slice_index (Keyslots (add_recipient tok slot rec')) (show_nat n) = Some i"
proof -
  from loadEnrolledToken_Inr [OF ok load] obtain t where t: "mr_token toks h t tok" by blast
  note names = header_ok_names [OF h t]
  from names i have i': "i < length (Keyslots tok)" by (simp add: names_slots_def)
  then have "Keyslots tok ! i \<in> show_nat ` dom (keys h)"
    using names nth_mem [of i "Keyslots tok"] by (auto simp: names_slots_def)
  then obtain n where n: "Keyslots tok ! i = show_nat n" "keys h n \<noteq> None" by blast
  from enrol_effect [OF ok dev valid_utf8_Nil valid_utf8_Nil run] obtain slot P rec rec' m tok2 where
    e: "Enrol (gr U) (cr U) pub rng = Inr (P, rec, rng')" "with_transport U new rec rec'"
      "keys h slot = None" "keys h1 = (keys h)(slot \<mapsto> luksKeyMaterial P)"
      "base_token toks h [] [] m tok2" "token_wf (add_recipient tok2 slot rec')"
      "toks h1 = (toks h)(m \<mapsto> token_json (add_recipient tok2 slot rec'))" by blast
  have "\<not> no_mr_token toks h" using t by (auto simp: no_mr_token_def mr_token_def)
  with e(5) have m2: "mr_token toks h m tok2" by (simp add: base_token_def)
  then have m: "m = t" using header_ok_only [OF h t, of m] by (auto simp: mr_token_def)
  with m2 t have tok2: "tok2 = tok" by (auto simp: mr_token_def)
  have new: "mr_token toks h1 t (add_recipient tok slot rec')"
    using mr_token_marshal [OF e(6), of toks h1 t] e(7) m tok2 by simp
  have hok: "header_ok keys toks h1"
    by (rule enrol_header_ok [OF h e(5,3,4,6,7)])
  have "slice_index (Keyslots (add_recipient tok slot rec')) (Keyslots (add_recipient tok slot rec') ! i) = Some i"
    using header_ok_names [OF hok new] i' by (intro slice_index_nth) (auto simp: names_slots_def add_recipient_def)
  then have "slice_index (Keyslots (add_recipient tok slot rec')) (show_nat n) = Some i"
    using i' n(1) by (simp add: add_recipient_def nth_append)
  with that t n e new hok cs_slots [OF ok n(2)] show thesis by blast
qed

lemma mr_token_unique:
  "header_ok keys toks h \<Longrightarrow> mr_token toks h t tok \<Longrightarrow> mr_token toks h t' tok' \<Longrightarrow> t' = t \<and> tok' = tok"
  using header_ok_only [of keys toks h t tok t'] by (fastforce simp: mr_token_def)

lemma replace_never_without:
  assumes ok: "cryptsetup_ok (cs U) keys toks" and dev: "devid_ok U" and h: "header_ok keys toks h"
    and run: "replaceRecipient U device p pub old new keyslot h rng = (r, h', rng')"
  shows "keys h \<subseteq>\<^sub>m keys h' \<or>
    (\<exists>P rec slot. Enrol (gr U) (cr U) pub rng = Inr (P, rec, rng') \<and>
       keys h' slot = Some (luksKeyMaterial P))"
proof (cases "\<exists>tok ti i. loadEnrolledToken U device h = Inr (tok, ti) \<and>
    selectRecipient U tok old keyslot = Inr i")
  case False
  then have "h' = h" using run
    by (auto simp: replaceRecipient_def split: sum.splits prod.splits)
  then show ?thesis by simp
next
  case True
  then obtain tok ti i where load: "loadEnrolledToken U device h = Inr (tok, ti)"
    and sel: "selectRecipient U tok old keyslot = Inr i" by blast
  have i: "i < length (Recipients tok)" using selectRecipient_Inr [OF sel] by (simp add: has_transport_def)
  obtain q h1 rng1 where en: "enrolRecipient U p pub [] [] new h rng = (q, h1, rng1)"
    by (cases "enrolRecipient U p pub [] [] new h rng")
  note mono = enrol_keys_mono [OF ok en]
  show ?thesis
  proof (cases q)
    case (Inl e)
    then have "h' = h1" using run load sel en by (simp add: replaceRecipient_def Let_def)
    with mono show ?thesis by simp
  next
    case (Inr u)
    obtain t n slot P rec rec' where m: "mr_token toks h t tok" "Keyslots tok ! i = show_nat n"
      "keys h n \<noteq> None" "n < maxKeyslots" "Enrol (gr U) (cr U) pub rng = Inr (P, rec, rng1)"
      "keys h slot = None" "keys h1 = (keys h)(slot \<mapsto> luksKeyMaterial P)"
      "mr_token toks h1 t (add_recipient tok slot rec')" "header_ok keys toks h1"
      "slice_index (Keyslots (add_recipient tok slot rec')) (show_nat n) = Some i"
      by (rule replace_middle [OF ok dev h load i en [unfolded Inr]])
    have rng: "rng' = rng1"
      using run load sel en Inr
      by (auto simp: replaceRecipient_def Let_def split: sum.splits prod.splits option.splits)
    show ?thesis
    proof (cases "h' = h1")
      case True
      with m rng show ?thesis by auto
    next
      case False
      then obtain tok1 t1 i1 q' where l1: "loadEnrolledToken U device h1 = Inr (tok1, t1)"
        and i1: "slice_index (Keyslots tok1) (Keyslots tok ! i) = Some i1"
        and r1: "removeRecipientAt U p tok1 t1 i1 h1 = (q', h')"
        using run load sel en Inr
        by (auto simp: replaceRecipient_def Let_def split: sum.splits prod.splits option.splits)
      from slice_index_Some [OF i1] m(2) have "Keyslots tok1 ! i1 = show_nat n" by simp
      moreover have "Atoi (show_nat n) = Some (int n)"
        using m(4) by (intro Atoi_show_nat) (simp add: maxKeyslots_def)
      ultimately have "keys h' = keys h1 \<or> keys h' = (keys h1)(n := None)"
        using removeRecipientAt_keys [OF ok r1] by auto
      moreover have "n \<noteq> slot" using m(3,6) by auto
      ultimately have "keys h' slot = Some (luksKeyMaterial P)" using m(7) by auto
      with m(5) rng show ?thesis by blast
    qed
  qed
qed

lemma replace_effect:
  assumes ok: "cryptsetup_ok (cs U) keys toks" and dev: "devid_ok U" and h: "header_ok keys toks h"
    and run: "replaceRecipient U device p pub old new keyslot h rng = (Inr u, h', rng')"
  shows "\<exists>t tok i n slot P rec rec'.
    mr_token toks h t tok \<and> selectRecipient U tok old keyslot = Inr i \<and>
    Keyslots tok ! i = show_nat n \<and> keys h n \<noteq> None \<and> keys h slot = None \<and>
    Enrol (gr U) (cr U) pub rng = Inr (P, rec, rng') \<and> with_transport U new rec rec' \<and>
    keys h' = (keys h)(slot \<mapsto> luksKeyMaterial P, n := None) \<and>
    mr_token toks h' t (drop_recipient (add_recipient tok slot rec') i) \<and> header_ok keys toks h'"
proof -
  from run obtain tok ti i h1 tok1 t1 i1 where load: "loadEnrolledToken U device h = Inr (tok, ti)"
    and sel: "selectRecipient U tok old keyslot = Inr i"
    and en: "enrolRecipient U p pub [] [] new h rng = (Inr (), h1, rng')"
    and l1: "loadEnrolledToken U device h1 = Inr (tok1, t1)"
    and i1: "slice_index (Keyslots tok1) (Keyslots tok ! i) = Some i1"
    and r1: "removeRecipientAt U p tok1 t1 i1 h1 = (Inr (), h')"
    by (auto simp: replaceRecipient_def Let_def split: sum.splits prod.splits option.splits)
  have i: "i < length (Recipients tok)" using selectRecipient_Inr [OF sel] by (simp add: has_transport_def)
  obtain t n slot P rec rec' where m: "mr_token toks h t tok" "Keyslots tok ! i = show_nat n"
    "keys h n \<noteq> None" "Enrol (gr U) (cr U) pub rng = Inr (P, rec, rng')" "with_transport U new rec rec'"
    "keys h slot = None" "keys h1 = (keys h)(slot \<mapsto> luksKeyMaterial P)"
    "mr_token toks h1 t (add_recipient tok slot rec')" "header_ok keys toks h1"
    "slice_index (Keyslots (add_recipient tok slot rec')) (show_nat n) = Some i"
    by (rule replace_middle [OF ok dev h load i en])
  from loadEnrolledToken_Inr [OF ok l1] mr_token_unique [OF m(9,8)]
  have t1: "t1 = int t" "tok1 = add_recipient tok slot rec'" by auto
  with i1 m(2,10) have "i1 = i" by simp
  note r = r1 [unfolded t1 this]
  have "i < length (Recipients (add_recipient tok slot rec'))" using i by (simp add: add_recipient_def)
  from removeRecipientAt_effect [OF ok m(9,8) this r] obtain n' where
    n': "Keyslots (add_recipient tok slot rec') ! i = show_nat n'" "keys h' = (keys h1)(n' := None)"
      "mr_token toks h' t (drop_recipient (add_recipient tok slot rec') i)" "header_ok keys toks h'" by blast
  have "show_nat n' = show_nat n" using slice_index_Some [OF m(10)] n'(1) by simp
  then have "n' = n" by (rule show_nat_inj)
  with n'(2) m(7) have "keys h' = (keys h)(slot \<mapsto> luksKeyMaterial P, n := None)" by simp
  with m n'(3,4) sel show ?thesis by blast
qed

section \<open>Properties\<close>

lemma enrol_correct:
  assumes "cryptsetup_ok (cs U) keys toks" and "devid_ok U"
    and "valid_utf8 name" and "valid_utf8 tid" and "header_ok keys toks h"
    and "enrolRecipient U p pub name tid rtid h rng = (Inr u, h', rng')"
  shows "\<exists>slot P rec rec' n tok.
    Enrol (gr U) (cr U) pub rng = Inr (P, rec, rng') \<and> with_transport U rtid rec rec' \<and>
    slot < maxKeyslots \<and> keys h slot = None \<and> keys h' = (keys h)(slot \<mapsto> luksKeyMaterial P) \<and>
    base_token toks h name tid n tok \<and> mr_token toks h' n (add_recipient tok slot rec') \<and>
    (\<forall>m. m \<noteq> n \<longrightarrow> toks h' m = toks h m) \<and> header_ok keys toks h'"
proof -
  from enrol_effect [OF assms(1-4,6)] obtain slot P rec rec' n tok where
    e: "Enrol (gr U) (cr U) pub rng = Inr (P, rec, rng')" "with_transport U rtid rec rec'"
      "slot < maxKeyslots" "keys h slot = None" "keys h' = (keys h)(slot \<mapsto> luksKeyMaterial P)"
      "base_token toks h name tid n tok" "token_wf (add_recipient tok slot rec')"
      "toks h' = (toks h)(n \<mapsto> token_json (add_recipient tok slot rec'))" by blast
  have "mr_token toks h' n (add_recipient tok slot rec')"
    using mr_token_marshal [OF e(7), of toks h' n] e(8) by simp
  moreover have "header_ok keys toks h'" by (rule enrol_header_ok [OF assms(5) e(6,4,5,7,8)])
  moreover have "\<forall>m. m \<noteq> n \<longrightarrow> toks h' m = toks h m" using e(8) by simp
  ultimately show ?thesis using e by blast
qed

text \<open>
  C3. Enrolling a key holder adds exactly one keyslot, a free one, holding the hexadecimal form
  of the secret that was sealed for the key holder, and appends exactly that recipient to the
  mr-1 token (made if there was none); other keyslots and other tools' tokens stay as they
  were, and the header stays well formed.
\<close>

theorem enrolRecipient_correct:
  assumes "cryptsetup_ok (cs U) keys toks" and "devid_ok U"
    and "valid_utf8 name" and "valid_utf8 tid" and "header_ok keys toks h"
    and "enrolRecipient U p pub name tid rtid h rng = (Inr u, h', rng')"
  shows "\<exists>slot P rec rec' n tok.
    Enrol (gr U) (cr U) pub rng = Inr (P, rec, rng') \<and> with_transport U rtid rec rec' \<and>
    slot < maxKeyslots \<and> keys h slot = None \<and> keys h' = (keys h)(slot \<mapsto> luksKeyMaterial P) \<and>
    base_token toks h name tid n tok \<and> mr_token toks h' n (add_recipient tok slot rec') \<and>
    (\<forall>m. m \<noteq> n \<longrightarrow> toks h' m = toks h m) \<and> header_ok keys toks h'"
  using assms by (rule enrol_correct)

text \<open>
  C4. Removing a key holder destroys exactly the keyslot of the entry that was selected and
  drops exactly that entry, which carries the transport id asked for and is the only one that
  does, or the one in the keyslot named.
\<close>

theorem removeRecipient_correct:
  assumes "cryptsetup_ok (cs U) keys toks" and "header_ok keys toks h"
    and "removeRecipient U device p tid keyslot h = (Inr u, h')"
  shows "\<exists>t tok i n. mr_token toks h t tok \<and> has_transport U tok tid i \<and>
    (if keyslot = [] then \<forall>j. has_transport U tok tid j \<longrightarrow> j = i else keyslot = show_nat n) \<and>
    Keyslots tok ! i = show_nat n \<and> keys h' = (keys h)(n := None) \<and>
    mr_token toks h' t (drop_recipient tok i) \<and> header_ok keys toks h'"
proof -
  from removeRecipient_effect [OF assms] obtain t tok i n where
    e: "mr_token toks h t tok" "selectRecipient U tok tid keyslot = Inr i" "Keyslots tok ! i = show_nat n"
      "keys h' = (keys h)(n := None)" "mr_token toks h' t (drop_recipient tok i)" "header_ok keys toks h'"
    by blast
  have "length (Keyslots tok) = length (Recipients tok)"
    using header_ok_names [OF assms(2) e(1)] by (simp add: names_slots_def)
  with selectRecipient_Inr [OF e(2)] e(3) have
    "has_transport U tok tid i \<and>
      (if keyslot = [] then \<forall>j. has_transport U tok tid j \<longrightarrow> j = i else keyslot = show_nat n)"
    by (auto simp: keyslotOf_def has_transport_def)
  with e show ?thesis by blast
qed

text \<open>
  C5. Rotating a key replaces one entry: the new key is in a new keyslot, the old keyslot is
  gone, the token has the new entry instead of the old, and the header stays well formed.
\<close>

theorem replaceRecipient_correct:
  assumes "cryptsetup_ok (cs U) keys toks" and "devid_ok U" and "header_ok keys toks h"
    and "replaceRecipient U device p pub old new keyslot h rng = (Inr u, h', rng')"
  shows "\<exists>t tok i n slot P rec rec'.
    mr_token toks h t tok \<and> has_transport U tok old i \<and> Keyslots tok ! i = show_nat n \<and>
    keys h slot = None \<and> Enrol (gr U) (cr U) pub rng = Inr (P, rec, rng') \<and>
    with_transport U new rec rec' \<and>
    keys h' = (keys h)(slot \<mapsto> luksKeyMaterial P, n := None) \<and>
    mr_token toks h' t (drop_recipient (add_recipient tok slot rec') i) \<and> header_ok keys toks h'"
  using replace_effect [OF assms] selectRecipient_Inr by blast

text \<open>
  C6. A rotation that goes wrong never leaves the volume with neither key: however it ends, and
  whichever command failed, either no keyslot was lost or the keyslot of the new key is there.
\<close>

theorem replaceRecipient_keeps_a_key:
  assumes "cryptsetup_ok (cs U) keys toks" and "devid_ok U" and "header_ok keys toks h"
    and "replaceRecipient U device p pub old new keyslot h rng = (r, h', rng')"
  shows "keys h \<subseteq>\<^sub>m keys h' \<or>
    (\<exists>P rec slot. Enrol (gr U) (cr U) pub rng = Inr (P, rec, rng') \<and>
       keys h' slot = Some (luksKeyMaterial P))"
  using assms by (rule replace_never_without)

lemma plan_correct:
  assumes "cryptsetup_ok (cs U) keys toks" and "header_ok keys toks h"
    and "mr_token toks h t tok" and "planEnrolment U pub tid h = Inr plan"
  shows "case plan of
      PlanAdd \<Rightarrow> \<forall>i. \<not> has_transport U tok tid i
    | PlanAlready ex \<Rightarrow> (\<exists>i. has_transport U tok tid i \<and> (\<forall>j. has_transport U tok tid j \<longrightarrow> j = i) \<and>
        exKeyslot ex = Keyslots tok ! i \<and> Kid (Recipients tok ! i) = sha256Sum (cr U) pub)
    | PlanReplace ex \<Rightarrow> (\<exists>i. has_transport U tok tid i \<and> (\<forall>j. has_transport U tok tid j \<longrightarrow> j = i) \<and>
        exKeyslot ex = Keyslots tok ! i \<and> exKid ex = Kid (Recipients tok ! i) \<and>
        exKid ex \<noteq> sha256Sum (cr U) pub)"
proof -
  from assms(4) obtain d tok' ti where d: "luksDump (cs U) h = Inr d"
    and l: "loadToken U h d [] [] = Inr (tok', ti)"
    by (auto simp: planEnrolment_def split: sum.splits)
  have "\<not> (\<forall>n j. toks h n = Some j \<longrightarrow> token_type j \<noteq> mrTokenType)"
    using assms(3) by (auto simp: mr_token_def)
  with loadToken_reads [OF assms(1) d l] obtain n where ti: "ti = int n" "mr_token toks h n tok'"
    by (auto simp: mr_token_def)
  with mr_token_unique [OF assms(2,3)] have tok': "tok' = tok" by blast
  note names = header_ok_names [OF assms(2,3)]
  consider (none) "recipientsByTransportID U tok tid = []"
    | (one) i where "recipientsByTransportID U tok tid = [i]"
    | (many) i j r where "recipientsByTransportID U tok tid = i # j # r"
    by (cases "recipientsByTransportID U tok tid"; cases "tl (recipientsByTransportID U tok tid)") auto
  then show ?thesis
  proof cases
    case none
    then have "plan = PlanAdd" using assms(4) d l ti tok' by (simp add: planEnrolment_def Let_def)
    with none in_recipientsByTransportID [of _ U tok tid] show ?thesis by simp
  next
    case (one i)
    note s = single_recipient [OF one]
    then have "keyslotOf tok i = Keyslots tok ! i"
      using names by (simp add: keyslotOf_def has_transport_def names_slots_def)
    then have plan: "plan =
        (let ex = \<lparr>exKeyslot = Keyslots tok ! i, exKid = Kid (Recipients tok ! i)\<rparr> in
         if exKid ex = sha256Sum (cr U) pub then PlanAlready ex else PlanReplace ex)"
      using assms(4) d l ti tok' one by (simp add: planEnrolment_def Let_def split: if_split_asm)
    show ?thesis
    proof (cases "Kid (Recipients tok ! i) = sha256Sum (cr U) pub")
      case True
      with plan s show ?thesis by (auto simp: Let_def)
    next
      case False
      with plan s show ?thesis by (auto simp: Let_def)
    qed
  next
    case many
    then show ?thesis using assms(4) d l ti tok' by (simp add: planEnrolment_def Let_def)
  qed
qed

text \<open>
  Planning an enrolment reads the header rightly: it is refused only when the transport id
  is on two entries or the token cannot be read; an addition is planned when no entry has the
  id; otherwise the one entry that has it is named, as this key's or as another key's.
\<close>

theorem planEnrolment_correct:
  assumes "cryptsetup_ok (cs U) keys toks" and "header_ok keys toks h"
    and "mr_token toks h t tok" and "planEnrolment U pub tid h = Inr plan"
  shows "case plan of
      PlanAdd \<Rightarrow> \<forall>i. \<not> has_transport U tok tid i
    | PlanAlready ex \<Rightarrow> (\<exists>i. has_transport U tok tid i \<and> (\<forall>j. has_transport U tok tid j \<longrightarrow> j = i) \<and>
        exKeyslot ex = Keyslots tok ! i \<and> Kid (Recipients tok ! i) = sha256Sum (cr U) pub)
    | PlanReplace ex \<Rightarrow> (\<exists>i. has_transport U tok tid i \<and> (\<forall>j. has_transport U tok tid j \<longrightarrow> j = i) \<and>
        exKeyslot ex = Keyslots tok ! i \<and> exKid ex = Kid (Recipients tok ! i) \<and>
        exKid ex \<noteq> sha256Sum (cr U) pub)"
  using assms by (rule plan_correct)

end
