(* ===== verification/HeaderDemo.thy ===== *)
theory HeaderDemo
  imports Enrolment
begin

text \<open>
  A LUKS2 header in memory that does what cryptsetup documents, on which the hypotheses of theory
  \<open>Enrolment\<close> hold and its operations run: the witnesses of that theory's properties.
\<close>

section \<open>The header\<close>

type_synonym mem_header = "(nat \<times> bytes) list \<times> (nat \<times> json) list"

definition mem_ok :: "mem_header \<Rightarrow> bool" where
  "mem_ok h \<longleftrightarrow>
    distinct (map fst (fst h)) \<and> list_all (\<lambda>(n, _). n < maxKeyslots) (fst h) \<and>
    distinct (map fst (snd h)) \<and>
    list_all (\<lambda>(n, j). n < maxKeyslots \<and> json_wf j \<and> word_ok (token_type j)) (snd h)"

definition mem_keys :: "mem_header slots_view" where
  "mem_keys h = (if mem_ok h then map_of (fst h) else Map.empty)"

definition mem_toks :: "mem_header tokens_view" where
  "mem_toks h = (if mem_ok h then map_of (snd h) else Map.empty)"

definition mem_items :: "mem_header \<Rightarrow> dump_item list" where
  "mem_items h =
    [Plain ''LUKS header information'',
     Section ''Keyslots'' (map (\<lambda>(n, _). (n, ''luks2'', [])) (fst h)),
     Section ''Tokens'' (map (\<lambda>(n, j). (n, token_type j, [])) (snd h))]"

definition without :: "nat \<Rightarrow> (nat \<times> 'v) list \<Rightarrow> (nat \<times> 'v) list" where
  "without n xs = filter (\<lambda>(m, _). m \<noteq> n) xs"

definition attempt :: "bool \<Rightarrow> mem_header \<Rightarrow> mem_header \<Rightarrow> unit res \<times> mem_header" where
  "attempt b h h' =
    (if b \<and> mem_ok h \<and> mem_ok h' then (Inr (), h') else (Inl (Err ''cryptsetup failed''), h))"

definition mem_cs :: "mem_header cryptsetup" where
  "mem_cs =
    \<lparr>luksDump = (\<lambda>h. if mem_ok h then Inr (dump_text (mem_items h))
       else Inl (Err ''Device is not a valid LUKS device'')),
     luksAddKey = (\<lambda>p new slot h.
       attempt (p \<in> snd ` set (fst h) \<and> slot \<notin> fst ` set (fst h)) h ((slot, new) # fst h, snd h)),
     luksKillSlot = (\<lambda>p s h.
       case Atoi s of
         None \<Rightarrow> attempt False h h
       | Some i \<Rightarrow> attempt (0 \<le> i \<and> nat i \<in> fst ` set (fst h)) h (without (nat i) (fst h), snd h)),
     tokenExport = (\<lambda>i k h.
       if 0 \<le> i \<and> mem_ok h \<and> map_of (snd h) (nat i) \<noteq> None
       then Inr (json_print (the (map_of (snd h) (nat i))))
       else Inl (Err ''Failed to get token for export'')),
     tokenRemove = (\<lambda>i h.
       attempt (0 \<le> i \<and> nat i \<in> fst ` set (snd h)) h (fst h, without (nat i) (snd h))),
     tokenImport = (\<lambda>i s h.
       case json_parse s of
         Inl e \<Rightarrow> attempt False h h
       | Inr j \<Rightarrow>
           (let n = (case i of Some i \<Rightarrow> nat i | None \<Rightarrow> Suc (Max (insert 0 (fst ` set (snd h))))) in
            attempt ((case i of Some i \<Rightarrow> 0 \<le> i | None \<Rightarrow> True) \<and> n \<notin> fst ` set (snd h)) h
              (fst h, (n, j) # snd h))),
     testPassphrase = (\<lambda>p h.
       if mem_ok h \<and> p \<in> snd ` set (fst h) then Inr ()
       else Inl (Err ''No key available with this passphrase''))\<rparr>"

lemma attempt_Inr: "attempt b h x = (Inr u, h') \<longleftrightarrow> b \<and> mem_ok h \<and> mem_ok x \<and> h' = x"
  by (auto simp: attempt_def)

lemma attempt_Inl: "attempt b h x = (Inl e, h') \<Longrightarrow> h' = h"
  by (auto simp: attempt_def split: if_splits)

lemma map_of_without: "map_of (without n xs) = (map_of xs)(n := None)"
proof
  fix k
  show "map_of (without n xs) k = ((map_of xs)(n := None)) k"
    unfolding without_def by (induction xs) auto
qed

lemma mem_items_ok:
  assumes "mem_ok h" "sec = ''Keyslots'' \<or> sec = ''Tokens''"
  shows "\<forall>i \<in> set (mem_items h). item_ok sec i"
proof -
  have "TrimSpace ''LUKS header information'' = ''LUKS header information''"
    by (intro TrimSpace_printable) (simp_all add: printable_def)
  moreover have "(n::nat) < maxKeyslots \<Longrightarrow> n < 2 ^ 63" for n by (simp add: maxKeyslots_def)
  ultimately show ?thesis
    using assms by (auto simp: mem_ok_def mem_items_def entry_ok_def word_ok_def printable_def list_all_iff)
qed

lemma mem_entries:
  "dump_entries ''Keyslots'' (mem_items h) = map (\<lambda>(n, _). (int n, ''luks2'')) (fst h)"
  "dump_entries ''Tokens'' (mem_items h) = map (\<lambda>(n, j). (int n, token_type j)) (snd h)"
  by (auto simp: dump_entries_def mem_items_def split_def)

lemma mem_dump:
  assumes "mem_ok h"
  shows "luksDump mem_cs h = Inr (dump_text (mem_items h))"
    and "usedKeyslots (dump_text (mem_items h)) = map (int \<circ> fst) (fst h)"
    and "tokenIDsOfType (dump_text (mem_items h)) ty =
      map (int \<circ> fst) (filter (\<lambda>(_, j). token_type j = ty) (snd h))"
proof -
  have ne: "mem_items h \<noteq> []" by (simp add: mem_items_def)
  show "luksDump mem_cs h = Inr (dump_text (mem_items h))" using assms by (simp add: mem_cs_def)
  show "usedKeyslots (dump_text (mem_items h)) = map (int \<circ> fst) (fst h)"
    using dump_parses [OF ne mem_items_ok [OF assms]]
    by (simp add: usedKeyslots_def mem_entries split_def comp_def)
  show "tokenIDsOfType (dump_text (mem_items h)) ty =
      map (int \<circ> fst) (filter (\<lambda>(_, j). token_type j = ty) (snd h))"
    using dump_parses [OF ne mem_items_ok [OF assms]]
    by (simp add: tokenIDsOfType_def mem_entries split_def comp_def filter_map)
qed

lemma mem_items_ne: "mem_items h \<noteq> []"
  by (simp add: mem_items_def)

lemma mem_shows:
  assumes "mem_ok h"
  shows "shows_header mem_keys mem_toks h (mem_items h)"
proof -
  have "set (snd h) = {(n, j). mem_toks h n = Some j}"
    using assms by (auto simp: mem_toks_def mem_ok_def dest: map_of_SomeD)
  then have "set (dump_entries ''Tokens'' (mem_items h)) = {(int n, token_type j) | n j. mem_toks h n = Some j}"
    by (auto simp: mem_entries)
  moreover have "fst ` set (dump_entries ''Keyslots'' (mem_items h)) = int ` dom (mem_keys h)"
    using assms by (force simp: mem_entries mem_keys_def dom_map_of_conv_image_fst)
  ultimately show ?thesis
    using mem_items_ok [OF assms, of "''Keyslots''"] mem_items_ok [OF assms, of "''Tokens''"]
    by (simp add: shows_header_def mem_items_ne)
qed

lemma mem_cs_ok: "cryptsetup_ok mem_cs mem_keys mem_toks"
  unfolding cryptsetup_ok_def
proof (intro conjI)
  show "dump_law mem_cs mem_keys mem_toks"
    using mem_shows by (auto simp: dump_law_def mem_cs_def split: if_splits)
  show "header_law mem_keys mem_toks"
    by (auto simp: header_law_def mem_keys_def mem_toks_def mem_ok_def list_all_iff
        split: if_splits dest!: map_of_SomeD)
  show "export_law mem_cs mem_toks"
    unfolding export_law_def
  proof (intro allI impI)
    fix i k h s
    assume "tokenExport mem_cs i k h = Inr s"
    then obtain j where j: "0 \<le> i" "mem_ok h" "map_of (snd h) (nat i) = Some j" "s = json_print j"
      by (auto simp: mem_cs_def split: if_splits)
    then have "json_wf j" by (auto simp: mem_ok_def list_all_iff dest!: map_of_SomeD)
    with j show "\<exists>n j. i = int n \<and> mem_toks h n = Some j \<and> json_parse s = Inr j"
      by (intro exI [of _ "nat i"] exI [of _ j]) (simp add: mem_toks_def parse_print)
  qed
  show "add_law mem_cs mem_keys mem_toks"
    unfolding add_law_def mem_cs_def
    by (auto simp: attempt_Inr mem_keys_def mem_toks_def map_of_eq_None_iff mem_ok_def ran_distinct)
  show "kill_law mem_cs mem_keys mem_toks"
    unfolding kill_law_def mem_cs_def
    by (auto simp: attempt_Inr mem_keys_def mem_toks_def map_of_without map_of_eq_None_iff
        split: option.splits intro!: exI [of _ "nat _"] dest: weak_map_of_SomeI)
  show "remove_law mem_cs mem_keys mem_toks"
    unfolding remove_law_def mem_cs_def
    by (auto simp: attempt_Inr mem_keys_def mem_toks_def map_of_without intro!: exI [of _ "nat _"])
  show "import_law mem_cs mem_keys mem_toks"
    unfolding import_law_def
  proof (intro allI impI)
    fix i s h h'
    assume a: "tokenImport mem_cs i s h = (Inr (), h')"
    then obtain j where j: "json_parse s = Inr j"
      by (auto simp: mem_cs_def attempt_Inr split: sum.splits)
    let ?n = "case i of Some i \<Rightarrow> nat i | None \<Rightarrow> Suc (Max (insert 0 (fst ` set (snd h))))"
    from a j have b: "case i of Some i \<Rightarrow> 0 \<le> i | None \<Rightarrow> True" "?n \<notin> fst ` set (snd h)" "mem_ok h"
      "mem_ok h'" "h' = (fst h, (?n, j) # snd h)"
      by (simp_all add: mem_cs_def attempt_Inr Let_def)
    then have "mem_keys h' = mem_keys h" "mem_toks h ?n = None" "mem_toks h' = (mem_toks h)(?n \<mapsto> j)"
      "i = None \<or> i = Some (int ?n)"
      by (simp_all add: mem_keys_def mem_toks_def map_of_eq_None_iff split: option.splits)
    with j show "mem_keys h' = mem_keys h \<and> (\<exists>n j. (i = None \<or> i = Some (int n)) \<and>
        mem_toks h n = None \<and> json_parse s = Inr j \<and> mem_toks h' = (mem_toks h)(n \<mapsto> j))" by blast
  qed
  show "fail_law mem_cs mem_keys mem_toks"
    unfolding fail_law_def mem_cs_def same_header_def
    by (auto simp: Let_def dest!: attempt_Inl split: option.splits sum.splits)
  show "test_law mem_cs mem_keys"
    unfolding test_law_def mem_cs_def
    by (auto simp: mem_keys_def mem_ok_def ran_distinct)
qed

section \<open>An enrolment on it\<close>

definition demo_phone :: string where
  "demo_phone = ''PHONE''"

definition demo_U :: "mem_header unlocker" where
  "demo_U = \<lparr>cs = mem_cs, cr = plain_crypto, gr = p256Group zn_nistec,
     DeviceIDFromString = (\<lambda>s. if s = demo_phone then Inr s else Inl (Err ''not a device ID''))\<rparr>"

lemma demo_U_sel [simp]:
  "cs demo_U = mem_cs" "cr demo_U = plain_crypto" "gr demo_U = p256Group zn_nistec"
  by (simp_all add: demo_U_def)

lemma demo_trim: "TrimSpace demo_phone = demo_phone"
  unfolding demo_phone_def by (intro TrimSpace_printable) (simp_all add: printable_def)

lemma demo_devid_ok: "devid_ok demo_U"
  using demo_trim by (simp add: devid_ok_def demo_U_def) (simp add: demo_phone_def is_ascii_def)

lemma demo_canonical: "canonicalDeviceID demo_U demo_phone = Inr demo_phone"
  using demo_trim by (simp add: canonicalDeviceID_def demo_U_def) (simp add: demo_phone_def)

definition demo_rec :: "recipient \<Rightarrow> recipient" where
  "demo_rec rec = rec\<lparr>Transport := Some (JObj [(''device_id'', JStr demo_phone)])\<rparr>"

lemma demo_rec_wf: "recipient_wf (demo_rec rec)"
  by (simp add: demo_rec_def recipient_wf_def demo_phone_def valid_utf8_ascii is_ascii_def)

lemma word_ok_mr: "word_ok mrTokenType"
  by (simp add: word_ok_def mrTokenType_def printable_def)

definition demo_pass :: bytes where
  "demo_pass = [112]"

abbreviation demo_rng :: bytes where
  "demo_rng \<equiv> demo_secret @ scalar 3 @ demo_nonce"

abbreviation demo_pub :: bytes where
  "demo_pub \<equiv> ptBytes zn_nistec 2"

definition demo_h0 :: mem_header where
  "demo_h0 = ([(0, demo_pass)], [])"

definition demo_tok :: "recipient \<Rightarrow> token" where
  "demo_tok rec = add_recipient (fresh_token ''host'' ''M'') 1 (demo_rec rec)"

definition demo_h1 :: "recipient \<Rightarrow> mem_header" where
  "demo_h1 rec = ([(1, luksKeyMaterial demo_secret), (0, demo_pass)], [(1, token_json (demo_tok rec))])"

lemma demo_tok_wf: "token_wf (demo_tok rec)"
  unfolding demo_tok_def
  by (intro token_wf_add demo_rec_wf token_wf_fresh) (simp_all add: valid_utf8_ascii is_ascii_def)

lemma demo_h_ok: "mem_ok demo_h0" "mem_ok (demo_h1 rec)"
  using token_wf_json [OF demo_tok_wf] word_ok_mr
  by (simp_all add: mem_ok_def demo_h0_def demo_h1_def maxKeyslots_def token_type_marshal)

lemma free_next: "lowestFreeKeyslot d = Inr k"
  if "usedKeyslots d = us" "k < maxKeyslots" "int k \<notin> set us" "\<forall>j < k. int j \<in> set us" for d us k
proof -
  have "find (\<lambda>i. int i \<notin> set us) [0..<maxKeyslots] = Some k"
    using that(2-4) by (auto simp: find_Some_iff intro!: exI [of _ k])
  with that(1) show ?thesis by (simp add: lowestFreeKeyslot_def Let_def)
qed

lemma demo_enrol_run:
  obtains rec where
    "Enrol (p256Group zn_nistec) plain_crypto demo_pub demo_rng = Inr (demo_secret, rec, [])"
    "enrolRecipient demo_U demo_pass demo_pub ''host'' ''M'' demo_phone demo_h0 demo_rng =
      (Inr (), demo_h1 rec, [])"
proof -
  obtain rec where rec: "Enrol (p256Group zn_nistec) plain_crypto demo_pub demo_rng =
      Inr (demo_secret, rec, [])"
    using demo_enrol by blast
  let ?d = "dump_text (mem_items demo_h0)"
  note d = mem_dump [OF demo_h_ok(1)]
  have slot: "lowestFreeKeyslot ?d = Inr 1"
    using d(2) by (intro free_next [of _ "[0]"]) (simp_all add: demo_h0_def maxKeyslots_def)
  have load: "loadToken demo_U demo_h0 ?d ''host'' ''M'' = Inr (fresh_token ''host'' ''M'', -1)"
    using d(3) [of mrTokenType] by (simp add: loadToken_def demo_h0_def fresh_token_def)
  have blob: "recipientTransportBlob demo_U demo_phone = Inr (JObj [(''device_id'', JStr demo_phone)])"
    by (simp add: recipientTransportBlob_def demo_canonical)
  have ph: "demo_phone \<noteq> []" by (simp add: demo_phone_def)
  let ?h = "([(1, luksKeyMaterial demo_secret), (0, demo_pass)], [])"
  have ok: "mem_ok ?h" by (simp add: mem_ok_def maxKeyslots_def)
  have add: "luksAddKey mem_cs demo_pass (luksKeyMaterial demo_secret) 1 demo_h0 = (Inr (), ?h)"
    using demo_h_ok(1) ok by (simp add: mem_cs_def attempt_def demo_h0_def)
  have imp: "tokenImport mem_cs None (json_print (token_json (demo_tok rec))) ?h =
      (Inr (), demo_h1 rec)"
    using parse_print [OF token_wf_json [OF demo_tok_wf [of rec]]] ok demo_h_ok(2) [of rec]
    by (simp add: mem_cs_def attempt_def demo_h1_def)
  have w: "writeToken demo_U (demo_tok rec) (-1) ?h = (Inr (), demo_h1 rec)"
    using imp by (simp add: writeToken_def)
  have "enrolRecipient demo_U demo_pass demo_pub ''host'' ''M'' demo_phone demo_h0 demo_rng =
      (Inr (), demo_h1 rec, [])"
    using d(1) load slot rec blob ph add w
    by (simp add: enrolRecipient_def demo_tok_def add_recipient_def demo_rec_def)
  with that rec show thesis by blast
qed

lemma demo_mr_token: "mr_token mem_toks (demo_h1 rec) 1 (demo_tok rec)"
  using demo_h_ok(2) by (intro mr_token_marshal [OF demo_tok_wf]) (simp add: mem_toks_def demo_h1_def)

lemma demo_h0_header_ok: "header_ok mem_keys mem_toks demo_h0"
  using demo_h_ok(1) by (simp add: header_ok_def mem_toks_def demo_h0_def)

lemma demo_h1_header_ok: "header_ok mem_keys mem_toks (demo_h1 rec)"
proof (rule header_okI [of 1 _ _ "demo_tok rec", OF _ _ demo_tok_wf])
  show "token_type j \<noteq> mrTokenType" if "m \<noteq> 1" "mem_toks (demo_h1 rec) m = Some j" for m j
    using that demo_h_ok(2) [of rec] by (simp add: mem_toks_def demo_h1_def)
  show "mem_toks (demo_h1 rec) 1 = Some (token_json (demo_tok rec))"
    using demo_h_ok(2) [of rec] by (simp add: mem_toks_def demo_h1_def)
  show "names_slots (mem_keys (demo_h1 rec)) (demo_tok rec)"
    using demo_h_ok(2) [of rec]
    by (simp add: mem_keys_def demo_h1_def names_slots_def demo_tok_def add_recipient_def fresh_token_def)
qed

lemma enrolRecipient_correct_witness:
  "\<exists>h' slot. enrolRecipient demo_U demo_pass demo_pub ''host'' ''M'' demo_phone demo_h0 demo_rng =
      (Inr (), h', []) \<and>
    mem_keys demo_h0 slot = None \<and> mem_keys h' slot = Some (luksKeyMaterial demo_secret)"
proof -
  obtain rec where rec: "Enrol (p256Group zn_nistec) plain_crypto demo_pub demo_rng = Inr (demo_secret, rec, [])"
    and run: "enrolRecipient demo_U demo_pass demo_pub ''host'' ''M'' demo_phone demo_h0 demo_rng =
      (Inr (), demo_h1 rec, [])"
    by (rule demo_enrol_run)
  have "cryptsetup_ok (cs demo_U) mem_keys mem_toks" by (simp add: mem_cs_ok)
  from enrolRecipient_correct [OF this demo_devid_ok _ _ demo_h0_header_ok run] rec run
  show ?thesis by (auto simp: valid_utf8_ascii is_ascii_def)
qed

end
