(* ===== verification/RotationDemo.thy ===== *)
theory RotationDemo
  imports HeaderDemo
begin

text \<open>
  Removing, planning and rotating on the header in memory of theory \<open>HeaderDemo\<close>: the
  witnesses of the corresponding properties of theory \<open>Enrolment\<close>.
\<close>

section \<open>Headers with one mr-1 token\<close>

definition one_token :: "token \<Rightarrow> (nat \<times> bytes) list \<Rightarrow> mem_header" where
  "one_token t ks = (ks, [(1, token_json t)])"

lemma one_ok:
  "token_wf t \<Longrightarrow> distinct (map fst ks) \<Longrightarrow> list_all (\<lambda>(n, _). n < maxKeyslots) ks \<Longrightarrow> mem_ok (one_token t ks)"
  using token_wf_json [of t] word_ok_mr
  by (simp add: mem_ok_def one_token_def maxKeyslots_def token_type_marshal)

lemma one_load:
  assumes ok: "mem_ok (one_token t ks)" and wf: "token_wf t"
  shows "loadToken demo_U (one_token t ks) (dump_text (mem_items (one_token t ks))) n m = Inr (t, 1)"
proof -
  have ids: "tokenIDsOfType (dump_text (mem_items (one_token t ks))) mrTokenType = [1]"
    using mem_dump(3) [OF ok, of mrTokenType] by (simp add: one_token_def token_type_marshal)
  have "exportToken mem_cs 1 (one_token t ks) 1 k = Inr (json_print (token_json t))" for k
    using ok by (cases k) (simp_all add: mem_cs_def one_token_def)
  then show ?thesis
    using ids wf parse_print [OF token_wf_json [OF wf]] token_reads_back [of t]
    by (simp add: loadToken_def token_wf_def)
qed

lemma one_load_enrolled:
  assumes "mem_ok (one_token t ks)" "token_wf t" "length (Keyslots t) = length (Recipients t)"
  shows "loadEnrolledToken demo_U dev (one_token t ks) = Inr (t, 1)"
  using assms one_load [OF assms(1,2)] mem_dump(1) [OF assms(1)] by (simp add: loadEnrolledToken_def)

lemma one_import:
  assumes "mem_ok (one_token t ks)" "mem_ok (one_token t' ks)" "token_wf t'"
  shows "tokenRemove mem_cs 1 (one_token t ks) = (Inr (), (ks, []))"
    and "tokenImport mem_cs (Some 1) (json_print (token_json t')) (ks, []) =
      (Inr (), one_token t' ks)"
proof -
  have "mem_ok (ks, [])" using assms(1) by (simp add: mem_ok_def one_token_def)
  then show "tokenRemove mem_cs 1 (one_token t ks) = (Inr (), (ks, []))"
    "tokenImport mem_cs (Some 1) (json_print (token_json t')) (ks, []) = (Inr (), one_token t' ks)"
    using assms parse_print [OF token_wf_json [OF assms(3)]]
    by (simp_all add: mem_cs_def attempt_def one_token_def without_def)
qed

lemma one_remove:
  assumes ok: "mem_ok (one_token t ks)" and wf: "token_wf t"
    and i: "Keyslots t ! i = show_nat n" "n \<in> fst ` set ks"
  shows "removeRecipientAt demo_U p t 1 i (one_token t ks) =
    (Inr (), one_token (drop_recipient t i) (without n ks))"
proof -
  have n: "n < maxKeyslots" using ok i(2) by (auto simp: mem_ok_def one_token_def list_all_iff)
  have "fst ` set (without n ks) \<subseteq> fst ` set ks" "distinct (map fst (without n ks))"
    using ok unfolding without_def by (auto simp: mem_ok_def one_token_def distinct_map_filter)
  then have ok1: "mem_ok (one_token t (without n ks))" "mem_ok (one_token (drop_recipient t i) (without n ks))"
    using ok token_wf_json [OF token_wf_drop [OF wf, of i]]
    by (auto simp: mem_ok_def one_token_def list_all_iff without_def token_type_marshal)
  have "Atoi (show_nat n) = Some (int n)"
    using n by (intro Atoi_show_nat) (simp add: maxKeyslots_def)
  then have "luksKillSlot mem_cs p (show_nat n) (one_token t ks) = (Inr (), one_token t (without n ks))"
    using ok ok1(1) i(2) by (simp add: mem_cs_def attempt_def one_token_def)
  moreover note one_import [OF ok1 token_wf_drop [OF wf]]
  ultimately show ?thesis by (simp add: removeRecipientAt_def drop_recipient_def i(1))
qed

section \<open>Planning and removing\<close>

lemma demo_h1_one: "demo_h1 rec = one_token (demo_tok rec) [(1, luksKeyMaterial demo_secret), (0, demo_pass)]"
  by (simp add: demo_h1_def one_token_def)

lemma demo_tok_fields:
  "Keyslots (demo_tok rec) = [show_nat 1]" "Recipients (demo_tok rec) = [demo_rec rec]"
  by (simp_all add: demo_tok_def add_recipient_def fresh_token_def)

lemma demo_found: "recipientsByTransportID demo_U (demo_tok rec) demo_phone = [0]"
  using demo_canonical
  by (simp add: recipientsByTransportID_def demo_tok_fields demo_rec_def TransportDeviceID_def to_struct_def
      canonicalOrRaw_def demo_phone_def Let_def)

lemma demo_remove:
  "removeRecipient demo_U ''/dev/sda'' demo_pass demo_phone [] (demo_h1 rec) =
    (Inr (), one_token (drop_recipient (demo_tok rec) 0) [(0, demo_pass)])"
proof -
  have "mem_ok (one_token (demo_tok rec) [(1, luksKeyMaterial demo_secret), (0, demo_pass)])"
    using demo_h_ok(2) [of rec] by (simp add: demo_h1_one)
  from one_remove [OF this demo_tok_wf, of 0 1] one_load_enrolled [OF this demo_tok_wf]
  show ?thesis
    by (simp add: removeRecipient_def demo_h1_one demo_tok_fields selectRecipient_def demo_found without_def)
qed

lemma removeRecipient_correct_witness:
  "\<exists>rec h'. removeRecipient demo_U ''/dev/sda'' demo_pass demo_phone [] (demo_h1 rec) = (Inr (), h') \<and>
    mem_keys (demo_h1 rec) 1 = Some (luksKeyMaterial demo_secret) \<and>
    header_ok mem_keys mem_toks h' \<and> (\<exists>n. mem_keys h' = (mem_keys (demo_h1 rec))(n := None))"
proof -
  fix rec
  have "mem_keys (demo_h1 rec) 1 = Some (luksKeyMaterial demo_secret)"
    using demo_h_ok(2) [of rec] by (simp add: mem_keys_def demo_h1_def)
  moreover have "cryptsetup_ok (cs demo_U) mem_keys mem_toks" by (simp add: mem_cs_ok)
  ultimately show ?thesis
    using removeRecipient_correct [OF _ demo_h1_header_ok demo_remove, of rec] demo_remove by metis
qed

lemma planEnrolment_correct_witness:
  "\<exists>rec plan. planEnrolment demo_U demo_pub demo_phone (demo_h1 rec) = Inr plan \<and>
    (\<exists>ex. (plan = PlanAlready ex \<or> plan = PlanReplace ex) \<and> exKeyslot ex = show_nat 1)"
proof -
  fix rec
  have ok: "mem_ok (one_token (demo_tok rec) [(1, luksKeyMaterial demo_secret), (0, demo_pass)])"
    using demo_h_ok(2) [of rec] by (simp add: demo_h1_one)
  have load: "loadToken demo_U (demo_h1 rec) (dump_text (mem_items (demo_h1 rec))) [] [] =
      Inr (demo_tok rec, 1)"
    using one_load [OF ok demo_tok_wf] by (simp add: demo_h1_one)
  let ?ex = "\<lparr>exKeyslot = keyslotOf (demo_tok rec) 0, exKid = Kid (demo_rec rec)\<rparr>"
  have run: "planEnrolment demo_U demo_pub demo_phone (demo_h1 rec) =
      Inr (if Kid (demo_rec rec) = sha256Sum plain_crypto demo_pub then PlanAlready ?ex else PlanReplace ?ex)"
    using mem_dump(1) [OF demo_h_ok(2)] load by (simp add: planEnrolment_def demo_found demo_tok_fields Let_def)
  obtain plan where plan: "planEnrolment demo_U demo_pub demo_phone (demo_h1 rec) = Inr plan"
    "plan \<noteq> PlanAdd" unfolding run by (cases "Kid (demo_rec rec) = sha256Sum plain_crypto demo_pub") auto
  have "cryptsetup_ok (cs demo_U) mem_keys mem_toks" by (simp add: mem_cs_ok)
  from planEnrolment_correct [OF this demo_h1_header_ok demo_mr_token plan(1)] plan(2)
  have "\<exists>ex i. (plan = PlanAlready ex \<or> plan = PlanReplace ex) \<and>
      has_transport demo_U (demo_tok rec) demo_phone i \<and> exKeyslot ex = Keyslots (demo_tok rec) ! i"
    by (cases plan) auto
  with plan(1) show ?thesis by (auto simp: has_transport_def demo_tok_fields)
qed

section \<open>Rotating\<close>

lemma one_enrol:
  assumes ok: "mem_ok (one_token t ks)" and wf: "token_wf t"
    and en: "Enrol (p256Group zn_nistec) plain_crypto pub rng = Inr (P, rec, rng')"
    and p: "demo_pass \<in> snd ` set ks"
    and k: "k < maxKeyslots" "k \<notin> fst ` set ks" "\<forall>j < k. j \<in> fst ` set ks"
  shows "enrolRecipient demo_U demo_pass pub n m demo_phone (one_token t ks) rng =
    (Inr (), one_token (add_recipient t k (demo_rec rec)) ((k, luksKeyMaterial P) # ks), rng')"
proof -
  let ?h = "one_token t ks" let ?ks = "(k, luksKeyMaterial P) # ks"
  let ?t = "add_recipient t k (demo_rec rec)"
  have slot: "lowestFreeKeyslot (dump_text (mem_items ?h)) = Inr k"
    using k mem_dump(2) [OF ok]
    by (intro free_next [of _ "map (int \<circ> fst) ks"]) (force simp: one_token_def)+
  have blob: "recipientTransportBlob demo_U demo_phone = Inr (JObj [(''device_id'', JStr demo_phone)])"
    by (simp add: recipientTransportBlob_def demo_canonical)
  have wf': "token_wf ?t" by (rule token_wf_add [OF wf demo_rec_wf])
  have ok': "mem_ok (one_token t ?ks)" "mem_ok (one_token ?t ?ks)"
    by (rule one_ok; use ok k(1,2) wf wf' in \<open>simp add: mem_ok_def one_token_def\<close>)+
  have add: "luksAddKey mem_cs demo_pass (luksKeyMaterial P) k ?h = (Inr (), one_token t ?ks)"
    using ok ok'(1) p k(2) by (simp add: mem_cs_def attempt_def one_token_def)
  have "writeToken demo_U ?t 1 (one_token t ?ks) = (Inr (), one_token ?t ?ks)"
    using one_import [OF ok' wf'] by (simp add: writeToken_def)
  then show ?thesis
    using mem_dump(1) [OF ok] one_load [OF ok wf] slot en blob add
    by (simp add: enrolRecipient_def add_recipient_def demo_rec_def demo_phone_def)
qed

text \<open>The replacement's public key and secret.\<close>

abbreviation demo_pub2 :: bytes where
  "demo_pub2 \<equiv> ptBytes zn_nistec 4"

abbreviation demo_rng2 :: bytes where
  "demo_rng2 \<equiv> replicate 32 8 @ scalar 5 @ demo_nonce"

lemma demo_enrol2:
  "\<exists>rec. Enrol (p256Group zn_nistec) plain_crypto demo_pub2 demo_rng2 = Inr (replicate 32 8, rec, [])"
  using Enrol_total [OF zn_nistec_ok plain_crypto_ok demo_point [OF demo_small], of 4 "replicate 32 8"
      "scalar 5" demo_nonce "[]"]
  by (simp add: be_nat_scalar p256N_def)

lemma demo_replace:
  obtains rec2 h' where
    "Enrol (p256Group zn_nistec) plain_crypto demo_pub2 demo_rng2 = Inr (replicate 32 8, rec2, [])"
    "replaceRecipient demo_U ''/dev/sda'' demo_pass demo_pub2 demo_phone demo_phone [] (demo_h1 rec)
      demo_rng2 = (Inr (), h', [])"
proof -
  obtain rec2 where rec2: "Enrol (p256Group zn_nistec) plain_crypto demo_pub2 demo_rng2 =
      Inr (replicate 32 8, rec2, [])" using demo_enrol2 by blast
  let ?ks = "[(1, luksKeyMaterial demo_secret), (0, demo_pass)]"
  let ?ks' = "(2, luksKeyMaterial (replicate 32 8)) # ?ks"
  let ?t = "add_recipient (demo_tok rec) 2 (demo_rec rec2)"
  have ok: "mem_ok (one_token (demo_tok rec) ?ks)" using demo_h_ok(2) [of rec] by (simp add: demo_h1_one)
  have wf: "token_wf ?t" by (rule token_wf_add [OF demo_tok_wf demo_rec_wf])
  have ok': "mem_ok (one_token ?t ?ks')" by (rule one_ok [OF wf]) (simp_all add: maxKeyslots_def)
  have all2: "(\<forall>j < 2. P j) \<longleftrightarrow> P 0 \<and> P 1" for P :: "nat \<Rightarrow> bool"
    by (metis One_nat_def less_2_cases zero_less_numeral one_less_numeral_iff semiring_norm(76))
  have e: "enrolRecipient demo_U demo_pass demo_pub2 [] [] demo_phone (one_token (demo_tok rec) ?ks)
      demo_rng2 = (Inr (), one_token ?t ?ks', [])"
    by (rule one_enrol [OF ok demo_tok_wf rec2]) (simp_all add: maxKeyslots_def all2)
  have t: "Keyslots ?t = [show_nat 1, show_nat 2]" "Recipients ?t = [demo_rec rec, demo_rec rec2]"
    by (simp_all add: add_recipient_def demo_tok_fields)
  have l: "loadEnrolledToken demo_U ''/dev/sda'' (one_token (demo_tok rec) ?ks) = Inr (demo_tok rec, 1)"
    by (rule one_load_enrolled [OF ok demo_tok_wf]) (simp add: demo_tok_fields)
  have l': "loadEnrolledToken demo_U ''/dev/sda'' (one_token ?t ?ks') = Inr (?t, 1)"
    by (rule one_load_enrolled [OF ok' wf]) (simp add: t)
  have s: "slice_index (Keyslots ?t) (show_nat 1) = Some 0"
    unfolding t slice_index_def by (simp add: upt_conv_Cons)
  have r: "removeRecipientAt demo_U demo_pass ?t 1 0 (one_token ?t ?ks') =
      (Inr (), one_token (drop_recipient ?t 0) (without 1 ?ks'))"
    by (rule one_remove [OF ok' wf]) (simp_all add: t)
  have "replaceRecipient demo_U ''/dev/sda'' demo_pass demo_pub2 demo_phone demo_phone [] (demo_h1 rec)
      demo_rng2 = (Inr (), one_token (drop_recipient ?t 0) (without 1 ?ks'), [])"
    unfolding demo_h1_one replaceRecipient_def l sum.case prod.case Let_def selectRecipient_def demo_found
    using e l' s r by (simp add: demo_tok_fields)
  with rec2 that show thesis by blast
qed

lemma replaceRecipient_correct_witness:
  "\<exists>rec h' n. replaceRecipient demo_U ''/dev/sda'' demo_pass demo_pub2 demo_phone demo_phone []
      (demo_h1 rec) demo_rng2 = (Inr (), h', []) \<and>
    mem_keys (demo_h1 rec) n = None \<and> header_ok mem_keys mem_toks h'"
proof -
  fix rec
  obtain rec2 h' where run: "replaceRecipient demo_U ''/dev/sda'' demo_pass demo_pub2 demo_phone
      demo_phone [] (demo_h1 rec) demo_rng2 = (Inr (), h', [])" by (rule demo_replace)
  have "cryptsetup_ok (cs demo_U) mem_keys mem_toks" by (simp add: mem_cs_ok)
  from replaceRecipient_correct [OF this demo_devid_ok demo_h1_header_ok run] run show ?thesis by metis
qed

lemma replaceRecipient_keeps_a_key_witness:
  "\<exists>rec h'. replaceRecipient demo_U ''/dev/sda'' demo_pass demo_pub2 demo_phone demo_phone []
      (demo_h1 rec) demo_rng2 = (Inr (), h', []) \<and>
    (mem_keys (demo_h1 rec) \<subseteq>\<^sub>m mem_keys h' \<or>
     (\<exists>slot. mem_keys h' slot = Some (luksKeyMaterial (replicate 32 8))))"
proof -
  fix rec
  obtain rec2 h' where e: "Enrol (p256Group zn_nistec) plain_crypto demo_pub2 demo_rng2 =
      Inr (replicate 32 8, rec2, [])"
    and run: "replaceRecipient demo_U ''/dev/sda'' demo_pass demo_pub2 demo_phone
      demo_phone [] (demo_h1 rec) demo_rng2 = (Inr (), h', [])" by (rule demo_replace)
  have "cryptsetup_ok (cs demo_U) mem_keys mem_toks" by (simp add: mem_cs_ok)
  from replaceRecipient_keeps_a_key [OF this demo_devid_ok demo_h1_header_ok run]
  have "mem_keys (demo_h1 rec) \<subseteq>\<^sub>m mem_keys h' \<or>
     (\<exists>slot. mem_keys h' slot = Some (luksKeyMaterial (replicate 32 8)))"
    unfolding demo_U_sel e by blast
  with run show ?thesis by blast
qed

end
