(* ===== verification/AskPassword.thy ===== *)
theory AskPassword
  imports GoTime
begin

text \<open>
  The password requests of systemd (\<open>cmd/synctang-unlocker/agent.go\<close> from \<open>askRequest\<close> on) and
  the choice of the volume that is asking (\<open>discover.go\<close>): reading request files, selecting the
  request to answer, replying to it, and choosing among several enrolled volumes.
\<close>

section \<open>Request files\<close>

record askRequest =
  askSocket :: string
  askId :: string
  notAfter :: nat

definition cryptsetupAskIDPrefix :: string where
  "cryptsetupAskIDPrefix = ''cryptsetup''"

definition zero_askRequest :: askRequest where
  "zero_askRequest = \<lparr>askSocket = [], askId = [], notAfter = 0\<rparr>"

fun parseAskLines :: "string list \<Rightarrow> askRequest \<Rightarrow> askRequest res" where
  "parseAskLines [] req = Inr req"
| "parseAskLines (l # ls) req =
    (let line = TrimSpace l in
     if line = [] \<or> HasPrefix line ''#'' \<or> HasPrefix line ''['' then parseAskLines ls req
     else
       (case cut_at (CHR ''='') line of
          None \<Rightarrow> parseAskLines ls req
        | Some (key, val) \<Rightarrow>
            (let k = TrimSpace key in
             if k = ''Socket'' then parseAskLines ls (req\<lparr>askSocket := TrimSpace val\<rparr>)
             else if k = ''Id'' then parseAskLines ls (req\<lparr>askId := TrimSpace val\<rparr>)
             else if k = ''NotAfter'' then
               (case ParseUint (TrimSpace val) 64 of
                  None \<Rightarrow> Inl (wrap (''unparseable NotAfter '' @ Quote val) (Err ''strconv.ParseUint''))
                | Some n \<Rightarrow> parseAskLines ls (req\<lparr>notAfter := n\<rparr>))
             else parseAskLines ls req)))"

definition parseAskFile :: "string \<Rightarrow> askRequest res" where
  "parseAskFile r =
    (case scan_lines r of (ls, too_long) \<Rightarrow>
       (case parseAskLines ls zero_askRequest of
          Inl e \<Rightarrow> Inl e
        | Inr req \<Rightarrow>
            if too_long then Inl ErrTooLong
            else if askSocket req = [] then Inl (Err ''no Socket= in the request'')
            else Inr req))"

definition wantsCryptsetup :: "askRequest \<Rightarrow> bool" where
  "wantsCryptsetup a = HasPrefix (askId a) cryptsetupAskIDPrefix"

definition expired :: "askRequest \<Rightarrow> nat \<Rightarrow> bool" where
  "expired a nowUsec \<longleftrightarrow> notAfter a \<noteq> 0 \<and> nowUsec \<ge> notAfter a"

text \<open>
  A directory: its entries in the order \<open>os.ReadDir\<close> returns them, each with its name, what
  opening and reading it gives, and the clock (\<open>monotonicNowUsec\<close>) while it is looked at.
\<close>

record ask_entry =
  entryName :: string
  entryText :: "string res"
  entryNow :: "nat res"

definition pending_entry :: "ask_entry \<Rightarrow> askRequest option" where
  "pending_entry en =
    (if \<not> HasPrefix (entryName en) ''ask.'' then None
     else
       (case bind_res (entryText en) parseAskFile of
          Inl _ \<Rightarrow> None
        | Inr req \<Rightarrow>
            if \<not> wantsCryptsetup req then None
            else if notAfter req \<noteq> 0 \<and>
              (case entryNow en of Inr now \<Rightarrow> expired req now | Inl _ \<Rightarrow> False) then None
            else Some req))"

type_synonym ask_dir = "ask_entry list res"

definition pendingCryptsetupRequests :: "string \<Rightarrow> ask_dir \<Rightarrow> askRequest list res" where
  "pendingCryptsetupRequests dir entries =
    (case entries of
       Inl e \<Rightarrow> Inl (wrap (''reading '' @ dir) e)
     | Inr ents \<Rightarrow>
         (let reqs = List.map_filter pending_entry ents in
          if reqs = [] then Inl (Err (''no pending cryptsetup password request in '' @ dir))
          else Inr reqs))"

definition findCryptsetupAskRequest :: "string \<Rightarrow> ask_dir \<Rightarrow> askRequest res" where
  "findCryptsetupAskRequest dir entries =
    (case pendingCryptsetupRequests dir entries of Inl e \<Rightarrow> Inl e | Inr reqs \<Rightarrow> Inr (reqs ! 0))"

section \<open>Which volume is asking\<close>

text \<open>The path a request's Id names, or the empty string.\<close>

definition askIDDevice :: "string \<Rightarrow> string" where
  "askIDDevice ident =
    (case cut_at (CHR '':'') ident of
       None \<Rightarrow> []
     | Some (_, path) \<Rightarrow> if HasPrefix path ''/'' then path else [])"

text \<open>\<open>filepath.EvalSymlinks\<close> reads the file system; a path it cannot resolve stands for itself.\<close>

definition resolvePath :: "(string \<Rightarrow> string res) \<Rightarrow> string \<Rightarrow> string" where
  "resolvePath EvalSymlinks p = (case EvalSymlinks p of Inr r \<Rightarrow> r | Inl _ \<Rightarrow> p)"

definition names_device :: "(string \<Rightarrow> string) \<Rightarrow> string \<Rightarrow> string \<Rightarrow> bool" where
  "names_device resolve device ident \<longleftrightarrow>
    askIDDevice ident \<noteq> [] \<and> resolve (askIDDevice ident) = resolve device"

definition selectAskRequest ::
    "askRequest list \<Rightarrow> string \<Rightarrow> (string \<Rightarrow> string) \<Rightarrow> askRequest \<times> bool" where
  "selectAskRequest reqs device resolve =
    (if reqs = [] then (zero_askRequest, False)
     else
       (case find (\<lambda>r. names_device resolve device (askId r)) reqs of
          Some r \<Rightarrow> (r, True)
        | None \<Rightarrow> (reqs ! 0, True)))"

definition chooseMr1Device ::
    "string \<Rightarrow> string list \<Rightarrow> string list \<Rightarrow> (string \<Rightarrow> string) \<Rightarrow> string res" where
  "chooseMr1Device tokType candidates requestIDs resolve =
    (case candidates of
       [] \<Rightarrow> Inl (Err (''no block device carries an '' @ tokType @ '' token''))
     | [c] \<Rightarrow> Inr c
     | _ \<Rightarrow>
       (let asked = map resolve (filter (\<lambda>p. p \<noteq> []) (map askIDDevice requestIDs)) in
        case find (\<lambda>c. resolve c \<in> set asked) candidates of
          Some c \<Rightarrow> Inr c
        | None \<Rightarrow>
            (let pending =
               (if requestIDs \<noteq> [] then ''the pending password request(s) are for '' @
                   join_with '', '' requestIDs
                else ''no password request is pending yet'') in
             Inl (Err (''several block devices carry an '' @ tokType @ '' token ('' @
               join_with '', '' candidates @ '') and '' @ pending @
               '', so none can be told apart from the others; pass --device'')))))"

section \<open>Replying\<close>

text \<open>
  Datagram sockets by path: connecting to one fails or does not, sending to it fails or does
  not, and what was sent is recorded.
\<close>

record sockets =
  dialErr :: "string \<Rightarrow> goerr option"
  sendErr :: "string \<Rightarrow> goerr option"
  sent :: "(string \<times> bytes) list"

definition answerAskPasswordFor ::
    "(string \<Rightarrow> string res) \<Rightarrow> string \<Rightarrow> ask_dir \<Rightarrow> string \<Rightarrow> bytes \<Rightarrow> sockets \<Rightarrow> unit res \<times> sockets" where
  "answerAskPasswordFor EvalSymlinks dir entries device p s =
    (case pendingCryptsetupRequests dir entries of
       Inl e \<Rightarrow> (Inl e, s)
     | Inr reqs \<Rightarrow>
       (case selectAskRequest reqs device (resolvePath EvalSymlinks) of (req, _) \<Rightarrow>
         (case dialErr s (askSocket req) of
            Some e \<Rightarrow> (Inl (wrap (''dialing '' @ askSocket req) e), s)
          | None \<Rightarrow>
            (case sendErr s (askSocket req) of
               Some e \<Rightarrow> (Inl (wrap (''writing to '' @ askSocket req) e), s)
             | None \<Rightarrow> (Inr (), s\<lparr>sent := sent s @ [(askSocket req, bytes_of ''+'' @ p)]\<rparr>)))))"

definition answerAskPassword ::
    "(string \<Rightarrow> string res) \<Rightarrow> string \<Rightarrow> ask_dir \<Rightarrow> bytes \<Rightarrow> sockets \<Rightarrow> unit res \<times> sockets" where
  "answerAskPassword EvalSymlinks dir entries p s = answerAskPasswordFor EvalSymlinks dir entries [] p s"

section \<open>Lemmas\<close>

lemma pending_entry_Some:
  assumes "pending_entry en = Some req"
  shows "HasPrefix (entryName en) ''ask.'' \<and> HasPrefix (askId req) cryptsetupAskIDPrefix \<and>
    askSocket req \<noteq> [] \<and> (\<forall>now. entryNow en = Inr now \<longrightarrow> \<not> expired req now)"
  using assms
  by (auto simp: pending_entry_def wantsCryptsetup_def parseAskFile_def bind_res_def expired_def
      split: if_splits sum.splits prod.splits)

lemma map_filter_Nil: "List.map_filter f xs = [] \<longleftrightarrow> (\<forall>x \<in> set xs. f x = None)"
  by (induction xs) (auto simp: List.map_filter_simps split: option.splits)

lemma find_map_filter:
  "find P (List.map_filter f xs) = Some r \<Longrightarrow>
    \<exists>i < length xs. f (xs ! i) = Some r \<and> P r \<and> (\<forall>j < i. \<forall>q. f (xs ! j) = Some q \<longrightarrow> \<not> P q)"
proof (induction xs)
  case (Cons x xs)
  show ?case
  proof (cases "\<exists>q. f x = Some q \<and> P q")
    case True
    with Cons.prems show ?thesis by (intro exI [of _ 0]) (auto simp: List.map_filter_simps)
  next
    case False
    with Cons.prems have "find P (List.map_filter f xs) = Some r"
      by (auto simp: List.map_filter_simps split: option.splits if_splits)
    from Cons.IH [OF this] obtain i where "i < length xs" "f (xs ! i) = Some r" "P r"
      "\<forall>j < i. \<forall>q. f (xs ! j) = Some q \<longrightarrow> \<not> P q" by blast
    with False show ?thesis by (intro exI [of _ "Suc i"]) (auto simp: nth_Cons split: nat.split)
  qed
qed (simp add: List.map_filter_simps)

lemma selected_request:
  assumes "List.map_filter pending_entry ents \<noteq> []"
  obtains i req where "i < length ents" "pending_entry (ents ! i) = Some req"
    "fst (selectAskRequest (List.map_filter pending_entry ents) device resolve) = req"
    "if \<exists>en \<in> set ents. \<exists>q. pending_entry en = Some q \<and> names_device resolve device (askId q)
     then names_device resolve device (askId req) \<and>
       (\<forall>j < i. \<forall>q. pending_entry (ents ! j) = Some q \<longrightarrow> \<not> names_device resolve device (askId q))
     else \<forall>j < i. pending_entry (ents ! j) = None"
proof -
  let ?P = "\<lambda>q. names_device resolve device (askId q)" and ?reqs = "List.map_filter pending_entry ents"
  show thesis
  proof (cases "find ?P ?reqs")
    case None
    then have none: "\<not> (\<exists>en \<in> set ents. \<exists>q. pending_entry en = Some q \<and> ?P q)"
      unfolding find_None_all by (force simp: map_filter_def)
    have "find (\<lambda>_. True) ?reqs = Some (?reqs ! 0)" using assms by (cases ?reqs) auto
    from find_map_filter [OF this] obtain i where "i < length ents" "pending_entry (ents ! i) = Some (?reqs ! 0)"
      "\<forall>j < i. pending_entry (ents ! j) = None" by auto
    moreover have "fst (selectAskRequest ?reqs device resolve) = ?reqs ! 0"
      using None assms by (simp add: selectAskRequest_def)
    ultimately show thesis using none by (intro that [of i "?reqs ! 0"]) auto
  next
    case (Some q)
    from find_map_filter [OF Some] obtain i where i: "i < length ents" "pending_entry (ents ! i) = Some q" "?P q"
      "\<forall>j < i. \<forall>q. pending_entry (ents ! j) = Some q \<longrightarrow> \<not> ?P q" by blast
    moreover from i have "\<exists>en \<in> set ents. \<exists>q. pending_entry en = Some q \<and> ?P q" by force
    ultimately show thesis using Some assms that [of i q] by (simp add: selectAskRequest_def)
  qed
qed

lemma pending_request:
  "pendingCryptsetupRequests dir entries = Inr reqs \<Longrightarrow> req \<in> set reqs \<Longrightarrow>
    \<exists>ents en. entries = Inr ents \<and> en \<in> set ents \<and> pending_entry en = Some req"
  by (force simp: pendingCryptsetupRequests_def Let_def map_filter_def split: sum.splits if_splits)

lemma answer_sends:
  assumes "answerAskPasswordFor EvalSymlinks dir entries device p s = (r, s')"
  shows "(r \<noteq> Inr () \<and> s' = s) \<or>
    (\<exists>ents en req. r = Inr () \<and> entries = Inr ents \<and> en \<in> set ents \<and> pending_entry en = Some req \<and>
      s' = s\<lparr>sent := sent s @ [(askSocket req, bytes_of ''+'' @ p)]\<rparr>)"
proof (cases "pendingCryptsetupRequests dir entries")
  case (Inr reqs)
  then obtain ents where en: "entries = Inr ents" "reqs = List.map_filter pending_entry ents" "reqs \<noteq> []"
    by (auto simp: pendingCryptsetupRequests_def Let_def split: sum.splits if_splits)
  obtain i req where i: "i < length ents" "pending_entry (ents ! i) = Some req"
      "fst (selectAskRequest reqs device (resolvePath EvalSymlinks)) = req"
    using en(3) unfolding en(2) by (rule selected_request)
  from i(1) have "ents ! i \<in> set ents" by simp
  with assms Inr i(2,3) en(1) show ?thesis
    by (auto simp: answerAskPasswordFor_def split: prod.splits option.splits)
qed (use assms in \<open>auto simp: answerAskPasswordFor_def\<close>)

lemma names_device_asked:
  "resolve c \<in> set (map resolve (filter (\<lambda>p. p \<noteq> []) (map askIDDevice ids))) \<longleftrightarrow>
    (\<exists>i \<in> set ids. names_device resolve c i)"
  by (auto simp: names_device_def image_iff)

section \<open>Properties\<close>

text \<open>
  C15. A recovered secret goes to exactly one prompt.  When no entry of the directory is a live
  cryptsetup request, nothing is sent.  Otherwise the socket is that of the first live request whose
  Id names the volume, or, when none names it, of the first live request of the directory; the
  secret is sent there in one datagram when the socket takes it, and nowhere else when it does not.
\<close>

theorem answer_goes_to_the_asking_prompt:
  assumes "answerAskPasswordFor EvalSymlinks dir entries device p s = (r, s')"
  shows "(sent s' = sent s \<and> r \<noteq> Inr () \<and> (\<forall>ents. entries = Inr ents \<longrightarrow> (\<forall>en \<in> set ents. pending_entry en = None))) \<or>
    (\<exists>ents i req. entries = Inr ents \<and> i < length ents \<and> pending_entry (ents ! i) = Some req \<and>
      HasPrefix (entryName (ents ! i)) ''ask.'' \<and> HasPrefix (askId req) cryptsetupAskIDPrefix \<and>
      (\<forall>now. entryNow (ents ! i) = Inr now \<longrightarrow> \<not> expired req now) \<and>
      (if \<exists>en \<in> set ents. \<exists>q. pending_entry en = Some q \<and> names_device (resolvePath EvalSymlinks) device (askId q)
       then names_device (resolvePath EvalSymlinks) device (askId req) \<and>
         (\<forall>j < i. \<forall>q. pending_entry (ents ! j) = Some q \<longrightarrow> \<not> names_device (resolvePath EvalSymlinks) device (askId q))
       else \<forall>j < i. pending_entry (ents ! j) = None) \<and>
      (if dialErr s (askSocket req) = None \<and> sendErr s (askSocket req) = None
       then r = Inr () \<and> sent s' = sent s @ [(askSocket req, bytes_of ''+'' @ p)]
       else r \<noteq> Inr () \<and> sent s' = sent s))"
proof (cases "pendingCryptsetupRequests dir entries")
  case (Inl e)
  then have "\<forall>ents. entries = Inr ents \<longrightarrow> List.map_filter pending_entry ents = []"
    by (auto simp: pendingCryptsetupRequests_def Let_def split: if_splits)
  moreover have "r = Inl e" "s' = s" using assms Inl by (simp_all add: answerAskPasswordFor_def)
  ultimately show ?thesis by (simp add: map_filter_Nil)
next
  case (Inr reqs)
  then obtain ents where en: "entries = Inr ents" "reqs = List.map_filter pending_entry ents" "reqs \<noteq> []"
    by (auto simp: pendingCryptsetupRequests_def Let_def split: sum.splits if_splits)
  let ?names = "\<lambda>q. names_device (resolvePath EvalSymlinks) device (askId q)"
  obtain i req where i: "i < length ents" "pending_entry (ents ! i) = Some req"
      "fst (selectAskRequest reqs device (resolvePath EvalSymlinks)) = req"
    and sel: "if \<exists>en \<in> set ents. \<exists>q. pending_entry en = Some q \<and> ?names q
       then ?names req \<and> (\<forall>j < i. \<forall>q. pending_entry (ents ! j) = Some q \<longrightarrow> \<not> ?names q)
       else \<forall>j < i. pending_entry (ents ! j) = None"
    using en(3) unfolding en(2) by (rule selected_request)
  have "if dialErr s (askSocket req) = None \<and> sendErr s (askSocket req) = None
       then r = Inr () \<and> sent s' = sent s @ [(askSocket req, bytes_of ''+'' @ p)]
       else r \<noteq> Inr () \<and> sent s' = sent s"
    using assms Inr i(3) by (auto simp: answerAskPasswordFor_def split: prod.splits option.splits)
  with en(1) i(1,2) sel pending_entry_Some [OF i(2)] show ?thesis by blast
qed

text \<open>
  With several enrolled volumes one is chosen only when a pending request names it, and it
  is the first such; the choice is refused only when no candidate is asked for.
\<close>

theorem chooseMr1Device_asked:
  assumes "1 < length candidates"
  shows "case chooseMr1Device ty candidates ids resolve of
      Inr c \<Rightarrow> (\<exists>i < length candidates. candidates ! i = c \<and>
        (\<exists>q \<in> set ids. names_device resolve c q) \<and>
        (\<forall>j < i. \<forall>q \<in> set ids. \<not> names_device resolve (candidates ! j) q))
    | Inl _ \<Rightarrow> \<forall>c \<in> set candidates. \<forall>q \<in> set ids. \<not> names_device resolve c q"
proof -
  obtain a b rest where c: "candidates = a # b # rest"
    using assms by (cases candidates; cases "tl candidates") auto
  let ?P = "\<lambda>c. resolve c \<in> set (map resolve (filter (\<lambda>p. p \<noteq> []) (map askIDDevice ids)))"
  have ch: "chooseMr1Device ty candidates ids resolve = Inr x" if "find ?P candidates = Some x" for x
    unfolding c chooseMr1Device_def list.case Let_def that [unfolded c] by simp
  have ref: "\<exists>e. chooseMr1Device ty candidates ids resolve = Inl e" if "find ?P candidates = None"
    unfolding c chooseMr1Device_def list.case Let_def that [unfolded c] by simp
  show ?thesis
  proof (cases "find ?P candidates")
    case None
    with ref obtain e where "chooseMr1Device ty candidates ids resolve = Inl e" by blast
    moreover have "\<forall>c \<in> set candidates. \<not> ?P c" using None unfolding find_None_all .
    ultimately show ?thesis unfolding names_device_asked by simp
  next
    case (Some x)
    then obtain i where "i < length candidates" "candidates ! i = x" "?P x"
      "\<forall>j < i. \<not> ?P (candidates ! j)"
      unfolding find_Some_iff by blast
    with ch [OF Some] show ?thesis unfolding names_device_asked by auto
  qed
qed

text \<open>Two volumes, one of them asking, in a directory that also has an unrelated request.\<close>

definition demo_ask_dir :: ask_dir where
  "demo_ask_dir = Inr
    [\<lparr>entryName = ''ask.a'', entryText = Inr (''Id=ssh'' @ [CHR 0x0A] @ ''Socket=/s1''), entryNow = Inr 5\<rparr>,
     \<lparr>entryName = ''ask.b'', entryText = Inr (''Id=cryptsetup:/dev/b'' @ [CHR 0x0A] @ ''Socket=/s2''),
       entryNow = Inr 5\<rparr>]"

definition demo_sockets :: sockets where
  "demo_sockets = \<lparr>dialErr = (\<lambda>_. None), sendErr = (\<lambda>_. None), sent = []\<rparr>"

lemma demo_trims:
  "TrimSpace ''Id=ssh'' = ''Id=ssh''" "TrimSpace ''Id'' = ''Id''" "TrimSpace ''ssh'' = ''ssh''"
  "TrimSpace ''Socket=/s1'' = ''Socket=/s1''" "TrimSpace ''Socket'' = ''Socket''" "TrimSpace ''/s1'' = ''/s1''"
  "TrimSpace ''Id=cryptsetup:/dev/b'' = ''Id=cryptsetup:/dev/b''"
  "TrimSpace ''cryptsetup:/dev/b'' = ''cryptsetup:/dev/b''"
  "TrimSpace ''Socket=/s2'' = ''Socket=/s2''" "TrimSpace ''/s2'' = ''/s2''"
  by (intro TrimSpace_printable; simp add: printable_def)+

lemma demo_pending:
  "pendingCryptsetupRequests ''/run'' demo_ask_dir =
    Inr [\<lparr>askSocket = ''/s2'', askId = ''cryptsetup:/dev/b'', notAfter = 0\<rparr>]"
  by (simp add: pendingCryptsetupRequests_def demo_ask_dir_def pending_entry_def parseAskFile_def
      scan_lines_def raw_lines_def drop_cr_def maxScanTokenSize_def demo_trims zero_askRequest_def
      wantsCryptsetup_def cryptsetupAskIDPrefix_def map_filter_def)

lemma answer_goes_to_the_asking_prompt_witness:
  "\<exists>s' sock. answerAskPasswordFor Inr ''/run'' demo_ask_dir ''/dev/b'' [7] demo_sockets = (Inr (), s') \<and>
    sent s' = [(sock, [43, 7])]"
proof -
  have "fst (answerAskPasswordFor Inr ''/run'' demo_ask_dir ''/dev/b'' [7] demo_sockets) = Inr ()"
    by (simp add: answerAskPasswordFor_def demo_pending selectAskRequest_def demo_sockets_def
        split: option.split prod.split)
  then obtain s' where run: "answerAskPasswordFor Inr ''/run'' demo_ask_dir ''/dev/b'' [7] demo_sockets = (Inr (), s')"
    by (cases "answerAskPasswordFor Inr ''/run'' demo_ask_dir ''/dev/b'' [7] demo_sockets") simp
  from answer_goes_to_the_asking_prompt [OF run] obtain sock where
    "sent s' = sent demo_sockets @ [(sock, bytes_of ''+'' @ [7])]"
    by (auto split: if_splits)
  with run show ?thesis by (auto simp: demo_sockets_def bytes_of_def)
qed

lemma chooseMr1Device_asked_witness:
  "chooseMr1Device ''mr-1'' [''/dev/a'', ''/dev/b''] [''cryptsetup:/dev/b''] (\<lambda>p. p) = Inr ''/dev/b'' \<and>
    (\<exists>q \<in> {''cryptsetup:/dev/b''}. names_device (\<lambda>p. p) ''/dev/b'' q)"
proof -
  have c: "chooseMr1Device ''mr-1'' [''/dev/a'', ''/dev/b''] [''cryptsetup:/dev/b''] (\<lambda>p. p) = Inr ''/dev/b''"
    by code_simp
  have "1 < length [''/dev/a'', ''/dev/b'']" by simp
  from chooseMr1Device_asked [OF this, where ty = "''mr-1''" and ids = "[''cryptsetup:/dev/b'']" and resolve = "\<lambda>p. p", unfolded c]
  show ?thesis using c by auto
qed

end
