(* ===== verification/Exchange.thy ===== *)
theory Exchange
  imports Enrolment AskPassword Label
begin

text \<open>
  The machine's side of a recovery, \<open>cmd/synctang-unlocker/agent.go\<close>: whom to listen for, the
  exchange with the key holder that connected, the check of what it answered, and the delivery
  of the key material.  A \<open>transport\<close> is what \<open>Listen\<close> returns for a list of authorized peers;
  the delivery is a function over some state \<open>'w\<close> of the machine.
\<close>

section \<open>Whom to listen for\<close>

abbreviation quoted :: "string \<Rightarrow> string" where
  "quoted s \<equiv> [CHR 0x27] @ s @ [CHR 0x27]"

definition authorizedPeersFor :: "'h unlocker \<Rightarrow> token \<Rightarrow> string list res" where
  "authorizedPeersFor U tok =
    (let peers = map (canonicalOrRaw U) (List.map_filter TransportDeviceID (Recipients tok)) in
     if peers = [] then
       Inl (Err (''synctang-unlocker: no enrolled recipient has a transport id, so no key holder '' @
         ''could be told apart from a stranger; enrol again with --recipient-transport-id '' @
         ''(see '' @ quoted ''synctang-unlocker status'' @ '')''))
     else Inr peers)"

definition agentNameFor :: "string \<Rightarrow> string \<Rightarrow> string" where
  "agentNameFor flagName tokenName = (if flagName \<noteq> [] then flagName else tokenName)"

definition matchRecipient :: "'h unlocker \<Rightarrow> token \<Rightarrow> string \<Rightarrow> recipient res" where
  "matchRecipient U tok peerID =
    (let idxs = recipientsByTransportID U tok peerID in
     case idxs of
       [] \<Rightarrow> Inl (Err (''synctang-unlocker: connected peer '' @ peerID @
               '' does not match any enrolled recipient''))
     | [i] \<Rightarrow> Inr (Recipients tok ! i)
     | _ \<Rightarrow> Inl (Err (''synctang-unlocker: '' @ show_nat (length idxs) @
              '' enrolled recipients share the transport id '' @ peerID @ '' (keyslots '' @
              join_with '', '' (map (keyslotOf tok) idxs) @
              ''), so the agent will not guess which key is the live one; '' @
              ''run '' @ quoted ''synctang-unlocker status'' @ '', then remove the stale entry with '' @
              quoted (''synctang-unlocker enrol --remove '' @ peerID @ '' --keyslot <n>''))))"

section \<open>The exchange\<close>

text \<open>
  The reads of \<open>waitForPeerClose\<close> throw away what still comes.  The time limits of the exchange
  close the connection, which is a connection whose bytes end or whose writes fail.
\<close>

definition waitForPeerClose :: "conn \<Rightarrow> conn" where
  "waitForPeerClose c = c\<lparr>rx := []\<rparr>"

definition volumeSecretLen :: nat where
  "volumeSecretLen = 32"

definition checkSecretLength :: "bytes \<Rightarrow> unit res" where
  "checkSecretLength P =
    (if length P \<noteq> volumeSecretLen then
       Inl (Err (''synctang-unlocker: recovered secret is '' @ show_nat (length P) @ '' bytes, expected '' @
         show_nat volumeSecretLen @ ''; this token was not written by this tool''))
     else Inr ())"

definition report :: "unit res \<Rightarrow> conn \<Rightarrow> unit res \<times> conn" where
  "report outcome c =
    (let m = \<lparr>resOK = is_ok outcome,
              resError = (case outcome of Inl e \<Rightarrow> error_text e | Inr _ \<Rightarrow> [])\<rparr> in
     case WriteMessage (result_to_json m) c of
       (_, c1) \<Rightarrow> (outcome, waitForPeerClose c1))"

text \<open>What the answer recovers: \<open>switch { case len(resp.Y) > 0: \<dots> }\<close> and the length check.\<close>

definition finishAnswer ::
    "'h unlocker \<Rightarrow> recipient \<Rightarrow> bytes \<Rightarrow> recover_response \<Rightarrow> bytes res" where
  "finishAnswer U matched e resp =
    (if respY resp = [] \<and> respXOnly resp = [] then
       Inl (Err ''synctang-unlocker: recover response carries neither Y nor XOnly'')
     else
       (case (if respY resp \<noteq> [] then FinishFullPoint (gr U) (cr U) e matched (respY resp)
              else FinishXOnly (gr U) (cr U) e matched (respXOnly resp)) of
          Inl err \<Rightarrow> Inl (wrap ''synctang-unlocker: finishing recovery'' err)
        | Inr P \<Rightarrow> (case checkSecretLength P of Inl err \<Rightarrow> Inl err | Inr _ \<Rightarrow> Inr P)))"

type_synonym 'w deliverFunc = "bytes \<Rightarrow> 'w \<Rightarrow> unit res \<times> 'w"

definition useAnswer ::
    "'h unlocker \<Rightarrow> string \<Rightarrow> recipient \<Rightarrow> bytes \<Rightarrow> recover_response \<Rightarrow> 'w deliverFunc \<Rightarrow> 'h \<Rightarrow> 'w \<Rightarrow>
      unit res \<times> 'w" where
  "useAnswer U device matched e resp deliver h w =
    (case finishAnswer U matched e resp of
       Inl err \<Rightarrow> (Inl err, w)
     | Inr P \<Rightarrow>
         (case verifyPassphrase U h (luksKeyMaterial P) of
            Inl err \<Rightarrow>
              (Inl (wrap (''synctang-unlocker: recovered secret does not open '' @ device) err), w)
          | Inr _ \<Rightarrow> deliver (luksKeyMaterial P) w))"

definition runExchange ::
    "'h unlocker \<Rightarrow> conn \<Rightarrow> token \<Rightarrow> string \<Rightarrow> string \<Rightarrow> 'w deliverFunc \<Rightarrow> 'h \<Rightarrow> 'w \<Rightarrow> bytes \<Rightarrow>
      unit res \<times> conn \<times> 'w \<times> bytes" where
  "runExchange U c tok device machineName deliver h w rng =
    (case matchRecipient U tok (PeerID c) of
       Inl e \<Rightarrow> (Inl e, c, w, rng)
     | Inr matched \<Rightarrow>
    (case WriteMessage (hello_to_json \<lparr>helloName = machineName\<rparr>) c of
       (Inl e, c1) \<Rightarrow> (Inl (wrap ''synctang-unlocker: sending hello'' e), c1, w, rng)
     | (Inr _, c1) \<Rightarrow>
    (case ChallengeStart (gr U) (rC matched) rng of
       Inl e \<Rightarrow> (Inl (wrap ''synctang-unlocker: starting challenge'' e), c1, w, rng)
     | Inr (e, X, rng') \<Rightarrow>
    (case WriteMessage (request_to_json \<lparr>reqKid = Kid matched, reqX = X\<rparr>) c1 of
       (Inl err, c2) \<Rightarrow> (Inl (wrap ''synctang-unlocker: sending recover request'' err), c2, w, rng')
     | (Inr _, c2) \<Rightarrow>
    (case ReadMessage response_of_json c2 of
       (Inl err, c3) \<Rightarrow> (Inl (wrap ''synctang-unlocker: reading recover response'' err), c3, w, rng')
     | (Inr resp, c3) \<Rightarrow>
       if respError resp \<noteq> [] then
         (Inl (Err (''synctang-unlocker: key holder declined: '' @ SafeLabel (respError resp) 200)),
          c3, w, rng')
       else
         (case useAnswer U device matched e resp deliver h w of
            (outcome, w') \<Rightarrow> (case report outcome c3 of (r, c4) \<Rightarrow> (r, c4, w', rng'))))))))"

section \<open>Serving one key holder\<close>

definition ErrNoPeerID :: goerr where
  "ErrNoPeerID = Err (''transport: Dial needs a PeerID to pin the peer'' @ [CHR 0x27] @ ''s identity'')"

record listen_options =
  AuthorizedPeers :: "string list"
  loDirectAddr :: string

type_synonym transport_listen = "listen_options \<Rightarrow> conn res"

definition serveOneExchange ::
    "'h unlocker \<Rightarrow> string \<Rightarrow> string \<Rightarrow> listen_options \<Rightarrow> transport_listen \<Rightarrow> 'w deliverFunc \<Rightarrow>
      'h \<Rightarrow> 'w \<Rightarrow> bytes \<Rightarrow> unit res \<times> conn option \<times> 'w \<times> bytes" where
  "serveOneExchange U device machineName listenOpts Listen deliver h w rng =
    (case luksDump (cs U) h of
       Inl e \<Rightarrow> (Inl (wrap ''synctang-unlocker: reading LUKS header'' e), None, w, rng)
     | Inr dump \<Rightarrow>
    (case loadToken U h dump machineName [] of
       Inl e \<Rightarrow> (Inl (wrap ''synctang-unlocker: loading token'' e), None, w, rng)
     | Inr (tok, existingTokenID) \<Rightarrow>
       if existingTokenID < 0 then
         (Inl (Err (''synctang-unlocker: '' @ device @ '' has no enrolled mr-1 recipients'')), None, w, rng)
       else
         (case authorizedPeersFor U tok of
            Inl e \<Rightarrow> (Inl e, None, w, rng)
          | Inr peers \<Rightarrow>
         (case Listen (listenOpts\<lparr>AuthorizedPeers := peers\<rparr>) of
            Inl e \<Rightarrow> (Inl (wrap ''synctang-unlocker: listening'' e), None, w, rng)
          | Inr c \<Rightarrow>
              (case runExchange U c tok device (agentNameFor machineName (mName (Machine tok)))
                      deliver h w rng of
                 (r, c', w', rng') \<Rightarrow> (r, Some c', w', rng'))))))"

text \<open>The agent's own delivery is the reply to systemd.\<close>

definition runAgentOnce ::
    "'h unlocker \<Rightarrow> (string \<Rightarrow> string res) \<Rightarrow> string \<Rightarrow> string \<Rightarrow> string \<Rightarrow> ask_dir \<Rightarrow> listen_options \<Rightarrow>
      transport_listen \<Rightarrow> 'h \<Rightarrow> sockets \<Rightarrow> bytes \<Rightarrow> unit res \<times> conn option \<times> sockets \<times> bytes" where
  "runAgentOnce U EvalSymlinks device machineName askPasswordDir entries listenOpts Listen h w rng =
    serveOneExchange U device machineName listenOpts Listen
      (\<lambda>keyMaterial s.
         case answerAskPasswordFor EvalSymlinks askPasswordDir entries device keyMaterial s of
           (Inl e, s') \<Rightarrow> (Inl (wrap ''synctang-unlocker: answering ask-password request'' e), s')
         | (Inr _, s') \<Rightarrow> (Inr (), s'))
      h w rng"

section \<open>Lemmas\<close>

lemma matchRecipient_Inr:
  assumes "matchRecipient U tok peer = Inr rec"
  shows "\<exists>i. has_transport U tok peer i \<and> (\<forall>j. has_transport U tok peer j \<longrightarrow> j = i) \<and>
    rec = Recipients tok ! i"
proof -
  from assms obtain i where "recipientsByTransportID U tok peer = [i]" "rec = Recipients tok ! i"
    by (auto simp: matchRecipient_def Let_def split: list.splits)
  with single_recipient [of U tok peer i] show ?thesis by blast
qed

lemma report_outcome: "report outcome c = (r, c') \<Longrightarrow> r = outcome"
  by (auto simp: report_def Let_def split: prod.splits)

lemma report_writes:
  assumes "report outcome c = (r, c')" and "writes_left c = None"
    and "length (json_print (result_to_json \<lparr>resOK = is_ok outcome,
           resError = (case outcome of Inl e \<Rightarrow> error_text e | Inr _ \<Rightarrow> [])\<rparr>)) \<le> maxMessageSize"
  shows "tx c' = tx c @ frame (result_to_json \<lparr>resOK = is_ok outcome,
           resError = (case outcome of Inl e \<Rightarrow> error_text e | Inr _ \<Rightarrow> [])\<rparr>)"
  using assms by (auto simp: report_def Let_def WriteMessage_ok waitForPeerClose_def)

text \<open>
  What has to have happened for anything to be delivered, or for the exchange to succeed: on the
  connection, whose peer is enrolled exactly once, the machine sent the challenge it drew and read an
  answer that is no refusal, and that answer finished the recovery of a secret that opens the volume.
\<close>

definition answered ::
    "'h unlocker \<Rightarrow> conn \<Rightarrow> token \<Rightarrow> 'h \<Rightarrow> bytes \<Rightarrow> bytes \<Rightarrow> bool" where
  "answered U c tok h rng P \<longleftrightarrow>
    (\<exists>i name e X rng' c1 c2 c3 resp. has_transport U tok (PeerID c) i \<and>
      (\<forall>j. has_transport U tok (PeerID c) j \<longrightarrow> j = i) \<and>
      ChallengeStart (gr U) (rC (Recipients tok ! i)) rng = Inr (e, X, rng') \<and>
      WriteMessage (hello_to_json \<lparr>helloName = name\<rparr>) c = (Inr (), c1) \<and>
      WriteMessage (request_to_json \<lparr>reqKid = Kid (Recipients tok ! i), reqX = X\<rparr>) c1 = (Inr (), c2) \<and>
      ReadMessage response_of_json c2 = (Inr resp, c3) \<and> respError resp = [] \<and>
      (FinishFullPoint (gr U) (cr U) e (Recipients tok ! i) (respY resp) = Inr P \<or>
       FinishXOnly (gr U) (cr U) e (Recipients tok ! i) (respXOnly resp) = Inr P) \<and>
      length P = volumeSecretLen \<and> testPassphrase (cs U) (luksKeyMaterial P) h = Inr ())"

lemma finishAnswer_Inr:
  assumes "finishAnswer U matched e resp = Inr P"
  shows "(FinishFullPoint (gr U) (cr U) e matched (respY resp) = Inr P \<or>
      FinishXOnly (gr U) (cr U) e matched (respXOnly resp) = Inr P) \<and> length P = volumeSecretLen"
  using assms by (auto simp: finishAnswer_def checkSecretLength_def split: if_splits sum.splits)

lemma runExchange_steps:
  assumes "runExchange U c tok device name deliver h w rng = (r, c', w', rng')"
  obtains (stopped) e where "r = Inl e" "w' = w"
  | (went_on) matched c1 e X c2 resp c3 where
      "matchRecipient U tok (PeerID c) = Inr matched"
      "WriteMessage (hello_to_json \<lparr>helloName = name\<rparr>) c = (Inr (), c1)"
      "ChallengeStart (gr U) (rC matched) rng = Inr (e, X, rng')"
      "WriteMessage (request_to_json \<lparr>reqKid = Kid matched, reqX = X\<rparr>) c1 = (Inr (), c2)"
      "ReadMessage response_of_json c2 = (Inr resp, c3)" "respError resp = []"
      "useAnswer U device matched e resp deliver h w = (r, w')" "report r c3 = (r, c')"
proof (cases "matchRecipient U tok (PeerID c)")
  case (Inr m)
  note run = assms [unfolded runExchange_def Inr sum.case]
  obtain q1 c1 where 1: "WriteMessage (hello_to_json \<lparr>helloName = name\<rparr>) c = (q1, c1)" by fastforce
  show thesis
  proof (cases "\<exists>e X rng1. q1 = Inr () \<and> ChallengeStart (gr U) (rC m) rng = Inr (e, X, rng1)")
    case False
    with run 1 stopped show thesis by (auto split: sum.splits)
  next
    case True
    then obtain e X rng1 where 2: "q1 = Inr ()" "ChallengeStart (gr U) (rC m) rng = Inr (e, X, rng1)" by blast
    obtain q2 c2 where 3: "WriteMessage (request_to_json \<lparr>reqKid = Kid m, reqX = X\<rparr>) c1 = (q2, c2)" by fastforce
    obtain q3 c3 where 4: "ReadMessage response_of_json c2 = (q3, c3)" by fastforce
    show thesis
    proof (cases "\<exists>resp. q2 = Inr () \<and> q3 = Inr resp \<and> respError resp = []")
      case False
      with run 1 2 3 4 stopped show thesis by (auto split: sum.splits if_splits)
    next
      case True
      then obtain resp where 5: "q2 = Inr ()" "q3 = Inr resp" "respError resp = []" by blast
      obtain out w1 where 6: "useAnswer U device m e resp deliver h w = (out, w1)" by fastforce
      obtain r1 c4 where 7: "report out c3 = (r1, c4)" by fastforce
      from run 1 2 3 4 5 6 7 report_outcome [OF 7] have "r = out" "w' = w1" "c' = c4" "rng' = rng1" by auto
      with Inr 1 2 3 4 5 6 7 report_outcome [OF 7] went_on show thesis by simp
    qed
  qed
qed (use assms stopped in \<open>auto simp: runExchange_def\<close>)

lemma useAnswer_cases:
  assumes "useAnswer U device matched e resp deliver h w = (r, w')"
  shows "(\<exists>err. r = Inl err \<and> w' = w) \<or>
    (\<exists>P. finishAnswer U matched e resp = Inr P \<and> verifyPassphrase U h (luksKeyMaterial P) = Inr () \<and>
      deliver (luksKeyMaterial P) w = (r, w'))"
  using assms by (auto simp: useAnswer_def split: sum.splits)

lemma runExchange_delivery:
  assumes "runExchange U c tok device name deliver h w rng = (r, c', w', rng')"
  shows "(w' = w \<and> r \<noteq> Inr ()) \<or>
    (\<exists>P. answered U c tok h rng P \<and> deliver (luksKeyMaterial P) w = (r, w'))"
  using assms
proof (cases rule: runExchange_steps)
  case (went_on matched c1 e X c2 resp c3)
  from useAnswer_cases [OF went_on(7)] show ?thesis
  proof
    assume "\<exists>P. finishAnswer U matched e resp = Inr P \<and> verifyPassphrase U h (luksKeyMaterial P) = Inr () \<and>
      deliver (luksKeyMaterial P) w = (r, w')"
    then obtain P where P: "finishAnswer U matched e resp = Inr P"
      "verifyPassphrase U h (luksKeyMaterial P) = Inr ()" "deliver (luksKeyMaterial P) w = (r, w')" by blast
    from matchRecipient_Inr [OF went_on(1)] went_on(2-6) finishAnswer_Inr [OF P(1)] P(2)
    have "answered U c tok h rng P" unfolding answered_def verifyPassphrase_def by blast
    with P(3) show ?thesis by blast
  qed auto
qed auto

end
