(* ===== verification/Keyholder.thy ===== *)
theory Keyholder
  imports Exchange
begin

text \<open>
  The file-backed key holder, \<open>cmd/synctang-keyholder\<close>: its key file (\<open>keystore.go\<close>) and
  one answer to a machine (\<open>unlock.go\<close>).
\<close>

section \<open>The key file\<close>

text \<open>
  Files by path.  Reading may be refused; so may making the directory.  A write that fails may
  have truncated or partly written the file, so the failure says what the file then holds.
\<close>

record filesys =
  files :: "string \<rightharpoonup> bytes"
  readErr :: "string \<Rightarrow> goerr option"
  mkdirErr :: "string \<Rightarrow> goerr option"
  writeErr :: "string \<Rightarrow> (goerr \<times> bytes option) option"

definition os_ReadFile :: "string \<Rightarrow> filesys \<Rightarrow> bytes res" where
  "os_ReadFile p fs =
    (case readErr fs p of
       Some e \<Rightarrow> Inl e
     | None \<Rightarrow>
         (case files fs p of
            None \<Rightarrow> Inl (Err (''open '' @ p @ '': no such file or directory''))
          | Some b \<Rightarrow> Inr b))"

definition os_WriteFile :: "string \<Rightarrow> bytes \<Rightarrow> filesys \<Rightarrow> unit res \<times> filesys" where
  "os_WriteFile p b fs =
    (case writeErr fs p of
       Some (e, left) \<Rightarrow> (Inl e, fs\<lparr>files := (files fs)(p := left)\<rparr>)
     | None \<Rightarrow> (Inr (), fs\<lparr>files := (files fs)(p \<mapsto> b)\<rparr>))"

definition generateAndSave ::
    "group_ops \<Rightarrow> string \<Rightarrow> bool \<Rightarrow> filesys \<Rightarrow> bytes \<Rightarrow> bytes res \<times> filesys \<times> bytes" where
  "generateAndSave g keyFile force fs rng =
    (if \<not> force \<and> files fs keyFile \<noteq> None then
       (Inl (Err (keyFile @ '' already exists, use --force to overwrite'')), fs, rng)
     else
       (case RandomScalar g rng of
          Inl e \<Rightarrow> (Inl (wrap ''generating key'' e), fs, rng)
        | Inr (s, rng') \<Rightarrow>
            (case mkdirErr fs keyFile of
               Some e \<Rightarrow> (Inl (wrap ''creating key directory'' e), fs, rng')
             | None \<Rightarrow>
                 (case os_WriteFile keyFile (bytes_of (hex_EncodeToString s @ [CHR 0x0A])) fs of
                    (Inl e, fs') \<Rightarrow> (Inl (wrap ''writing key file'' e), fs', rng')
                  | (Inr _, fs') \<Rightarrow> (Inr s, fs', rng')))))"

definition loadPrivateKey :: "string \<Rightarrow> filesys \<Rightarrow> bytes res" where
  "loadPrivateKey keyFile fs =
    (case os_ReadFile keyFile fs of
       Inl e \<Rightarrow> Inl (wrap ''reading key file'' e)
     | Inr data \<Rightarrow>
         (case hex_DecodeString (TrimSpace (string_of data)) of
            None \<Rightarrow> Inl (wrap (''key file '' @ keyFile @ '' does not contain a valid hex scalar'')
                          (Err ''encoding/hex: invalid input''))
          | Some s \<Rightarrow>
              if length s \<noteq> 32 then
                Inl (Err (''key file '' @ keyFile @ '' contains a '' @ show_nat (length s) @
                  ''-byte scalar, want 32''))
              else Inr s))"

definition publicKeyHex :: "group_ops \<Rightarrow> string \<Rightarrow> filesys \<Rightarrow> string res" where
  "publicKeyHex g keyFile fs =
    (case loadPrivateKey keyFile fs of
       Inl e \<Rightarrow> Inl e
     | Inr s \<Rightarrow>
         (case ScalarBaseMult g s of
            Inl e \<Rightarrow> Inl (wrap ''computing public key'' e)
          | Inr S \<Rightarrow> Inr (hex_EncodeToString S)))"

section \<open>One answer\<close>

text \<open>
  \<open>approval\<close> is what reading a line from the person returned: nothing, the end of the input
  (which counts as a line), or an error.  The text printed is appended to \<open>out\<close>.
\<close>

definition approve :: "bool \<Rightarrow> string \<Rightarrow> string \<Rightarrow> goerr option \<Rightarrow> string \<Rightarrow> unit res \<times> string" where
  "approve yes name machineID approval out =
    (if yes then (Inr (), out)
     else
       (let out' = out @ ''Machine '' @ Quote (SafeLabel name 64) @ '' ('' @ machineID @
              '') wants to unlock. Press Enter to approve, Ctrl-C to abort: '' in
        case approval of
          None \<Rightarrow> (Inr (), out')
        | Some e \<Rightarrow> if e = IoEOF then (Inr (), out') else (Inl (wrap ''reading approval'' e), out')))"

definition answerRequest :: "group_ops \<Rightarrow> bytes \<Rightarrow> recover_request \<Rightarrow> bytes res" where
  "answerRequest g s req =
    (case ValidateChallengePoint g (reqX req) of
       Inl e \<Rightarrow> Inl (Wrap (''refusing the machine'' @ [CHR 0x27] @ ''s challenge: '') e [])
     | Inr _ \<Rightarrow>
         (case ScalarMult g (reqX req) s of
            Inl e \<Rightarrow> Inl (wrap ''computing response'' e)
          | Inr Y \<Rightarrow> Inr Y))"

definition runUnlockOnce ::
    "group_ops \<Rightarrow> bytes \<Rightarrow> string \<Rightarrow> bool \<Rightarrow> goerr option \<Rightarrow> conn res \<Rightarrow> string \<Rightarrow>
      unit res \<times> conn option \<times> string" where
  "runUnlockOnce g s machineID yes approval dialled out =
    (case dialled of
       Inl e \<Rightarrow> (Inl (DialErr (wrap (''dialing '' @ machineID) e)), None, out)
     | Inr c \<Rightarrow>
    (case ReadMessage hello_of_json c of
       (Inl e, c1) \<Rightarrow> (Inl (wrap ''reading hello'' e), Some c1, out)
     | (Inr hello, c1) \<Rightarrow>
    (case approve yes (helloName hello) machineID approval out of
       (Inl e, out1) \<Rightarrow> (Inl e, Some c1, out1)
     | (Inr _, out1) \<Rightarrow>
    (case ReadMessage request_of_json c1 of
       (Inl e, c2) \<Rightarrow> (Inl (wrap ''reading recover request'' e), Some c2, out1)
     | (Inr req, c2) \<Rightarrow>
    (case answerRequest g s req of
       Inl e \<Rightarrow> (Inl e, Some c2, out1)
     | Inr Y \<Rightarrow>
    (case WriteMessage (response_to_json \<lparr>respY = Y, respXOnly = [], respError = []\<rparr>) c2 of
       (Inl e, c3) \<Rightarrow> (Inl (wrap ''sending recover response'' e), Some c3, out1)
     | (Inr _, c3) \<Rightarrow>
    (case ReadMessage result_of_json c3 of
       (Inl e, c4) \<Rightarrow>
         (Inl (wrap ''answer sent, but the machine did not report the outcome, so it may or may not have unlocked'' e),
          Some c4, out1)
     | (Inr result, c4) \<Rightarrow>
         if \<not> resOK result then
           (Inl (Err (''the machine could not use the answer: '' @ resError result)), Some c4, out1)
         else (Inr (), Some c4, out1 @ ''unlocked'' @ [CHR 0x0A]))))))))"

section \<open>Lemmas\<close>

lemma hex_TrimSpace:
  assumes "b \<noteq> []"
  shows "TrimSpace (hex_EncodeToString b @ [CHR 0x0A]) = hex_EncodeToString b"
proof -
  have "enc_quantum hex_alphabet 2 0 [x] \<noteq> []" for x
    by (metis length_enc_quantum list.size(3) zero_neq_numeral)
  then have ne: "hex_EncodeToString b \<noteq> []"
    using assms by (cases b) (simp_all add: hex_EncodeToString_def)
  have "\<forall>c \<in> set hex_alphabet. printable c" by (simp add: hex_alphabet_def printable_def)
  then have p: "c \<in> set (hex_EncodeToString b) \<Longrightarrow> printable c" for c using hex_enc_chars [of b] by auto
  have "TrimSpace (concat [] @ hex_EncodeToString b @ concat [[CHR 0x0A]]) = hex_EncodeToString b"
    using ne p by (intro TrimSpace_padded) (simp_all add: ws_encodings_def)
  then show ?thesis by simp
qed

lemma runUnlockOnce_success:
  assumes "runUnlockOnce g s machineID yes approval dialled out = (Inr u, c', out')"
  obtains c hello c1 req c2 Y c3 result c4 where
    "dialled = Inr c" "ReadMessage hello_of_json c = (Inr hello, c1)"
    "yes \<or> approval = None \<or> approval = Some IoEOF" "ReadMessage request_of_json c1 = (Inr req, c2)"
    "answerRequest g s req = Inr Y"
    "WriteMessage (response_to_json \<lparr>respY = Y, respXOnly = [], respError = []\<rparr>) c2 = (Inr (), c3)"
    "ReadMessage result_of_json c3 = (Inr result, c4)" "resOK result" "c' = Some c4"
  using assms
  by (auto simp: runUnlockOnce_def approve_def Let_def split: sum.splits prod.splits if_splits option.splits)

text \<open>The key holder's run on a greeting and a challenge.\<close>

lemma runUnlockOnce_on:
  assumes rx: "rx c = frame (hello_to_json g0) @ frame (request_to_json q) @ rest"
    and ok: "valid_utf8 (helloName g0)" "length (json_print (hello_to_json g0)) \<le> maxMessageSize"
      "length (json_print (request_to_json q)) \<le> maxMessageSize"
    and yes: "yes \<or> approval = None"
    and ans: "answerRequest g s q = Inr Y"
    and w: "writes_left c = None"
      "length (json_print (response_to_json \<lparr>respY = Y, respXOnly = [], respError = []\<rparr>)) \<le> maxMessageSize"
  shows "\<exists>r c' out'. runUnlockOnce g s machineID yes approval (Inr c) out = (r, Some c', out') \<and>
    tx c' = tx c @ frame (response_to_json \<lparr>respY = Y, respXOnly = [], respError = []\<rparr>) \<and>
    (\<forall>m. valid_utf8 (resError m) \<longrightarrow> length (json_print (result_to_json m)) \<le> maxMessageSize \<longrightarrow>
       rest = frame (result_to_json m) \<longrightarrow> (r = Inr () \<longleftrightarrow> resOK m))"
proof -
  let ?resp = "response_to_json \<lparr>respY = Y, respXOnly = [], respError = []\<rparr>"
  let ?c2 = "c\<lparr>rx := rest\<rparr>"
  have 1: "ReadMessage hello_of_json c = (Inr g0, c\<lparr>rx := frame (request_to_json q) @ rest\<rparr>)"
    by (rule hello.read_written [OF ok(1,2) rx])
  have 2: "ReadMessage request_of_json (c\<lparr>rx := frame (request_to_json q) @ rest\<rparr>) = (Inr q, ?c2)"
    using request.read_written [OF TrueI ok(3), of "c\<lparr>rx := frame (request_to_json q) @ rest\<rparr>"] by simp
  have 3: "WriteMessage ?resp ?c2 = (Inr (), ?c2\<lparr>tx := tx c @ frame ?resp\<rparr>)"
    using WriteMessage_ok [OF w(2), of ?c2] w(1) by simp
  obtain out1 where 4: "approve yes (helloName g0) machineID approval out = (Inr (), out1)"
    using yes that by (cases yes; cases approval) (auto simp: approve_def Let_def)
  obtain q5 c5 where 5: "ReadMessage result_of_json (?c2\<lparr>tx := tx c @ frame ?resp\<rparr>) = (q5, c5)" by fastforce
  have tx: "tx c5 = tx c @ frame ?resp"
    using 5 by (auto simp: ReadMessage_def conn_read_full_def Let_def split: if_splits sum.splits)
  have run: "runUnlockOnce g s machineID yes approval (Inr c) out =
      (case q5 of
         Inl e \<Rightarrow> (Inl (wrap ''answer sent, but the machine did not report the outcome, so it may or may not have unlocked'' e), Some c5, out1)
       | Inr result \<Rightarrow> if \<not> resOK result then (Inl (Err (''the machine could not use the answer: '' @ resError result)), Some c5, out1)
           else (Inr (), Some c5, out1 @ ''unlocked'' @ [CHR 0x0A]))"
    by (simp add: runUnlockOnce_def 1 2 4 ans 3 5)
  have end_ok: "q5 = Inr m" if "valid_utf8 (resError m)" "length (json_print (result_to_json m)) \<le> maxMessageSize"
    "rest = frame (result_to_json m)" for m
    using result.read_written [OF that(1,2), of "?c2\<lparr>tx := tx c @ frame ?resp\<rparr>" "[]"] that(3) 5 by simp
  show ?thesis
  proof (cases q5)
    case (Inl e)
    with run tx end_ok show ?thesis by fastforce
  next
    case (Inr m)
    with run tx end_ok show ?thesis by (cases "resOK m") fastforce+
  qed
qed

lemma generated_key:
  assumes "generateAndSave (p256Group N) keyFile force fs rng = (r, fs', rng')"
    and "readErr fs keyFile = None"
  shows "case r of
      Inr s \<Rightarrow> loadPrivateKey keyFile fs' = Inr s \<and> ValidatePrivateScalar s = Inr () \<and>
        (force \<or> files fs keyFile = None) \<and>
        publicKeyHex (p256Group N) keyFile fs' =
          (case p256_ScalarBaseMult N s of
             Inr S \<Rightarrow> Inr (hex_EncodeToString S) | Inl e \<Rightarrow> Inl (wrap ''computing public key'' e))
    | Inl e \<Rightarrow> \<not> force \<and> files fs keyFile \<noteq> None \<longrightarrow> fs' = fs"
proof (cases r)
  case (Inl e)
  with assms(1) show ?thesis by (auto simp: generateAndSave_def)
next
  case (Inr s)
  with assms(1) obtain rng1 where s: "RandomScalar (p256Group N) rng = Inr (s, rng1)"
    and fs': "fs' = fs\<lparr>files := (files fs)(keyFile \<mapsto> bytes_of (hex_EncodeToString s @ [CHR 0x0A]))\<rparr>"
    and fresh: "force \<or> files fs keyFile = None"
    by (auto simp: generateAndSave_def os_WriteFile_def split: if_splits sum.splits option.splits)
  have range: "length s = 32" "0 < be_nat s" "be_nat s < p256N"
    using randomScalarFrom_in_range s by auto
  have load: "loadPrivateKey keyFile fs' = Inr s"
    using assms(2) range(1) hex_TrimSpace [of s]
    by (cases s) (simp_all add: loadPrivateKey_def os_ReadFile_def fs' hex_roundtrip)
  have "scalarInRange s p256Order"
    using range be_nat_p256Order by (simp add: scalarInRange_iff)
  then have "ValidatePrivateScalar s = Inr ()"
    using range by (simp add: ValidatePrivateScalar_def)
  with Inr load fresh show ?thesis by (simp add: publicKeyHex_def split: sum.split)
qed

section \<open>Properties\<close>

text \<open>
  C16. The key file round trips: after \<open>init\<close> generated a key, that key is what is loaded back,
  a usable scalar, and the public key exported is its multiple of the base point; an existing
  key is not overwritten without \<open>--force\<close>.
\<close>

theorem key_file_roundtrip:
  assumes "generateAndSave (p256Group N) keyFile force fs rng = (r, fs', rng')"
    and "readErr fs keyFile = None"
  shows "case r of
      Inr s \<Rightarrow> loadPrivateKey keyFile fs' = Inr s \<and> ValidatePrivateScalar s = Inr () \<and>
        (force \<or> files fs keyFile = None) \<and>
        publicKeyHex (p256Group N) keyFile fs' =
          (case p256_ScalarBaseMult N s of
             Inr S \<Rightarrow> Inr (hex_EncodeToString S) | Inl e \<Rightarrow> Inl (wrap ''computing public key'' e))
    | Inl e \<Rightarrow> \<not> force \<and> files fs keyFile \<noteq> None \<longrightarrow> fs' = fs"
  by (rule generated_key [OF assms])

end
