(* ===== verification/Recovery.thy ===== *)
theory Recovery
  imports Keyholder RotationDemo
begin

text \<open>
  The two ends of a recovery together: the machine's exchange of theory \<open>Exchange\<close> and the key
  holder's answer of theory \<open>Keyholder\<close>, each reading what the other writes.
\<close>

section \<open>Sizes of messages\<close>

lemma length_request: "length (json_print (request_to_json q)) \<le> 24 * (length (reqKid q) + length (reqX q)) + 64"
  using length_of_bytes [of "reqKid q"] length_of_bytes [of "reqX q"] length_quote [of "''kid''"]
    length_quote [of "''X''"] by (simp add: request_to_json_def)

lemma length_response_Y:
  "length (json_print (response_to_json \<lparr>respY = Y, respXOnly = [], respError = []\<rparr>)) \<le> 24 * length Y + 64"
  using length_of_bytes [of Y] length_quote [of "''Y''"] by (simp add: response_to_json_def omitempty_def)

lemma length_hello: "length (json_print (hello_to_json g)) \<le> 6 * length (helloName g) + 64"
  using length_quote [of "helloName g"] length_quote [of "''name''"] by (simp add: hello_to_json_def)

lemma length_result_ok: "length (json_print (result_to_json \<lparr>resOK = True, resError = []\<rparr>)) \<le> 64"
  using length_quote [of "''ok''"] by (simp add: result_to_json_def omitempty_def)

section \<open>The machine's side against an answer\<close>

text \<open>Whatever comes back, the greeting and the challenge go out first.\<close>

lemma runExchange_greets:
  assumes m: "matchRecipient U tok (PeerID c) = Inr rec"
    and ch: "ChallengeStart (gr U) (rC rec) rng = Inr (e, X, rng1)"
    and size: "length (json_print (hello_to_json \<lparr>helloName = name\<rparr>)) \<le> maxMessageSize"
      "length (json_print (request_to_json \<lparr>reqKid = Kid rec, reqX = X\<rparr>)) \<le> maxMessageSize"
    and wl: "writes_left c = None"
    and run: "runExchange U c tok device name deliver h w rng = (r, c', w', rng')"
  defines "greet \<equiv> frame (hello_to_json \<lparr>helloName = name\<rparr>) @
    frame (request_to_json \<lparr>reqKid = Kid rec, reqX = X\<rparr>)"
  shows "\<exists>rest. tx c' = tx c @ greet @ rest"
    and "ReadMessage response_of_json (c\<lparr>tx := tx c @ greet\<rparr>) = (Inr resp, c3) \<Longrightarrow> respError resp = [] \<Longrightarrow>
      useAnswer U device rec e resp deliver h w = (out, w1) \<Longrightarrow>
      r = out \<and> w' = w1 \<and> report out c3 = (r, c')"
proof -
  let ?h = "hello_to_json \<lparr>helloName = name\<rparr>" and ?q = "request_to_json \<lparr>reqKid = Kid rec, reqX = X\<rparr>"
  have 1: "WriteMessage ?h c = (Inr (), c\<lparr>tx := tx c @ frame ?h\<rparr>)" by (rule WriteMessage_ok [OF size(1) wl])
  have 2: "WriteMessage ?q (c\<lparr>tx := tx c @ frame ?h\<rparr>) = (Inr (), c\<lparr>tx := tx c @ greet\<rparr>)"
    using WriteMessage_ok [OF size(2), of "c\<lparr>tx := tx c @ frame ?h\<rparr>"] wl by (simp add: greet_def)
  obtain q3 c3' where 3: "ReadMessage response_of_json (c\<lparr>tx := tx c @ greet\<rparr>) = (q3, c3')" by fastforce
  note run' = run [unfolded runExchange_def m ch sum.case prod.case 1 2 3]
  have tx3: "tx c3' = tx c @ greet"
    using 3 by (auto simp: ReadMessage_def conn_read_full_def Let_def split: if_splits sum.splits)
  have rep: "\<exists>rest. tx d' = tx d @ rest" if "report x d = (y, d')" for x d y d'
    using that WriteMessage_tx [of _ d] by (fastforce simp: report_def waitForPeerClose_def Let_def split: prod.splits)
  show "\<exists>rest. tx c' = tx c @ greet @ rest"
    using run' tx3 by (fastforce split: sum.splits if_splits prod.splits dest: rep)
  show "r = out \<and> w' = w1 \<and> report out c3 = (r, c')"
    if "ReadMessage response_of_json (c\<lparr>tx := tx c @ greet\<rparr>) = (Inr resp, c3)" "respError resp = []"
      "useAnswer U device rec e resp deliver h w = (out, w1)"
  proof -
    obtain r1 c4 where 4: "report out c3 = (r1, c4)" by fastforce
    from run' that 3 4 report_outcome [OF 4] show ?thesis by auto
  qed
qed

text \<open>An answer that opens the volume is used, delivered and acknowledged.\<close>

lemma machine_accepts:
  assumes m: "matchRecipient U tok (PeerID c) = Inr rec"
    and ch: "ChallengeStart (gr U) (rC rec) rng = Inr (e, X, rng1)"
    and size: "length (json_print (hello_to_json \<lparr>helloName = name\<rparr>)) \<le> maxMessageSize"
      "length (json_print (request_to_json \<lparr>reqKid = Kid rec, reqX = X\<rparr>)) \<le> maxMessageSize"
      "length (json_print (response_to_json resp)) \<le> maxMessageSize"
    and c: "writes_left c = None" "tx c = []" "rx c = frame (response_to_json resp)"
    and fin: "respError resp = []" "finishAnswer U rec e resp = Inr P"
      "testPassphrase (cs U) (luksKeyMaterial P) h = Inr ()" "deliver (luksKeyMaterial P) w = (Inr (), w1)"
    and run: "runExchange U c tok device name deliver h w rng = (r, c', w', rng')"
  shows "r = Inr () \<and> w' = w1 \<and>
    tx c' = (frame (hello_to_json \<lparr>helloName = name\<rparr>) @ frame (request_to_json \<lparr>reqKid = Kid rec, reqX = X\<rparr>)) @
      frame (result_to_json \<lparr>resOK = True, resError = []\<rparr>)"
proof -
  let ?sent = "frame (hello_to_json \<lparr>helloName = name\<rparr>) @ frame (request_to_json \<lparr>reqKid = Kid rec, reqX = X\<rparr>)"
  have rd: "ReadMessage response_of_json (c\<lparr>tx := tx c @ ?sent\<rparr>) = (Inr resp, c\<lparr>tx := ?sent, rx := []\<rparr>)"
    using response.read_written [of resp, OF _ size(3), of "c\<lparr>tx := ?sent\<rparr>" "[]"] fin(1) c(2,3) by simp
  have use: "useAnswer U device rec e resp deliver h w = (Inr (), w1)"
    using fin by (simp add: useAnswer_def verifyPassphrase_def)
  from runExchange_greets(2) [OF m ch size(1,2) c(1) run rd fin(1) use]
  have r: "r = Inr ()" "w' = w1" "report (Inr ()) (c\<lparr>tx := ?sent, rx := []\<rparr>) = (r, c')" by simp_all
  have ms: "length (json_print (result_to_json \<lparr>resOK = True, resError = []\<rparr>)) \<le> maxMessageSize"
    using length_result_ok by (simp add: maxMessageSize_def)
  from report_writes [OF r(3)] c(1) ms r(1,2) show ?thesis by simp
qed

lemma point_bytes:
  assumes "nistec_ok N pt"
  shows "length (ptBytes N (pt k)) \<le> 65 \<and> ptBytes N (pt k) \<noteq> []"
proof (cases "k mod p256N = 0")
  case True
  from assms have "\<forall>j k. pt j = pt k \<longleftrightarrow> j mod p256N = k mod p256N" "ptBytes N (pt 0) = [0]"
    unfolding nistec_ok_def by blast+
  with True have "ptBytes N (pt k) = [0]" by (metis mod_0)
  then show ?thesis by simp
next
  case False
  then have "length (ptBytes N (pt k)) = 65" using assms unfolding nistec_ok_def by blast
  then show ?thesis by auto
qed

lemma FinishFullPoint_Transport:
  "FinishFullPoint g P e (rec\<lparr>Transport := t\<rparr>) y = FinishFullPoint g P e rec y"
  by (simp add: FinishFullPoint_def finishWithY_def split: sum.split)

section \<open>Both together\<close>

text \<open>
  C11. An honest key holder unlocks: when the machine's exchange and the key holder's answer run
  over one connection, each reading exactly what the other wrote, the person approves, and the
  recipient entry is one that was enrolled for the key holder's scalar, then the machine
  recovers the enrolled secret, it opens the volume, the key material is delivered, and the key
  holder is told so and reports success.
\<close>

theorem honest_recovery:
  assumes "nistec_ok N pt" and "crypto_ok (cr U)" and "gr U = p256Group N"
    and "length s = 32" and "SetBytes N S = Inr (pt (be_nat s))"
    and "Enrol (p256Group N) (cr U) S rng1 = Inr (P, rec, rng2)"
    and "matchRecipient U tok (PeerID ca) = Inr (rec\<lparr>Transport := tr\<rparr>)"
    and "testPassphrase (cs U) (luksKeyMaterial P) h = Inr ()"
    and "ChallengeStart (gr U) (rC rec) rng = Inr (e, X, rng3)"
    and "ValidateChallengePoint (gr U) X = Inr ()"
    and "deliver (luksKeyMaterial P) w = (Inr (), w1)"
    and "valid_utf8 name" and "length name \<le> 10000" and "length (Kid rec) \<le> 1000"
    and "runExchange U ca tok device name deliver h w rng = (r, ca', w', rng')"
    and "runUnlockOnce (p256Group N) s machineID yes None (Inr ck) out = (r2, Some ck', out')"
    and "rx ca = tx ck'" and "rx ck = tx ca'" and "tx ca = []" and "tx ck = []"
    and "writes_left ca = None" and "writes_left ck = None"
  shows "r = Inr () \<and> w' = w1 \<and> r2 = Inr ()"
proof -
  obtain c where c: "rS rec = S" "SetBytes N (rC rec) = Inr (pt c)" "length P = 32"
    "holds_secret (p256Group N) (p256_pnt (N, pt)) (cr U) (be_nat s) c rec P"
    using Enrol_p256 [OF assms(1,2,5,6)] by metis
  note ch = assms(9) [unfolded assms(3)]
  note a = answer_p256 [OF assms(1) c(2) assms(4) ch]
  let ?Y = "ptBytes N (pt (be_nat s * (c + be_nat e)))"
  let ?q = "\<lparr>reqKid = Kid rec, reqX = X\<rparr>" and ?g = "\<lparr>helloName = name\<rparr>"
  let ?resp = "\<lparr>respY = ?Y, respXOnly = [], respError = []\<rparr>"
  have fin: "FinishFullPoint (p256Group N) (cr U) e rec ?Y = Inr P"
    using p256.FinishFullPoint_holds [of "(N, pt)" "cr U" rec "be_nat s" c P e] assms(1,2,5) c a
    by (simp add: p256_ok_def p256_den_def)
  have Y: "length ?Y \<le> 65" "?Y \<noteq> []" using point_bytes [OF assms(1)] by simp_all
  have "length X \<le> 65" using point_bytes [OF assms(1)] a(2) by simp
  then have size: "length (json_print (hello_to_json ?g)) \<le> maxMessageSize"
    "length (json_print (request_to_json ?q)) \<le> maxMessageSize"
    "length (json_print (response_to_json ?resp)) \<le> maxMessageSize"
    using length_hello [of ?g] length_request [of ?q] length_response_Y [of ?Y] assms(13,14) Y(1)
    by (simp_all add: maxMessageSize_def)
  let ?rec = "rec\<lparr>Transport := tr\<rparr>"
  have ch': "ChallengeStart (gr U) (rC ?rec) rng = Inr (e, X, rng3)" using assms(9) by simp
  have size': "length (json_print (request_to_json \<lparr>reqKid = Kid ?rec, reqX = X\<rparr>)) \<le> maxMessageSize"
    using size(2) by simp
  note agent = runExchange_greets [OF assms(7) ch' size(1) size' assms(21,15), simplified]
  from agent(1) obtain rest where rest: "rx ck = frame (hello_to_json ?g) @ frame (request_to_json ?q) @ rest"
    using assms(18,19) by auto
  have ans: "answerRequest (p256Group N) s ?q = Inr ?Y"
    using assms(3,10) a(3) by (simp add: answerRequest_def)
  have ok: "valid_utf8 (helloName ?g)" using assms(12) by simp
  from runUnlockOnce_on [OF rest ok size(1,2) disjI2 [OF refl] ans assms(22) size(3),
      where yes = yes and machineID = machineID and out = out]
    assms(16) have k: "tx ck' = tx ck @ frame (response_to_json ?resp)"
    "\<forall>m. valid_utf8 (resError m) \<longrightarrow> length (json_print (result_to_json m)) \<le> maxMessageSize \<longrightarrow>
       rest = frame (result_to_json m) \<longrightarrow> (r2 = Inr () \<longleftrightarrow> resOK m)" by auto
  have accepted: "finishAnswer U ?rec e ?resp = Inr P"
    using fin Y(2) c(3) assms(3)
    by (simp add: finishAnswer_def FinishFullPoint_Transport checkSecretLength_def volumeSecretLen_def)
  from k(1) assms(17,20) have rxa: "rx ca = frame (response_to_json ?resp)" by simp
  note acc = machine_accepts [OF assms(7) ch' size(1) size' size(3) assms(21,19) rxa _ accepted assms(8,11,15)]
  with rest assms(18) have "rest = frame (result_to_json \<lparr>resOK = True, resError = []\<rparr>)" by simp
  with spec [OF k(2), of "\<lparr>resOK = True, resError = []\<rparr>"] length_result_ok have "r2 = Inr ()"
    by (simp add: maxMessageSize_def)
  with acc show ?thesis by simp
qed

text \<open>What serving a key holder can come to.\<close>

lemma serve_delivery:
  assumes "cryptsetup_ok (cs U) keys toks" and "header_ok keys toks h"
    and "serveOneExchange U device name lo Listen deliver h w rng = (r, c', w', rng')"
  shows "(w' = w \<and> r \<noteq> Inr ()) \<or>
    (\<exists>t tok c P slot. mr_token toks h t tok \<and>
      Listen (lo\<lparr>AuthorizedPeers :=
        map (canonicalOrRaw U) (List.map_filter TransportDeviceID (Recipients tok))\<rparr>) = Inr c \<and>
      answered U c tok h rng P \<and> keys h slot = Some (luksKeyMaterial P) \<and>
      deliver (luksKeyMaterial P) w = (r, w'))"
proof (cases "\<exists>e. r = Inl e \<and> w' = w")
  case False
  with assms(3) obtain d tok ti peers c c1 where
    d: "luksDump (cs U) h = Inr d" "loadToken U h d name [] = Inr (tok, ti)" "\<not> ti < 0"
    and p: "authorizedPeersFor U tok = Inr peers" "Listen (lo\<lparr>AuthorizedPeers := peers\<rparr>) = Inr c"
    and run: "runExchange U c tok device (agentNameFor name (mName (Machine tok))) deliver h w rng =
      (r, c1, w', rng')"
    by (auto simp: serveOneExchange_def split: sum.splits prod.splits if_splits)
  from loadToken_reads [OF assms(1) d(1,2)] d(3) obtain t where t: "mr_token toks h t tok"
    by (auto simp: mr_token_def)
  have peers: "peers = map (canonicalOrRaw U) (List.map_filter TransportDeviceID (Recipients tok))"
    using p(1) by (auto simp: authorizedPeersFor_def Let_def split: if_splits)
  from runExchange_delivery [OF run] show ?thesis
  proof
    assume "\<exists>P. answered U c tok h rng P \<and> deliver (luksKeyMaterial P) w = (r, w')"
    then obtain P where P: "answered U c tok h rng P" "deliver (luksKeyMaterial P) w = (r, w')" by blast
    then have "testPassphrase (cs U) (luksKeyMaterial P) h = Inr ()" unfolding answered_def by blast
    then obtain slot where "keys h slot = Some (luksKeyMaterial P)"
      using cs_test [OF assms(1)] by (auto simp: ran_def)
    with t p(2) [unfolded peers] P show ?thesis by blast
  qed blast
qed (auto)

text \<open>
  C12. Nothing is handed out that does not open the volume: whatever the header, the transport and
  the peer do, either nothing was delivered and an error is returned, or the one thing delivered
  is the key of one of the volume's keyslots, recovered as a 32-byte secret in an exchange with
  the only enrolled key holder that has the peer's verified transport id, one the machine
  listened for.
\<close>

theorem serve_delivers_only_what_opens:
  assumes "cryptsetup_ok (cs U) keys toks" and "header_ok keys toks h"
    and "serveOneExchange U device name lo Listen deliver h w rng = (r, c', w', rng')"
  shows "(w' = w \<and> r \<noteq> Inr ()) \<or>
    (\<exists>t tok c P slot i. mr_token toks h t tok \<and>
      Listen (lo\<lparr>AuthorizedPeers :=
        map (canonicalOrRaw U) (List.map_filter TransportDeviceID (Recipients tok))\<rparr>) = Inr c \<and>
      has_transport U tok (PeerID c) i \<and> (\<forall>j. has_transport U tok (PeerID c) j \<longrightarrow> j = i) \<and>
      length P = volumeSecretLen \<and> keys h slot = Some (luksKeyMaterial P) \<and>
      deliver (luksKeyMaterial P) w = (r, w'))"
  using serve_delivery [OF assms] unfolding answered_def by blast

section \<open>A recovery that runs\<close>

definition demo_conn :: "bytes \<Rightarrow> conn" where
  "demo_conn b = \<lparr>PeerID = demo_phone, rx = b, tx = [], writes_left = None, wr_err = IoEOF\<rparr>"

definition demo_deliver :: "bytes list deliverFunc" where
  "demo_deliver k w = (Inr (), k # w)"

lemma demo_match: "matchRecipient demo_U (demo_tok rec) demo_phone = Inr (demo_rec rec)"
  by (simp add: matchRecipient_def demo_found demo_tok_fields)

lemma honest_recovery_witness:
  "\<exists>rec ca ca' ck ck' out'. rx ca = tx ck' \<and> rx ck = tx ca' \<and>
    runExchange demo_U ca (demo_tok rec) ''/dev/sda'' ''host'' demo_deliver (demo_h1 rec) [] (scalar 5) =
      (Inr (), ca', [luksKeyMaterial demo_secret], []) \<and>
    runUnlockOnce (p256Group zn_nistec) (scalar 2) ''M'' True None (Inr ck) [] = (Inr (), Some ck', out')"
proof -
  obtain rec X y x where r: "Enrol (p256Group zn_nistec) plain_crypto (ptBytes zn_nistec 2) demo_rng =
      Inr (demo_secret, rec, [])"
    "ChallengeStart (p256Group zn_nistec) (rC rec) (scalar 5) = Inr (scalar 5, X, [])"
    "ScalarMult (p256Group zn_nistec) X (scalar 2) = Inr y"
    by (rule demo_run)
  have valid: "ValidateChallengePoint (p256Group zn_nistec) X = Inr ()"
    using demo_challenge(2,3) [OF r(1)] r(2) by simp
  have kid: "length (Kid rec) \<le> 1000" using r(1) by (auto simp: Enrol_Inr plain_crypto_def)
  have S: "SetBytes zn_nistec (ptBytes zn_nistec 2) = Inr (zn_pt (be_nat (scalar 2)))"
    by (simp only: be_nat_scalar demo_point demo_small)
  have sl: "length (scalar 2) = 32" by simp
  have len: "length X \<le> 65" "length y \<le> 65"
    using answer_p256(2,3) [OF zn_nistec_ok demo_challenge(1) [OF r(1)] sl r(2)] r(3) point_bytes [OF zn_nistec_ok]
    by auto
  let ?resp = "response_to_json \<lparr>respY = y, respXOnly = [], respError = []\<rparr>"
  let ?q = "\<lparr>reqKid = Kid rec, reqX = X\<rparr>" and ?g = "\<lparr>helloName = ''host''\<rparr>"
  have size: "length (json_print (hello_to_json ?g)) \<le> maxMessageSize"
    "length (json_print (request_to_json ?q)) \<le> maxMessageSize" "length (json_print ?resp) \<le> maxMessageSize"
    using length_hello [of ?g] length_request [of ?q] length_response_Y [of y] kid len
    by (simp_all add: maxMessageSize_def)
  let ?ca = "demo_conn (frame ?resp)"
  obtain ra ca' wa ga where ag: "runExchange demo_U ?ca (demo_tok rec) ''/dev/sda'' ''host'' demo_deliver
      (demo_h1 rec) [] (scalar 5) = (ra, ca', wa, ga)" by (cases rule: prod_cases4)
  have m: "matchRecipient demo_U (demo_tok rec) (PeerID ?ca) = Inr (demo_rec rec)"
    by (simp add: demo_conn_def demo_match)
  have ch: "ChallengeStart (gr demo_U) (rC (demo_rec rec)) (scalar 5) = Inr (scalar 5, X, [])"
    using r(2) by (simp add: demo_rec_def)
  have size': "length (json_print (request_to_json \<lparr>reqKid = Kid (demo_rec rec), reqX = X\<rparr>)) \<le> maxMessageSize"
    using size(2) by (simp add: demo_rec_def)
  have wl: "writes_left ?ca = None" by (simp add: demo_conn_def)
  from runExchange_greets(1) [OF m ch size(1) size' wl ag] obtain rest where
    tx: "tx ca' = frame (hello_to_json ?g) @ frame (request_to_json ?q) @ rest"
    by (auto simp: demo_conn_def demo_rec_def)
  let ?ck = "demo_conn (tx ca')"
  have ck: "rx ?ck = frame (hello_to_json ?g) @ frame (request_to_json ?q) @ rest" "writes_left ?ck = None"
    using tx by (simp_all add: demo_conn_def)
  have ans: "answerRequest (p256Group zn_nistec) (scalar 2) ?q = Inr y"
    using valid r(3) by (simp add: answerRequest_def)
  have g: "valid_utf8 (helloName ?g)" by (simp add: valid_utf8_ascii is_ascii_def)
  from runUnlockOnce_on [OF ck(1) g size(1,2) disjI1 [OF TrueI] ans ck(2) size(3), where machineID = "''M''" and out = "[]"
      and approval = None]
  obtain rk ck' out' where kh: "runUnlockOnce (p256Group zn_nistec) (scalar 2) ''M'' True None (Inr ?ck) [] =
      (rk, Some ck', out')" "tx ck' = frame ?resp" by (auto simp: demo_conn_def)
  have rec: "demo_rec rec = rec\<lparr>Transport := Some (JObj [(''device_id'', JStr demo_phone)])\<rparr>"
    by (simp add: demo_rec_def)
  have test: "testPassphrase (cs demo_U) (luksKeyMaterial demo_secret) (demo_h1 rec) = Inr ()"
    using demo_h_ok(2) [of rec] by (simp add: mem_cs_def demo_h1_def)
  have "ra = Inr () \<and> wa = [luksKeyMaterial demo_secret] \<and> rk = Inr ()"
    by (rule honest_recovery [OF zn_nistec_ok _ _ sl S _ m [unfolded rec] test _ _ _ _ _ kid ag kh(1)])
      (use r(1,2) valid kh(2) in \<open>simp_all add: plain_crypto_ok demo_conn_def demo_deliver_def valid_utf8_ascii is_ascii_def\<close>)
  moreover from ag this have "ga = []"
    using runExchange_steps [OF ag] m ch by (metis Inr_inject Inr_not_Inl Pair_inject)
  moreover have "rx ?ca = tx ck'" "rx ?ck = tx ca'" using kh(2) by (simp_all add: demo_conn_def)
  ultimately show ?thesis using ag kh(1) by blast
qed

lemma demo_serve:
  assumes deliver: "deliver (luksKeyMaterial demo_secret) w = (Inr (), w1)"
  obtains rec c c' where "serveOneExchange demo_U device ''host'' lo (\<lambda>_. Inr c) deliver (demo_h1 rec) w (scalar 5) =
      (Inr (), Some c', w1, [])"
proof -
  obtain rec X y x where r: "Enrol (p256Group zn_nistec) plain_crypto (ptBytes zn_nistec 2) demo_rng =
      Inr (demo_secret, rec, [])"
    "ChallengeStart (p256Group zn_nistec) (rC rec) (scalar 5) = Inr (scalar 5, X, [])"
    "ScalarMult (p256Group zn_nistec) X (scalar 2) = Inr y"
    "FinishFullPoint (p256Group zn_nistec) plain_crypto (scalar 5) rec y = Inr demo_secret"
    by (rule demo_run)
  have kid: "length (Kid rec) \<le> 1000" using r(1) by (auto simp: Enrol_Inr plain_crypto_def)
  have sl: "length (scalar 2) = 32" by simp
  have len: "length X \<le> 65" "length y \<le> 65" "y \<noteq> []"
    using answer_p256(2,3) [OF zn_nistec_ok demo_challenge(1) [OF r(1)] sl r(2)] r(3) point_bytes [OF zn_nistec_ok]
    by auto
  let ?m = "\<lparr>respY = y, respXOnly = [], respError = []\<rparr>"
  let ?q = "\<lparr>reqKid = Kid (demo_rec rec), reqX = X\<rparr>" and ?g = "\<lparr>helloName = ''host''\<rparr>"
  have size: "length (json_print (hello_to_json ?g)) \<le> maxMessageSize"
    "length (json_print (request_to_json ?q)) \<le> maxMessageSize"
    "length (json_print (response_to_json ?m)) \<le> maxMessageSize"
    using length_hello [of ?g] length_request [of ?q] length_response_Y [of y] kid len
    by (simp_all add: maxMessageSize_def demo_rec_def)
  let ?c = "demo_conn (frame (response_to_json ?m))"
  obtain ra c' wa ga where ag: "runExchange demo_U ?c (demo_tok rec) device ''host'' deliver
      (demo_h1 rec) w (scalar 5) = (ra, c', wa, ga)" by (cases rule: prod_cases4)
  have m: "matchRecipient demo_U (demo_tok rec) (PeerID ?c) = Inr (demo_rec rec)"
    by (simp add: demo_conn_def demo_match)
  have ch: "ChallengeStart (gr demo_U) (rC (demo_rec rec)) (scalar 5) = Inr (scalar 5, X, [])"
    using r(2) by (simp add: demo_rec_def)
  have wl: "writes_left ?c = None" by (simp add: demo_conn_def)
  have rd: "ReadMessage response_of_json (?c\<lparr>tx := t\<rparr>) = (Inr ?m, ?c\<lparr>tx := t, rx := []\<rparr>)" for t
    using response.read_written [of ?m, OF _ size(3), of "?c\<lparr>tx := t\<rparr>" "[]"] by (simp add: demo_conn_def)
  have test: "testPassphrase mem_cs (luksKeyMaterial demo_secret) (demo_h1 rec) = Inr ()"
    using demo_h_ok(2) [of rec] by (simp add: mem_cs_def demo_h1_def)
  have use: "useAnswer demo_U device (demo_rec rec) (scalar 5) ?m deliver (demo_h1 rec) w = (Inr (), w1)"
    using r(4) len(3) test deliver
    by (simp add: useAnswer_def finishAnswer_def demo_rec_def FinishFullPoint_Transport checkSecretLength_def
        volumeSecretLen_def verifyPassphrase_def)
  from runExchange_greets(2) [OF m ch size(1,2) wl ag rd _ use]
  have ra: "ra = Inr ()" "wa = w1" by simp_all
  have "ga = []" using runExchange_steps [OF ag] ra(1) m ch by (metis Inr_inject Inr_not_Inl Pair_inject)
  note d = mem_dump(1) [OF demo_h_ok(2) [of rec]]
  have l: "loadToken demo_U (demo_h1 rec) (dump_text (mem_items (demo_h1 rec))) ''host'' [] = Inr (demo_tok rec, 1)"
    using one_load [OF demo_h_ok(2) [of rec, unfolded demo_h1_one] demo_tok_wf] by (simp add: demo_h1_one)
  have tid: "TransportDeviceID (demo_rec rec) = Some demo_phone"
    by (simp add: demo_rec_def TransportDeviceID_def to_struct_def demo_phone_def)
  have p: "authorizedPeersFor demo_U (demo_tok rec) = Inr [demo_phone]"
    using demo_canonical by (simp add: authorizedPeersFor_def demo_tok_fields map_filter_def tid canonicalOrRaw_def)
  have "serveOneExchange demo_U device ''host'' lo (\<lambda>_. Inr ?c) deliver (demo_h1 rec) w (scalar 5) =
      (Inr (), Some c', w1, [])"
    using d l p ag ra \<open>ga = []\<close> by (simp add: serveOneExchange_def agentNameFor_def)
  then show thesis by (rule that)
qed

lemma serve_delivers_only_what_opens_witness:
  "\<exists>rec c c'. serveOneExchange demo_U ''/dev/sda'' ''host'' \<lparr>AuthorizedPeers = [], loDirectAddr = []\<rparr>
      (\<lambda>_. Inr c) demo_deliver (demo_h1 rec) [] (scalar 5) =
      (Inr (), c', [luksKeyMaterial demo_secret], []) \<and>
    (\<exists>P slot. mem_keys (demo_h1 rec) slot = Some (luksKeyMaterial P))"
proof -
  have "demo_deliver (luksKeyMaterial demo_secret) [] = (Inr (), [luksKeyMaterial demo_secret])"
    by (simp add: demo_deliver_def)
  then obtain rec c c' where run: "serveOneExchange demo_U ''/dev/sda'' ''host''
      \<lparr>AuthorizedPeers = [], loDirectAddr = []\<rparr> (\<lambda>_. Inr c) demo_deliver (demo_h1 rec) [] (scalar 5) =
      (Inr (), Some c', [luksKeyMaterial demo_secret], [])"
    by (rule demo_serve)
  have "cryptsetup_ok (cs demo_U) mem_keys mem_toks" by (simp add: mem_cs_ok)
  from serve_delivers_only_what_opens [OF this demo_h1_header_ok run]
  have "\<exists>P slot. mem_keys (demo_h1 rec) slot = Some (luksKeyMaterial P)" by blast
  with run show ?thesis by blast
qed

end
