(* ===== verification/PairFlow.thy ===== *)
theory PairFlow
  imports Exchange Pair
begin

text \<open>
  The machine's side of a pairing, \<open>cmd/synctang-unlocker/pair.go\<close>: one attempt against a peer
  that anybody can be, the refusals, the confirmation questions, and the window of attempts.
\<close>

section \<open>One attempt\<close>

definition pairNonceLen :: nat where
  "pairNonceLen = 32"

text \<open>
  \<open>poMachineID\<close> is the Device ID of the machine's certificate.  A question that is nil is
  \<open>None\<close>; otherwise it is the operator's answer to what it is asked.
\<close>

record pairOptions =
  poDevice :: string
  poPassphrase :: bytes
  poMachineID :: string
  poMachineName :: string
  poSecret :: bytes
  poConfirm :: "(string \<Rightarrow> bytes \<Rightarrow> bool) option"
  poConfirmReplace :: "(string \<Rightarrow> existing_recipient \<Rightarrow> bytes \<Rightarrow> bool) option"
  poListenOpts :: listen_options

text \<open>A best-effort message that says why, and the wait for the peer to have read it.\<close>

definition tellPeer :: "string \<Rightarrow> conn \<Rightarrow> conn" where
  "tellPeer reason c =
    (case WriteMessage (result_to_json \<lparr>resOK = False, resError = reason\<rparr>) c of
       (_, c') \<Rightarrow> waitForPeerClose c')"

definition refusePairing :: "conn \<Rightarrow> string \<Rightarrow> unit res \<times> conn" where
  "refusePairing c reason =
    (Inl (Err (''synctang-unlocker: pairing refused: '' @ reason)), tellPeer reason c)"

text \<open>The acknowledgement; \<open>pre\<close> and \<open>post\<close> are the text around its error.\<close>

definition acknowledge :: "string \<Rightarrow> conn \<Rightarrow> unit res \<times> conn" where
  "acknowledge pre c =
    (case WriteMessage (result_to_json \<lparr>resOK = True, resError = []\<rparr>) c of
       (Inl e, c') \<Rightarrow> (Inl (wrap (''synctang-unlocker: '' @ pre @ '', but telling it so failed'') e), c')
     | (Inr _, c') \<Rightarrow> (Inr (), waitForPeerClose c'))"

text \<open>
  What follows once the peer has proved the code with a valid key: plan, ask, enrol or replace.
  The last component is what the operator is notified of.
\<close>

definition enrolPaired ::
    "'h unlocker \<Rightarrow> pairOptions \<Rightarrow> string \<Rightarrow> bytes \<Rightarrow> conn \<Rightarrow> 'h \<Rightarrow> bytes \<Rightarrow>
      unit res \<times> conn \<times> 'h \<times> bytes \<times> string list" where
  "enrolPaired U o' peerID pubKey c h rng =
    (case planEnrolment U pubKey peerID h of
       Inl e \<Rightarrow> (Inl (wrap ''synctang-unlocker'' e), tellPeer PairRefusedEnrolFailed c, h, rng, [])
     | Inr (PlanAlready ex) \<Rightarrow>
         (case acknowledge (peerID @ '' was already enrolled'') c of
            (r, c') \<Rightarrow> (r, c', h, rng, [peerID @ '' is already enrolled at keyslot '' @ exKeyslot ex @
              '' with this key; nothing was added'']))
     | Inr (PlanReplace ex) \<Rightarrow>
         (let agreed = (case poConfirmReplace o' of None \<Rightarrow> False
                        | Some ask \<Rightarrow> ask peerID ex (sha256Sum (cr U) pubKey)) in
          if \<not> agreed then
            (case refusePairing c PairRefusedDeclined of
               (r, c') \<Rightarrow> (r, c', h, rng, [''not replacing; nothing was changed'']))
          else
            (case replaceRecipient U (poDevice o') (poPassphrase o') pubKey peerID peerID (exKeyslot ex) h rng of
               (Inl e, h', rng') \<Rightarrow>
                 (Inl (Wrap (''synctang-unlocker: replacing the paired key holder'' @ [CHR 0x27] @ ''s key: '') e []),
                  tellPeer PairRefusedEnrolFailed c, h', rng', [])
             | (Inr _, h', rng') \<Rightarrow>
                 (case acknowledge (peerID @ [CHR 0x27] @ ''s key was replaced'') c of
                    (r, c') \<Rightarrow> (r, c', h', rng', []))))
     | Inr PlanAdd \<Rightarrow>
         (let agreed = (case poConfirm o' of None \<Rightarrow> True | Some ask \<Rightarrow> ask peerID pubKey) in
          if \<not> agreed then
            (case refusePairing c PairRefusedDeclined of (r, c') \<Rightarrow> (r, c', h, rng, []))
          else
            (case enrolRecipient U (poPassphrase o') pubKey (poMachineName o') (poMachineID o') peerID h rng of
               (Inl e, h', rng') \<Rightarrow>
                 (Inl (wrap ''synctang-unlocker: enrolling the paired key holder'' e),
                  tellPeer PairRefusedEnrolFailed c, h', rng', [])
             | (Inr _, h', rng') \<Rightarrow>
                 (case acknowledge (peerID @ '' was enrolled'') c of
                    (r, c') \<Rightarrow> (r, c', h', rng', [])))))"

definition runPairOnce ::
    "'h unlocker \<Rightarrow> pairOptions \<Rightarrow> transport_listen \<Rightarrow> 'h \<Rightarrow> bytes \<Rightarrow>
      unit res \<times> conn option \<times> 'h \<times> bytes \<times> string list" where
  "runPairOnce U o' Listen h rng =
    (case Listen ((poListenOpts o')\<lparr>AuthorizedPeers := []\<rparr>) of
       Inl e \<Rightarrow> (Inl (wrap ''synctang-unlocker: waiting for a key holder to pair'' e), None, h, rng, [])
     | Inr c \<Rightarrow>
    (case rand_Read pairNonceLen rng of
       Inl e \<Rightarrow> (Inl (wrap ''synctang-unlocker: generating a pairing nonce'' e), Some c, h, rng, [])
     | Inr (nonce, rng1) \<Rightarrow>
    (case WriteMessage (challenge_to_json \<lparr>pcNonce = nonce, pcName = poMachineName o'\<rparr>) c of
       (Inl e, c1) \<Rightarrow>
         (Inl (wrap ''synctang-unlocker: sending the pairing challenge'' e), Some c1, h, rng1, [])
     | (Inr _, c1) \<Rightarrow>
    (case ReadMessage pair_request_of_json c1 of
       (Inl e, c2) \<Rightarrow>
         (Inl (wrap ''synctang-unlocker: reading the pairing request'' e), Some c2, h, rng1, [])
     | (Inr req, c2) \<Rightarrow>
         if PairProof (cr U) (poSecret o') (poMachineID o') (PeerID c) (prPubKey req) nonce \<noteq> prProof req then
           (case refusePairing c2 PairRefusedCodeMismatch of (r, c3) \<Rightarrow> (r, Some c3, h, rng1, []))
         else
           (case PointToX (gr U) (prPubKey req) of
              Inl _ \<Rightarrow>
                (case refusePairing c2 PairRefusedInvalidKey of (r, c3) \<Rightarrow> (r, Some c3, h, rng1, []))
            | Inr _ \<Rightarrow>
                (case enrolPaired U o' (PeerID c) (prPubKey req) c2 h rng1 of
                   (r, c3, h', rng', notes) \<Rightarrow> (r, Some c3, h', rng', notes)))))))"

section \<open>The questions\<close>

text \<open>
  What the operator typed: a line, or none (\<open>ReadString\<close> failed, even with part of a line).
  The result is the answer and what is printed.
\<close>

definition yes_answer :: "string \<Rightarrow> bool" where
  "yes_answer line = (let answer = ToLower (TrimSpace line) in answer = ''y'' \<or> answer = ''yes'')"

definition nl :: string where
  "nl = [CHR 0x0A]"

definition pairConfirmer :: "bool \<Rightarrow> string option \<Rightarrow> string \<Rightarrow> bytes \<Rightarrow> bool \<times> string" where
  "pairConfirmer assumeYes typed peerID pubKey =
    (if assumeYes then (True, [])
     else
       (let q = nl @ ''a key holder answered the pairing code:'' @ nl @ nl @
          ''  transport id:  '' @ peerID @ nl @
          ''  public key:    '' @ shortKid pubKey @ nl @ nl @ ''enrol it on this volume? [y/N] '' in
        case typed of
          None \<Rightarrow> (False, q @ nl @ ''no answer, so not enrolling (use --yes to skip this question)'' @ nl)
        | Some line \<Rightarrow> (yes_answer line, q)))"

definition pairReplaceConfirmer ::
    "bool \<Rightarrow> string option \<Rightarrow> string \<Rightarrow> existing_recipient \<Rightarrow> bytes \<Rightarrow> bool \<times> string" where
  "pairReplaceConfirmer assumeYes typed peerID existing newKid =
    (if assumeYes then (True, [])
     else
       (let q = nl @ ''a key holder that is already enrolled answered the pairing code:'' @ nl @ nl @
          ''  transport id:  '' @ peerID @ nl @ nl @
          ''replace the existing entry for this key holder (keyslot '' @ exKeyslot existing @ '', key '' @
          shortKid (exKid existing) @ '') with this one (key '' @ shortKid newKid @ '')? [y/N] '' in
        case typed of
          None \<Rightarrow> (False, q @ nl @ ''no answer, so not replacing (use --yes to skip this question)'' @ nl)
        | Some line \<Rightarrow> (yes_answer line, q)))"

text \<open>
  Where the answers come from: stdin, or the terminal when the passphrase takes stdin.
\<close>

datatype input = Stdin | Tty

definition confirmationInput :: "string \<Rightarrow> bool \<Rightarrow> unit res \<Rightarrow> input res" where
  "confirmationInput passphraseFile assumeYes openTTY =
    (if passphraseFile \<noteq> ''-'' \<or> assumeYes then Inr Stdin
     else
       (case openTTY of
          Inl e \<Rightarrow> Inl (Err (''the passphrase is read from stdin, so the confirmation question has to be '' @
            ''asked on a terminal, and none could be opened ('' @ error_text e @
            ''); use --yes to enrol whoever answers the code without asking''))
        | Inr _ \<Rightarrow> Inr Tty))"

section \<open>The window\<close>

text \<open>
  The attempts of \<open>runPair\<close>, one after the other on the header the last one left, until one
  succeeds or the window is over.  Each comes with what its \<open>Listen\<close> returns and whether the
  time was up after it; \<open>None\<close> while the window is still open.
\<close>

fun pairAttempts ::
    "'h unlocker \<Rightarrow> pairOptions \<Rightarrow> (transport_listen \<times> bool) list \<Rightarrow> 'h \<Rightarrow> bytes \<Rightarrow>
      (int \<times> 'h \<times> bytes) option" where
  "pairAttempts U o' [] h rng = None"
| "pairAttempts U o' ((Listen, timeUp) # rest) h rng =
    (case runPairOnce U o' Listen h rng of
       (Inr _, _, h', rng', _) \<Rightarrow> Some (0, h', rng')
     | (Inl e, _, h', rng', _) \<Rightarrow>
         if timeUp then Some (1, h', rng') else pairAttempts U o' rest h' rng')"

section \<open>Lemmas\<close>

lemma acknowledge_result: "acknowledge pre c = (Inr u, c') \<Longrightarrow>
    \<exists>c1. WriteMessage (result_to_json \<lparr>resOK = True, resError = []\<rparr>) c = (Inr (), c1)"
  by (auto simp: acknowledge_def split: prod.splits sum.splits)

text \<open>A peer that got past the code, and what it was planned to do.\<close>

definition proved :: "'h unlocker \<Rightarrow> pairOptions \<Rightarrow> conn \<Rightarrow> bytes \<Rightarrow> pair_request \<Rightarrow> bool" where
  "proved U o' c nonce req \<longleftrightarrow>
    length nonce = pairNonceLen \<and>
    prProof req = PairProof (cr U) (poSecret o') (poMachineID o') (PeerID c) (prPubKey req) nonce \<and>
    is_ok (PointToX (gr U) (prPubKey req))"

text \<open>
  The exchange an attempt really had: the connection that \<open>Listen\<close> returned, the nonce drawn from
  this attempt's randomness and sent on that connection, and the request read back from it.  Each
  of the three is determined by \<open>Listen\<close> and \<open>rng\<close>.
\<close>

definition asked ::
    "pairOptions \<Rightarrow> transport_listen \<Rightarrow> bytes \<Rightarrow> conn \<Rightarrow> bytes \<Rightarrow> pair_request \<Rightarrow> bool" where
  "asked o' Listen rng c nonce req \<longleftrightarrow>
    Listen ((poListenOpts o')\<lparr>AuthorizedPeers := []\<rparr>) = Inr c \<and> nonce = take pairNonceLen rng \<and>
    (\<exists>c1 c2. WriteMessage (challenge_to_json \<lparr>pcNonce = nonce, pcName = poMachineName o'\<rparr>) c = (Inr (), c1) \<and>
      ReadMessage pair_request_of_json c1 = (Inr req, c2))"

lemma asked_unique:
  assumes "asked o' Listen rng c nonce req" "asked o' Listen rng c' nonce' req'"
  shows "c' = c \<and> nonce' = nonce \<and> req' = req"
  using assms by (auto simp: asked_def)

lemma runPairOnce_proved:
  assumes "runPairOnce U o' Listen h rng = (r, c', h', rng', notes)"
  shows "(h' = h \<and> r \<noteq> Inr ()) \<or>
    (\<exists>c nonce rng1 c2 req c3. asked o' Listen rng c nonce req \<and> proved U o' c nonce req \<and>
      enrolPaired U o' (PeerID c) (prPubKey req) c2 h rng1 = (r, c3, h', rng', notes))"
proof -
  consider (stopped) "h' = h" "\<exists>e. r = Inl e"
    | (on) c nonce rng1 c1 req c2 where "Listen ((poListenOpts o')\<lparr>AuthorizedPeers := []\<rparr>) = Inr c"
      "rand_Read pairNonceLen rng = Inr (nonce, rng1)"
      "WriteMessage (challenge_to_json \<lparr>pcNonce = nonce, pcName = poMachineName o'\<rparr>) c = (Inr (), c1)"
      "ReadMessage pair_request_of_json c1 = (Inr req, c2)"
    using assms unfolding runPairOnce_def by (auto split: sum.splits prod.splits)
  then show ?thesis
  proof cases
    case on
    note run = assms [unfolded runPairOnce_def on sum.case prod.case]
    show ?thesis
    proof (cases "PairProof (cr U) (poSecret o') (poMachineID o') (PeerID c) (prPubKey req) nonce = prProof req \<and>
        is_ok (PointToX (gr U) (prPubKey req))")
      case True
      have n: "length nonce = pairNonceLen" "nonce = take pairNonceLen rng"
        using on(2) by (auto simp: rand_Read_def ReadFull_Inr split: sum.splits)
      with True have "proved U o' c nonce req" by (simp add: proved_def)
      moreover from on n have "asked o' Listen rng c nonce req" unfolding asked_def by blast
      moreover obtain a b d f g where "enrolPaired U o' (PeerID c) (prPubKey req) c2 h rng1 = (a, b, d, f, g)"
        by (cases rule: prod_cases5)
      moreover from this run True have "a = r" "d = h'" "f = rng'" "g = notes" by (auto simp: is_ok_iff)
      ultimately show ?thesis using on by blast
    next
      case False
      with run have "h' = h \<and> r \<noteq> Inr ()"
        by (auto simp: refusePairing_def split: if_splits sum.splits)
      then show ?thesis by blast
    qed
  qed auto
qed

text \<open>What had to be agreed to, and which operation then ran.\<close>

lemma enrolPaired_cases:
  assumes "enrolPaired U o' peerID pubKey c h rng = (r, c', h', rng', notes)"
  obtains (refused) "h' = h" "r \<noteq> Inr ()"
  | (already) ex where "planEnrolment U pubKey peerID h = Inr (PlanAlready ex)" "h' = h"
  | (replaced) ex ask q where "planEnrolment U pubKey peerID h = Inr (PlanReplace ex)"
      "poConfirmReplace o' = Some ask" "ask peerID ex (sha256Sum (cr U) pubKey)"
      "replaceRecipient U (poDevice o') (poPassphrase o') pubKey peerID peerID (exKeyslot ex) h rng = (q, h', rng')"
      "r = Inr () \<Longrightarrow> q = Inr ()"
  | (added) q where "planEnrolment U pubKey peerID h = Inr PlanAdd"
      "poConfirm o' = None \<or> (\<exists>ask. poConfirm o' = Some ask \<and> ask peerID pubKey)"
      "enrolRecipient U (poPassphrase o') pubKey (poMachineName o') (poMachineID o') peerID h rng = (q, h', rng')"
      "r = Inr () \<Longrightarrow> q = Inr ()"
proof (cases "planEnrolment U pubKey peerID h")
  case (Inl e)
  with assms refused show thesis by (auto simp: enrolPaired_def)
next
  case (Inr plan)
  note run = assms [unfolded enrolPaired_def Inr sum.case]
  show thesis
  proof (cases plan)
    case PlanAdd
    obtain q h1 rng1 where e: "enrolRecipient U (poPassphrase o') pubKey (poMachineName o') (poMachineID o') peerID h rng =
        (q, h1, rng1)" by (cases rule: prod_cases3)
    show thesis
    proof (cases "case poConfirm o' of None \<Rightarrow> True | Some ask \<Rightarrow> ask peerID pubKey")
      case True
      with run PlanAdd e have "h1 = h'" "rng1 = rng'" "r = Inr () \<Longrightarrow> q = Inr ()"
        by (auto simp: Let_def split: sum.splits prod.splits)
      with True e Inr PlanAdd added show thesis by (auto split: option.splits)
    next
      case False
      with run PlanAdd refused show thesis by (auto simp: Let_def refusePairing_def)
    qed
  next
    case (PlanAlready ex)
    with run Inr already show thesis by (auto split: prod.splits)
  next
    case (PlanReplace ex)
    obtain q h1 rng1 where e: "replaceRecipient U (poDevice o') (poPassphrase o') pubKey peerID peerID
        (exKeyslot ex) h rng = (q, h1, rng1)" by (cases rule: prod_cases3)
    show thesis
    proof (cases "case poConfirmReplace o' of None \<Rightarrow> False | Some ask \<Rightarrow> ask peerID ex (sha256Sum (cr U) pubKey)")
      case True
      with run PlanReplace e have "h1 = h'" "rng1 = rng'" "r = Inr () \<Longrightarrow> q = Inr ()"
        by (auto simp: Let_def split: sum.splits prod.splits)
      with True e Inr PlanReplace replaced show thesis by (auto split: option.splits)
    next
      case False
      with run PlanReplace refused show thesis by (auto simp: Let_def refusePairing_def)
    qed
  qed
qed

lemma plan_has_token:
  assumes "cryptsetup_ok (cs U) keys toks"
    and "planEnrolment U pub tid h = Inr plan" "plan \<noteq> PlanAdd"
  shows "\<exists>t tok. mr_token toks h t tok"
proof -
  from assms(2,3) obtain d tok i where "luksDump (cs U) h = Inr d" "loadToken U h d [] [] = Inr (tok, i)" "\<not> i < 0"
    by (auto simp: planEnrolment_def split: sum.splits prod.splits if_splits)
  from loadToken_reads [OF assms(1) this(1,2)] this(3) show ?thesis by (auto simp: mr_token_def)
qed

lemma with_transport_names:
  assumes "devid_ok U" "with_transport U tid rec rec'" "tid \<noteq> []"
  shows "\<exists>got. TransportDeviceID rec' = Some got \<and> canonicalOrRaw U got = canonicalOrRaw U tid"
proof -
  from assms(2,3) obtain c where c: "canonicalDeviceID U tid = Inr c"
    "rec' = rec\<lparr>Transport := Some (JObj [(''device_id'', JStr c)])\<rparr>" by (auto simp: with_transport_def)
  from c(1) obtain x where "DeviceIDFromString U x = Inr c"
    by (auto simp: canonicalDeviceID_def Let_def split: if_splits sum.splits)
  with assms(1) have "c \<noteq> []" "TrimSpace c = c" "DeviceIDFromString U c = Inr c" by (auto simp: devid_ok_def)
  then have "canonicalDeviceID U c = Inr c" "TransportDeviceID rec' = Some c"
    using c(2) by (simp_all add: canonicalDeviceID_def TransportDeviceID_def to_struct_def)
  with c(1) show ?thesis by (simp add: canonicalOrRaw_def)
qed

lemma new_entry:
  assumes "i < length (Recipients tok)"
  shows "\<exists>j < length (Recipients (drop_recipient (add_recipient tok slot rec') i)).
    Recipients (drop_recipient (add_recipient tok slot rec') i) ! j = rec'"
proof -
  have "Recipients (drop_recipient (add_recipient tok slot rec') i) =
      (take i (Recipients tok) @ drop (Suc i) (Recipients tok)) @ [rec']"
    using assms by (simp add: drop_recipient_def add_recipient_def remove_at_def)
  then have "rec' \<in> set (Recipients (drop_recipient (add_recipient tok slot rec') i))" by simp
  then show ?thesis unfolding in_set_conv_nth .
qed

section \<open>Properties\<close>

text \<open>
  C13. Only the code and the operator get a stranger in.  Whoever connects, either the header stays
  as it was and an error is returned, or this happened on the connection \<open>Listen\<close> returned: the
  machine sent the nonce it drew for this attempt, and the request the peer sent back carried a
  valid point together with the MAC of it, the peer's own verified identity, the machine's and that
  nonce under the pairing secret.  And then a change was made only with the consent that the plan
  for that peer calls for.
\<close>

theorem pairing_needs_code_and_consent:
  assumes "runPairOnce U o' Listen h rng = (r, c', h', rng', notes)"
  shows "(h' = h \<and> r \<noteq> Inr ()) \<or>
    (\<exists>c nonce req plan. asked o' Listen rng c nonce req \<and>
      proved U o' c nonce req \<and> planEnrolment U (prPubKey req) (PeerID c) h = Inr plan \<and>
      (case plan of
         PlanAlready ex \<Rightarrow> h' = h
       | PlanAdd \<Rightarrow> poConfirm o' = None \<or>
           (\<exists>ask. poConfirm o' = Some ask \<and> ask (PeerID c) (prPubKey req))
       | PlanReplace ex \<Rightarrow> \<exists>ask. poConfirmReplace o' = Some ask \<and>
           ask (PeerID c) ex (sha256Sum (cr U) (prPubKey req))))"
  using runPairOnce_proved [OF assms]
proof
  assume "\<exists>c nonce rng1 c2 req c3. asked o' Listen rng c nonce req \<and> proved U o' c nonce req \<and>
      enrolPaired U o' (PeerID c) (prPubKey req) c2 h rng1 = (r, c3, h', rng', notes)"
  then obtain c nonce rng1 c2 req c3 where c: "asked o' Listen rng c nonce req"
    "proved U o' c nonce req" "enrolPaired U o' (PeerID c) (prPubKey req) c2 h rng1 = (r, c3, h', rng', notes)"
    by blast
  from c(3) show ?thesis
  proof (cases rule: enrolPaired_cases)
    case refused
    then show ?thesis by blast
  next
    case (already ex)
    with c(1,2) show ?thesis by fastforce
  next
    case (replaced ex ask q)
    with c(1,2) show ?thesis by fastforce
  next
    case (added q)
    with c(1,2) show ?thesis by fastforce
  qed
qed blast

text \<open>
  C14. A pairing that succeeds has enrolled the key holder that asked: afterwards the volume's
  token has an entry with the verified transport id of the peer \<open>Listen\<close> connected and the id of
  the very key in the request read from that connection, whose proof was right for the nonce sent
  on it; and the header is well formed.
\<close>

theorem pairing_success_enrols:
  assumes "cryptsetup_ok (cs U) keys toks" and "devid_ok U" and "header_ok keys toks h"
    and "valid_utf8 (poMachineName o')" and "valid_utf8 (poMachineID o')"
    and "\<forall>lo c. Listen lo = Inr c \<longrightarrow> PeerID c \<noteq> []"
    and "runPairOnce U o' Listen h rng = (Inr u, c', h', rng', notes)"
  shows "\<exists>c nonce req t tok i. asked o' Listen rng c nonce req \<and>
    proved U o' c nonce req \<and> mr_token toks h' t tok \<and> has_transport U tok (PeerID c) i \<and>
    Kid (Recipients tok ! i) = sha256Sum (cr U) (prPubKey req) \<and> header_ok keys toks h'"
proof -
  from runPairOnce_proved [OF assms(7)] obtain c nonce rng1 c2 req c3 where
    c: "asked o' Listen rng c nonce req" "proved U o' c nonce req"
      "enrolPaired U o' (PeerID c) (prPubKey req) c2 h rng1 = (Inr u, c3, h', rng', notes)" by auto
  let ?goal = "\<exists>t tok i. mr_token toks h' t tok \<and> has_transport U tok (PeerID c) i \<and>
    Kid (Recipients tok ! i) = sha256Sum (cr U) (prPubKey req) \<and> header_ok keys toks h'"
  have ne: "PeerID c \<noteq> []" using assms(6) c(1) by (auto simp: asked_def)
  have kid: "Kid rec' = sha256Sum (cr U) (prPubKey req)"
    if "Enrol (gr U) (cr U) (prPubKey req) x = Inr (P, rec, y)" "with_transport U (PeerID c) rec rec'" for x P rec y rec'
    using that by (auto simp: Enrol_Inr with_transport_def)
  have "?goal"
    using c(3)
  proof (cases rule: enrolPaired_cases)
    case refused
    then show ?thesis by simp
  next
    case (already ex)
    from plan_has_token [OF assms(1) already(1)] obtain t tok where t: "mr_token toks h t tok" by auto
    from plan_correct [OF assms(1,3) t already(1)] t assms(3) already(2) show ?thesis by auto
  next
    case (replaced ex ask q)
    have q: "q = Inr ()" using replaced(5) by simp
    from replace_effect [OF assms(1-3) replaced(4) [unfolded q]] obtain t tok i n slot P rec rec'
      where e: "selectRecipient U tok (PeerID c) (exKeyslot ex) = Inr i"
        "Enrol (gr U) (cr U) (prPubKey req) rng1 = Inr (P, rec, rng')" "with_transport U (PeerID c) rec rec'"
        "mr_token toks h' t (drop_recipient (add_recipient tok slot rec') i)" "header_ok keys toks h'" by blast
    have "i < length (Recipients tok)" using selectRecipient_Inr [OF e(1)] by (simp add: has_transport_def)
    from new_entry [OF this] obtain j where
      "j < length (Recipients (drop_recipient (add_recipient tok slot rec') i))"
      "Recipients (drop_recipient (add_recipient tok slot rec') i) ! j = rec'" by blast
    with with_transport_names [OF assms(2) e(3) ne] kid [OF e(2,3)] e(4,5) show ?thesis
      unfolding has_transport_def by metis
  next
    case (added q)
    have q: "q = Inr ()" using added(4) by simp
    from enrol_correct [OF assms(1,2,4,5,3) added(3) [unfolded q]] obtain slot P rec rec' n tok
      where e: "Enrol (gr U) (cr U) (prPubKey req) rng1 = Inr (P, rec, rng')" "with_transport U (PeerID c) rec rec'"
        "mr_token toks h' n (add_recipient tok slot rec')" "header_ok keys toks h'" by blast
    have "Recipients (add_recipient tok slot rec') ! length (Recipients tok) = rec'"
      "length (Recipients tok) < length (Recipients (add_recipient tok slot rec'))"
      by (simp_all add: add_recipient_def)
    with with_transport_names [OF assms(2) e(2) ne] kid [OF e(1,2)] e(3,4) show ?thesis
      unfolding has_transport_def by metis
  qed
  with c(1,2) show ?thesis by blast
qed

end
