(* ===== verification/PairDemo.thy ===== *)
theory PairDemo
  imports PairFlow Recovery
begin

text \<open>
  A pairing that runs on the header of theory \<open>HeaderDemo\<close>, and a key file that is written and
  read: the witnesses of theories \<open>PairFlow\<close> and \<open>Keyholder\<close>.
\<close>

section \<open>A key holder that proves the code\<close>

definition demo_pairNonce :: bytes where
  "demo_pairNonce = replicate 32 7"

definition demo_pairOptions :: pairOptions where
  "demo_pairOptions = \<lparr>poDevice = ''/dev/sda'', poPassphrase = demo_pass, poMachineID = ''M'',
     poMachineName = ''host'', poSecret = replicate 10 1, poConfirm = None, poConfirmReplace = None,
     poListenOpts = \<lparr>AuthorizedPeers = [], loDirectAddr = []\<rparr>\<rparr>"

definition demo_request :: pair_request where
  "demo_request = \<lparr>prPubKey = demo_pub, prName = ''phone'',
     prProof = PairProof plain_crypto (replicate 10 1) ''M'' demo_phone demo_pub demo_pairNonce\<rparr>"

definition demo_pairConn :: conn where
  "demo_pairConn = demo_conn (frame (pair_request_to_json demo_request))"

lemma length_pair_request: "length (json_print (pair_request_to_json m)) \<le>
    24 * (length (prPubKey m) + length (prProof m)) + 6 * length (prName m) + 150"
  using length_of_bytes [of "prPubKey m"] length_of_bytes [of "prProof m"] length_quote [of "prName m"]
  length_quote [of "''pubkey''"] length_quote [of "''name''"] length_quote [of "''proof''"]
  by (simp add: pair_request_to_json_def omitempty_def)

lemma length_challenge: "length (json_print (challenge_to_json m)) \<le>
    24 * length (pcNonce m) + 6 * length (pcName m) + 150"
  using length_of_bytes [of "pcNonce m"] length_quote [of "pcName m"]
  length_quote [of "''nonce''"] length_quote [of "''name''"]
  by (simp add: challenge_to_json_def omitempty_def)

lemma demo_plan: "planEnrolment demo_U demo_pub demo_phone demo_h0 = Inr PlanAdd"
proof -
  have "loadToken demo_U demo_h0 (dump_text (mem_items demo_h0)) [] [] = Inr (fresh_token [] [], -1)"
    using mem_dump(3) [OF demo_h_ok(1), of mrTokenType]
    by (simp add: loadToken_def demo_h0_def fresh_token_def)
  then show ?thesis
    using mem_dump(1) [OF demo_h_ok(1)] by (simp add: planEnrolment_def)
qed

lemma demo_pub_point: "length demo_pub \<le> 65" "is_ok (PointToX (p256Group zn_nistec) demo_pub)"
proof -
  have p: "zn_pt 2 = 2" by (simp add: zn_pt_def p256N_def)
  show "length demo_pub \<le> 65" using point_bytes [OF zn_nistec_ok, of 2] by (simp add: p)
  have "SetBytes zn_nistec demo_pub = Inr (zn_pt 2)" unfolding p by (rule zn_Bytes_decode) (simp add: p256N_def)
  then show "is_ok (PointToX (p256Group zn_nistec) demo_pub)"
    using nistec_BytesX [OF zn_nistec_ok, of 2] by (auto simp: p256_PointToX_def p256N_def)
qed

lemma demo_pair_run:
  obtains rec c' where
    "runPairOnce demo_U demo_pairOptions (\<lambda>_. Inr demo_pairConn) demo_h0 (demo_pairNonce @ demo_rng) =
      (Inr (), Some c', demo_h1 rec, [], [])"
proof -
  obtain rec where rec: "enrolRecipient demo_U demo_pass demo_pub ''host'' ''M'' demo_phone demo_h0 demo_rng =
      (Inr (), demo_h1 rec, [])" by (rule demo_enrol_run)
  let ?ch = "challenge_to_json \<lparr>pcNonce = demo_pairNonce, pcName = ''host''\<rparr>"
  let ?o = "result_to_json \<lparr>resOK = True, resError = []\<rparr>"
  have n: "rand_Read pairNonceLen (demo_pairNonce @ demo_rng) = Inr (demo_pairNonce, demo_rng)"
    by (simp add: rand_Read_def ReadFull_def pairNonceLen_def demo_pairNonce_def)
  have p: "length (prProof demo_request) = 32" "length (prPubKey demo_request) \<le> 65" "prName demo_request = ''phone''"
    using demo_pub_point(1) by (simp_all add: demo_request_def PairProof_def plain_crypto_def)
  have s: "length (json_print ?ch) \<le> maxMessageSize" "length (json_print ?o) \<le> maxMessageSize"
    "length (json_print (pair_request_to_json demo_request)) \<le> maxMessageSize"
    using length_challenge [of "\<lparr>pcNonce = demo_pairNonce, pcName = ''host''\<rparr>"] length_result_ok
      length_pair_request [of demo_request] p
    by (simp_all add: demo_pairNonce_def maxMessageSize_def)
  obtain c1 where w: "WriteMessage ?ch demo_pairConn = (Inr (), c1)" "rx c1 = rx demo_pairConn" "writes_left c1 = None"
    using WriteMessage_ok [OF s(1), of demo_pairConn] by (simp add: demo_pairConn_def demo_conn_def)
  have v: "valid_utf8 (prName demo_request)" unfolding p(3) by (simp add: valid_utf8_ascii is_ascii_def)
  have rd: "ReadMessage pair_request_of_json c1 = (Inr demo_request, c1\<lparr>rx := []\<rparr>)"
    using pair_request.read_written [OF v s(3), of c1 "[]"] w(2) by (simp add: demo_pairConn_def demo_conn_def)
  obtain c4 where a: "acknowledge (demo_phone @ '' was enrolled'') (c1\<lparr>rx := []\<rparr>) = (Inr (), c4)"
    using WriteMessage_ok [OF s(2), of "c1\<lparr>rx := []\<rparr>"] w(3) by (simp add: acknowledge_def)
  have o': "poConfirm demo_pairOptions = None" "poPassphrase demo_pairOptions = demo_pass"
    "poMachineName demo_pairOptions = ''host''" "poMachineID demo_pairOptions = ''M''"
    "poSecret demo_pairOptions = replicate 10 1"
    by (simp_all add: demo_pairOptions_def)
  have r: "prPubKey demo_request = demo_pub"
    "prProof demo_request = PairProof plain_crypto (replicate 10 1) ''M'' demo_phone demo_pub demo_pairNonce"
    by (simp_all add: demo_request_def)
  have e: "enrolPaired demo_U demo_pairOptions demo_phone demo_pub (c1\<lparr>rx := []\<rparr>) demo_h0 demo_rng =
      (Inr (), c4, demo_h1 rec, [], [])"
    unfolding enrolPaired_def demo_plan o' using rec a by simp
  have peer: "PeerID demo_pairConn = demo_phone" by (simp add: demo_pairConn_def demo_conn_def)
  obtain x where x: "p256_PointToX zn_nistec demo_pub = Inr x" using demo_pub_point(2) by (auto simp: is_ok_iff)
  have "runPairOnce demo_U demo_pairOptions (\<lambda>_. Inr demo_pairConn) demo_h0 (demo_pairNonce @ demo_rng) =
      (Inr (), Some c4, demo_h1 rec, [], [])"
    unfolding runPairOnce_def o' sum.case n prod.case w(1) rd r peer using e x by simp
  with that show thesis by blast
qed

lemma pairing_needs_code_and_consent_witness:
  "\<exists>h' c' nonce req. runPairOnce demo_U demo_pairOptions (\<lambda>_. Inr demo_pairConn) demo_h0 (demo_pairNonce @ demo_rng) =
      (Inr (), c', h', [], []) \<and>
    asked demo_pairOptions (\<lambda>_. Inr demo_pairConn) (demo_pairNonce @ demo_rng) demo_pairConn nonce req \<and>
    proved demo_U demo_pairOptions demo_pairConn nonce req"
proof -
  obtain rec c' where run: "runPairOnce demo_U demo_pairOptions (\<lambda>_. Inr demo_pairConn) demo_h0
      (demo_pairNonce @ demo_rng) = (Inr (), Some c', demo_h1 rec, [], [])" by (rule demo_pair_run)
  from pairing_needs_code_and_consent [OF run] obtain c nonce req where
    "asked demo_pairOptions (\<lambda>_. Inr demo_pairConn) (demo_pairNonce @ demo_rng) c nonce req"
    "proved demo_U demo_pairOptions c nonce req" by blast
  moreover from this(1) have "c = demo_pairConn" by (simp add: asked_def)
  ultimately show ?thesis using run by blast
qed

lemma pairing_success_enrols_witness:
  "\<exists>h' c' t tok i. runPairOnce demo_U demo_pairOptions (\<lambda>_. Inr demo_pairConn) demo_h0 (demo_pairNonce @ demo_rng) =
      (Inr (), c', h', [], []) \<and> mr_token mem_toks h' t tok \<and> has_transport demo_U tok demo_phone i"
proof -
  obtain rec c' where run: "runPairOnce demo_U demo_pairOptions (\<lambda>_. Inr demo_pairConn) demo_h0
      (demo_pairNonce @ demo_rng) = (Inr (), Some c', demo_h1 rec, [], [])" by (rule demo_pair_run)
  have ok: "cryptsetup_ok (cs demo_U) mem_keys mem_toks" by (simp add: mem_cs_ok)
  have u: "valid_utf8 (poMachineName demo_pairOptions)" "valid_utf8 (poMachineID demo_pairOptions)"
    by (simp_all add: demo_pairOptions_def valid_utf8_ascii is_ascii_def)
  have peer: "PeerID demo_pairConn = demo_phone" by (simp add: demo_pairConn_def demo_conn_def)
  have ne: "\<forall>lo c. (\<lambda>_::listen_options. Inr demo_pairConn) lo = Inr c \<longrightarrow> PeerID c \<noteq> []"
    by (simp add: peer demo_phone_def)
  from pairing_success_enrols [OF ok demo_devid_ok demo_h0_header_ok u, OF ne run] obtain c nonce req t tok i where
    "asked demo_pairOptions (\<lambda>_. Inr demo_pairConn) (demo_pairNonce @ demo_rng) c nonce req"
    "mr_token mem_toks (demo_h1 rec) t tok" "has_transport demo_U tok (PeerID c) i" by blast
  moreover from this(1) have "c = demo_pairConn" by (simp add: asked_def)
  ultimately show ?thesis using run unfolding peer [symmetric] by blast
qed

section \<open>A key file\<close>

definition demo_fs :: filesys where
  "demo_fs = \<lparr>files = Map.empty, readErr = (\<lambda>_. None), mkdirErr = (\<lambda>_. None), writeErr = (\<lambda>_. None)\<rparr>"

lemma key_file_roundtrip_witness:
  "\<exists>fs'. generateAndSave (p256Group zn_nistec) ''/k/device.key'' False demo_fs (scalar 5) = (Inr (scalar 5), fs', []) \<and>
    loadPrivateKey ''/k/device.key'' fs' = Inr (scalar 5)"
proof -
  have r: "RandomScalar (p256Group zn_nistec) (scalar 5) = Inr (scalar 5, [])"
    using randomScalarFrom_accept [of "scalar 5" "[]"] by (simp add: be_nat_scalar p256N_def)
  then obtain fs' where run: "generateAndSave (p256Group zn_nistec) ''/k/device.key'' False demo_fs (scalar 5) =
      (Inr (scalar 5), fs', [])"
    by (simp add: generateAndSave_def os_WriteFile_def demo_fs_def)
  have "readErr demo_fs ''/k/device.key'' = None" by (simp add: demo_fs_def)
  from key_file_roundtrip [OF run this] run show ?thesis by auto
qed

end
