(* ===== verification/Race.thy ===== *)
theory Race
  imports Exchange "HOL-Library.Multiset"
begin

text \<open>
  \<open>Multi\<close> of \<open>mrcore/transport/multi.go\<close>: several transports raced against each other.  The
  goroutines of \<open>race\<close> (the attempts, the delayed restarts, the one that closes late arrivals),
  the channel between them and the loop that receives from it are a step relation on their
  shared state; what a transport does, and when, is the environment.
\<close>

section \<open>The state\<close>

text \<open>
  Transports are named by their index, connections by a number each.  \<open>attempts\<close> and \<open>delays\<close>
  are the goroutines that run an attempt and that wait to restart one; \<open>closing\<close> is how many
  results \<open>closeLateArrivals\<close> still waits for; \<open>cancels\<close> holds the keys of the map of that name
  and \<open>cancelled\<close> those whose current context has been cancelled.  \<open>Taken i c k\<close> is the moment
  between the two sections of the mutex on the successful path: the connection has been received
  and \<open>stillRunning = k\<close> read, the others are not cancelled yet, and a restart can come in between.
\<close>

datatype race_outcome = Racing | Taken nat nat int | Won nat nat | Lost goerr

type_synonym multiResult = "nat \<times> nat res"

record race =
  attempts :: "nat multiset"
  results :: "multiResult list"
  delays :: "nat multiset"
  closing :: nat
  cancels :: "nat set"
  cancelled :: "nat set"
  outstanding :: int
  lastErr :: "nat \<rightharpoonup> goerr"
  ctxDone :: bool
  outcome :: race_outcome
  onWin :: "nat list"
  opened :: "nat set"
  closed :: "nat set"

definition launch :: "nat \<Rightarrow> race \<Rightarrow> race" where
  "launch i s = s\<lparr>attempts := add_mset i (attempts s), cancels := insert i (cancels s),
     cancelled := cancelled s - {i}, outstanding := outstanding s + 1\<rparr>"

definition cancelAllExcept :: "nat option \<Rightarrow> race \<Rightarrow> race" where
  "cancelAllExcept winner s = s\<lparr>cancelled := cancelled s \<union> {i \<in> cancels s. winner \<noteq> Some i}\<rparr>"

definition idle :: race where
  "idle = \<lparr>attempts = {#}, results = [], delays = {#}, closing = 0, cancels = {}, cancelled = {},
     outstanding = 0, lastErr = Map.empty, ctxDone = False, outcome = Racing, onWin = [],
     opened = {}, closed = {}\<rparr>"

definition race_start :: "nat \<Rightarrow> race" where
  "race_start n = fold launch [0..<n] idle"

definition multi_race :: "nat \<Rightarrow> race res" where
  "multi_race n =
    (if n = 0 then Inl (Err ''transport: Multi has no transports configured'') else Inr (race_start n))"

definition multi_Dial :: "string \<Rightarrow> nat \<Rightarrow> race res" where
  "multi_Dial peerID n = (if peerID = [] then Inl ErrNoPeerID else multi_race n)"

definition multi_Listen :: "nat \<Rightarrow> race res" where
  "multi_Listen n = multi_race n"

definition retryInterval :: "int \<Rightarrow> int" where
  "retryInterval configured = (if configured \<noteq> 0 then configured else 2 * 1000000000)"

text \<open>
  The errors of a race in the order of a walk over the map \<open>lastErr\<close>, which is any order.
\<close>

definition walk_of :: "(nat \<rightharpoonup> goerr) \<Rightarrow> nat list \<Rightarrow> bool" where
  "walk_of m ord \<longleftrightarrow> distinct ord \<and> set ord = dom m"

definition errs_in :: "(nat \<rightharpoonup> goerr) \<Rightarrow> nat list \<Rightarrow> goerr list" where
  "errs_in m ord = map (\<lambda>i. the (m i)) ord"

definition on_done :: "goerr \<Rightarrow> nat list \<Rightarrow> race \<Rightarrow> race" where
  "on_done ctxErr ord s =
    (cancelAllExcept None s)\<lparr>outcome := Lost (Joined (errs_in (lastErr s) ord @ [ctxErr]))\<rparr>"

definition on_taken :: "nat \<Rightarrow> nat \<Rightarrow> race \<Rightarrow> race" where
  "on_taken i c s =
    (let stillRunning = outstanding s - 1 in
     s\<lparr>outstanding := stillRunning, outcome := Taken i c stillRunning\<rparr>)"

definition on_success :: "nat \<Rightarrow> nat \<Rightarrow> int \<Rightarrow> race \<Rightarrow> race" where
  "on_success i c stillRunning s =
    (let s1 = cancelAllExcept (Some i) s in
     s1\<lparr>closing := (if stillRunning > 0 then nat stillRunning else 0),
        onWin := onWin s @ [i], outcome := Won i c\<rparr>)"

text \<open>
  A failed result takes the mutex twice as well.  What a restart in between can change is only the
  \<open>outstanding\<close> that \<open>finished\<close> looks at, and \<open>finished\<close> is used where nothing is restarted.
\<close>

definition on_failure :: "bool \<Rightarrow> nat \<Rightarrow> nat \<Rightarrow> goerr \<Rightarrow> nat list \<Rightarrow> race \<Rightarrow> race" where
  "on_failure retryFailed n i e ord s =
    (let errs = (lastErr s)(i \<mapsto> e);
         s1 = s\<lparr>outstanding := outstanding s - 1, lastErr := errs,
            cancelled := (if i \<in> cancels s then insert i (cancelled s) else cancelled s),
            cancels := cancels s - {i}\<rparr>;
         finished = (card (dom errs) = n \<and> outstanding s1 = 0) in
     if \<not> retryFailed then
       (if finished then (cancelAllExcept None s1)\<lparr>outcome := Lost (Joined (errs_in errs ord))\<rparr> else s1)
     else s1\<lparr>delays := add_mset i (delays s1)\<rparr>)"

section \<open>The steps\<close>

text \<open>
  \<open>Dial\<close> races with \<open>retryFailed\<close> false, \<open>Listen\<close> with true.
\<close>

inductive race_step :: "bool \<Rightarrow> nat \<Rightarrow> race \<Rightarrow> race \<Rightarrow> bool" for retry n where
  connected: "\<lbrakk>i \<in># attempts s; c \<notin> opened s\<rbrakk> \<Longrightarrow>
    race_step retry n s (s\<lparr>attempts := attempts s - {#i#}, results := results s @ [(i, Inr c)],
      opened := insert c (opened s)\<rparr>)"
| failed: "i \<in># attempts s \<Longrightarrow>
    race_step retry n s (s\<lparr>attempts := attempts s - {#i#}, results := results s @ [(i, Inl e)]\<rparr>)"
| ctx_ends: "\<not> ctxDone s \<Longrightarrow> race_step retry n s (s\<lparr>ctxDone := True\<rparr>)"
| loop_done: "\<lbrakk>outcome s = Racing; ctxDone s; walk_of (lastErr s) ord\<rbrakk> \<Longrightarrow>
    race_step retry n s (on_done e ord s)"
| loop_takes: "\<lbrakk>outcome s = Racing; results s = (i, Inr c) # rest\<rbrakk> \<Longrightarrow>
    race_step retry n s (on_taken i c (s\<lparr>results := rest\<rparr>))"
| loop_success: "outcome s = Taken i c k \<Longrightarrow> race_step retry n s (on_success i c k s)"
| loop_failure: "\<lbrakk>outcome s = Racing; results s = (i, Inl e) # rest; walk_of ((lastErr s)(i \<mapsto> e)) ord\<rbrakk> \<Longrightarrow>
    race_step retry n s (on_failure retry n i e ord (s\<lparr>results := rest\<rparr>))"
| delay_over: "i \<in># delays s \<Longrightarrow>
    race_step retry n s (launch i (s\<lparr>delays := delays s - {#i#}\<rparr>))"
| delay_cancelled: "\<lbrakk>i \<in># delays s; ctxDone s\<rbrakk> \<Longrightarrow>
    race_step retry n s (s\<lparr>delays := delays s - {#i#}\<rparr>)"
| late_success: "\<lbrakk>closing s = Suc k; results s = (i, Inr c) # rest\<rbrakk> \<Longrightarrow>
    race_step retry n s (s\<lparr>closing := k, results := rest, closed := insert c (closed s)\<rparr>)"
| late_failure: "\<lbrakk>closing s = Suc k; results s = (i, Inl e) # rest\<rbrakk> \<Longrightarrow>
    race_step retry n s (s\<lparr>closing := k, results := rest\<rparr>)"
| close_winner: "\<lbrakk>outcome s = Won i c; c \<notin> closed s\<rbrakk> \<Longrightarrow>
    race_step retry n s (s\<lparr>closed := insert c (closed s), cancelled := insert i (cancelled s)\<rparr>)"

definition race_run :: "bool \<Rightarrow> nat \<Rightarrow> race \<Rightarrow> race \<Rightarrow> bool" where
  "race_run retry n = (race_step retry n)\<^sup>*\<^sup>*"

definition race_reachable :: "bool \<Rightarrow> nat \<Rightarrow> race \<Rightarrow> bool" where
  "race_reachable retry n s \<longleftrightarrow> race_run retry n (race_start n) s"

fun conns_in :: "multiResult list \<Rightarrow> nat list" where
  "conns_in [] = []"
| "conns_in ((i, Inr c) # rs) = c # conns_in rs"
| "conns_in ((i, Inl e) # rs) = conns_in rs"

section \<open>Lemmas\<close>

lemma conns_in_append [simp]: "conns_in (rs @ rs') = conns_in rs @ conns_in rs'"
  by (induction rs rule: conns_in.induct) simp_all

lemma race_start_eq:
  "race_start n = idle\<lparr>attempts := mset [0..<n], cancels := {0..<n}, outstanding := int n\<rparr>"
proof (induction n)
  case 0
  then show ?case by (simp add: race_start_def idle_def)
next
  case (Suc n)
  have "race_start (Suc n) = launch n (race_start n)" by (simp add: race_start_def)
  with Suc show ?case by (auto simp: launch_def idle_def)
qed

text \<open>Who works for a transport: an attempt, a result on its way, a delayed restart.\<close>

definition working :: "race \<Rightarrow> nat multiset" where
  "working s = attempts s + mset (map fst (results s))"

definition winner_conn :: "race \<Rightarrow> nat list" where
  "winner_conn s = (case outcome s of Won i c \<Rightarrow> [c] | Taken i c k \<Rightarrow> [c] | _ \<Rightarrow> [])"

definition once :: "nat \<Rightarrow> nat multiset \<Rightarrow> bool" where
  "once n M \<longleftrightarrow> (\<forall>j. count M j \<le> (if j < n then 1 else 0))"

lemma once_add: "once n (add_mset i M) \<Longrightarrow> i < n \<and> i \<notin># M \<and> once n M"
proof -
  assume o': "once n (add_mset i M)"
  then have "Suc (count M i) \<le> (if i < n then 1 else 0)" unfolding once_def by (metis count_add_mset)
  then have "i < n \<and> i \<notin># M" by (simp add: not_in_iff split: if_splits)
  moreover have "once n M"
    unfolding once_def
  proof
    fix j
    have "count M j \<le> count (add_mset i M) j" by simp
    with o' show "count M j \<le> (if j < n then 1 else 0)" unfolding once_def by (meson le_trans)
  qed
  ultimately show ?thesis by blast
qed

lemma once_size: "once n M \<Longrightarrow> size M \<le> n"
proof -
  assume "once n M"
  then have "M \<subseteq># mset_set {0..<n}" by (intro mset_subset_eqI) (auto simp: once_def count_mset_set' split: if_splits)
  from size_mset_mono [OF this] show ?thesis by simp
qed

lemma once_subset: "once n M \<Longrightarrow> N \<subseteq># M \<Longrightarrow> once n N"
  unfolding once_def by (meson le_trans mset_subset_eq_count)

text \<open>What holds while the loop runs, and once it has returned a connection.\<close>

definition racing_inv :: "bool \<Rightarrow> nat \<Rightarrow> race \<Rightarrow> bool" where
  "racing_inv retry n s \<longleftrightarrow>
    outstanding s = int (size (working s)) \<and> closing s = 0 \<and> closed s = {} \<and> onWin s = [] \<and>
    set_mset (working s) \<subseteq> cancels s \<and> set_mset (working s) \<inter> cancelled s = {} \<and>
    dom (lastErr s) \<subseteq> {0..<n} \<and>
    (\<not> retry \<longrightarrow> dom (lastErr s) = {0..<n} - set_mset (working s) \<and> (0 < n \<longrightarrow> working s \<noteq> {#}))"

definition taken_inv :: "bool \<Rightarrow> nat \<Rightarrow> race \<Rightarrow> nat \<Rightarrow> int \<Rightarrow> bool" where
  "taken_inv retry n s i k \<longleftrightarrow>
    onWin s = [] \<and> closing s = 0 \<and> closed s = {} \<and> i < n \<and> i \<in> cancels s - cancelled s \<and>
    i \<notin># working s + delays s \<and> 0 \<le> k \<and> k \<le> int (size (working s)) \<and>
    (\<not> retry \<longrightarrow> k = int (size (working s)))"

definition won_inv :: "bool \<Rightarrow> nat \<Rightarrow> race \<Rightarrow> nat \<Rightarrow> nat \<Rightarrow> bool" where
  "won_inv retry n s i c \<longleftrightarrow>
    onWin s = [i] \<and> i < n \<and> i \<in> cancels s \<and> i \<notin># working s + delays s \<and>
    (i \<in> cancelled s \<longleftrightarrow> c \<in> closed s) \<and>
    closing s \<le> size (working s) \<and> (\<not> retry \<longrightarrow> closing s = size (working s))"

definition all_failed :: "nat \<Rightarrow> (nat \<rightharpoonup> goerr) \<Rightarrow> goerr \<Rightarrow> bool" where
  "all_failed n errs e \<longleftrightarrow> dom errs = {0..<n} \<and>
    (\<exists>ord. distinct ord \<and> set ord = {0..<n} \<and> e = Joined (errs_in errs ord))"

definition given_up :: "race \<Rightarrow> goerr \<Rightarrow> bool" where
  "given_up s e \<longleftrightarrow> ctxDone s \<and> (\<exists>ord err. walk_of (lastErr s) ord \<and> e = Joined (errs_in (lastErr s) ord @ [err]))"

definition race_inv :: "bool \<Rightarrow> nat \<Rightarrow> race \<Rightarrow> bool" where
  "race_inv retry n s \<longleftrightarrow>
    once n (working s + delays s) \<and> (\<not> retry \<longrightarrow> delays s = {#}) \<and>
    opened s = closed s \<union> set (conns_in (results s) @ winner_conn s) \<and> finite (closed s) \<and>
    distinct (conns_in (results s) @ winner_conn s) \<and> closed s \<inter> set (conns_in (results s)) = {} \<and>
    (case outcome s of
       Racing \<Rightarrow> racing_inv retry n s
     | Taken i c k \<Rightarrow> taken_inv retry n s i k
     | Won i c \<Rightarrow> won_inv retry n s i c
     | Lost e \<Rightarrow> onWin s = [] \<and> closing s = 0 \<and> closed s = {} \<and>
         (\<not> retry \<longrightarrow> cancels s \<subseteq> cancelled s) \<and>
         (given_up s e \<or> \<not> retry \<and> working s = {#} \<and> all_failed n (lastErr s) e))"

lemmas race_defs = race_inv_def racing_inv_def taken_inv_def won_inv_def working_def winner_conn_def given_up_def

lemma race_inv_start: "race_inv retry n (race_start n)"
  by (auto simp: race_defs race_start_eq idle_def once_def distinct_count_atmost_1 mset_set_empty_iff)

text \<open>A result taken by \<open>closeLateArrivals\<close>, with the connections \<open>L\<close> in it.\<close>

lemma race_inv_late:
  assumes inv: "race_inv retry n s" and won: "\<exists>j d. outcome s = Won j d"
    and w: "working s = add_mset i (working s')" and k: "closing s = Suc k"
    and L: "conns_in (results s) = L @ conns_in (results s') \<and> closed s' = set L \<union> closed s \<and> closing s' = k"
    and same: "outcome s' = outcome s" "onWin s' = onWin s" "cancels s' = cancels s" "cancelled s' = cancelled s"
      "opened s' = opened s" "winner_conn s' = winner_conn s" "delays s' = delays s"
  shows "race_inv retry n s'"
proof -
  from won obtain j d where o': "outcome s = Won j d" by blast
  have wc: "winner_conn s = [d]" using o' by (simp add: winner_conn_def)
  have b: "once n (working s' + delays s')"
    using once_add [of n i "working s' + delays s"] inv same(7) unfolding race_inv_def w by simp
  have i: "won_inv retry n s j d" "distinct (conns_in (results s) @ [d])"
    using inv o' wc by (simp_all add: race_inv_def)
  have "d \<notin> set L" using i(2) L by auto
  then have "won_inv retry n s' j d"
    using i(1) w k L same unfolding won_inv_def by auto
  then show ?thesis
    using inv o' wc b L same unfolding race_inv_def by auto
qed

lemma race_inv_step:
  assumes "race_step retry n s s'" and "race_inv retry n s"
  shows "race_inv retry n s'"
  using assms
proof (cases rule: race_step.cases)
  case (connected i c)
  then have "working s' = working s" by (simp add: working_def)
  with connected assms(2) show ?thesis
    by (auto simp: race_inv_def racing_inv_def taken_inv_def won_inv_def winner_conn_def given_up_def split: race_outcome.splits)
next
  case (failed i e)
  then have "working s' = working s" by (simp add: working_def)
  with failed assms(2) show ?thesis
    by (auto simp: race_inv_def racing_inv_def taken_inv_def won_inv_def winner_conn_def given_up_def split: race_outcome.splits)
next
  case ctx_ends
  with assms(2) show ?thesis by (simp add: race_defs split: race_outcome.splits)
next
  case (loop_done ord e)
  with assms(2) show ?thesis by (auto simp: race_defs on_done_def cancelAllExcept_def)
next
  case (loop_takes i c rest)
  have r: "racing_inv retry n s" and b: "once n (working s + delays s)"
    using assms(2) loop_takes(2) by (simp_all add: race_inv_def)
  have w: "working s = add_mset i (working s')" and d: "delays s' = delays s"
    using loop_takes(1,3) by (simp_all add: working_def on_taken_def Let_def)
  have o': "i < n" "i \<notin># working s' + delays s'" "once n (working s' + delays s')"
    using b once_add [of n i "working s' + delays s'"] unfolding w d by simp_all
  have set_w: "set_mset (working s) = insert i (set_mset (working s'))" "size (working s) = Suc (size (working s'))"
    using w by simp_all
  have fields: "outcome s' = Taken i c (outstanding s - 1)" "onWin s' = onWin s" "cancels s' = cancels s"
    "cancelled s' = cancelled s" "closed s' = closed s" "opened s' = opened s"
    "results s' = rest" "winner_conn s' = [c]" "closing s' = closing s"
    using loop_takes(1) by (simp_all add: on_taken_def Let_def winner_conn_def)
  have c: "distinct (c # conns_in rest)" "opened s = insert c (set (conns_in rest))" "\<not> retry \<longrightarrow> delays s = {#}"
    "closed s = {}"
    using assms(2) r loop_takes(2,3) by (auto simp: race_inv_def winner_conn_def racing_inv_def)
  have "taken_inv retry n s' i (outstanding s - 1)"
    using r o'(1,2) set_w fields c(4) unfolding taken_inv_def racing_inv_def by auto
  then show ?thesis
    using o'(3) fields c d unfolding race_inv_def by auto
next
  case (loop_success i c k)
  then have t: "taken_inv retry n s i k" using assms(2) by (simp add: race_inv_def)
  have fields: "outcome s' = Won i c" "onWin s' = onWin s @ [i]" "cancels s' = cancels s"
    "cancelled s' = cancelled s \<union> {j \<in> cancels s. i \<noteq> j}" "closed s' = closed s" "opened s' = opened s"
    "results s' = results s" "winner_conn s' = winner_conn s" "closing s' = nat k" "working s' = working s"
    "delays s' = delays s"
    using loop_success by (simp_all add: on_success_def cancelAllExcept_def Let_def winner_conn_def working_def)
  then have "won_inv retry n s' i c" using t unfolding won_inv_def taken_inv_def by auto
  with assms(2) fields show ?thesis unfolding race_inv_def by simp
next
  case (loop_failure i e rest ord)
  have r: "racing_inv retry n s" and b: "once n (working s + delays s)"
    using assms(2) loop_failure(2) by (simp_all add: race_inv_def)
  have w: "working s = add_mset i (working s')"
    using loop_failure(1,3) by (simp add: working_def on_failure_def cancelAllExcept_def Let_def)
  have d: "delays s' = (if retry then add_mset i (delays s) else delays s)"
    using loop_failure(1) by (simp add: on_failure_def cancelAllExcept_def Let_def)
  have o': "i < n" "i \<notin># working s' + delays s" "once n (working s' + delays s)" "once n (working s' + delays s')"
    using b once_add [of n i "working s' + delays s"] unfolding w d by simp_all
  have set_w: "set_mset (working s) = insert i (set_mset (working s'))" using w by simp
  have fields: "lastErr s' = (lastErr s)(i \<mapsto> e)" "outstanding s' = outstanding s - 1" "closing s' = closing s"
    "closed s' = closed s" "onWin s' = onWin s" "cancels s' = cancels s - {i}" "opened s' = opened s"
    "results s' = rest" "winner_conn s' = []"
    "outcome s' \<noteq> Racing \<Longrightarrow> outcome s' = Lost (Joined (errs_in (lastErr s') ord)) \<and> \<not> retry \<and>
      card (dom (lastErr s')) = n \<and> outstanding s' = 0"
    "outcome s' = Racing \<Longrightarrow> \<not> retry \<Longrightarrow> \<not> (card (dom (lastErr s')) = n \<and> outstanding s' = 0)"
    "outcome s' = Racing \<Longrightarrow> cancelled s' \<subseteq> insert i (cancelled s)"
    "outcome s' \<noteq> Racing \<Longrightarrow> cancels s' \<subseteq> cancelled s'"
    using loop_failure(1,2)
    by (simp_all add: on_failure_def cancelAllExcept_def Let_def winner_conn_def split: if_splits) auto
  have "racing_inv retry n s'" if "outcome s' = Racing"
  proof -
    have o1: "outstanding s' = int (size (working s'))" using r fields(2) w unfolding racing_inv_def by simp
    have "dom (lastErr s') = {0..<n} - set_mset (working s')" if "\<not> retry"
      using r o'(1,2) fields(1) set_w that unfolding racing_inv_def by auto
    moreover from this have "working s' \<noteq> {#}" if "\<not> retry"
      using fields(11) [OF \<open>outcome s' = Racing\<close> that] o1 that by auto
    ultimately show ?thesis
      using r o1 o'(1,2) fields(1,3-6) fields(12) [OF that] set_w unfolding racing_inv_def by auto
  qed
  moreover have "outcome s' = Lost (Joined (errs_in (lastErr s') ord)) \<and> \<not> retry \<and> working s' = {#} \<and>
      all_failed n (lastErr s') (Joined (errs_in (lastErr s') ord))" if "outcome s' \<noteq> Racing"
  proof -
    note l = fields(10) [OF that]
    have "dom (lastErr s') \<subseteq> {0..<n}" using r o'(1) fields(1) unfolding racing_inv_def by auto
    then have "dom (lastErr s') = {0..<n}" using l by (simp add: card_subset_eq)
    moreover have "outstanding s = int (size (working s))" using r by (simp add: racing_inv_def)
    then have "working s' = {#}" using l fields(2) w by simp
    ultimately show ?thesis using l loop_failure(4) fields(1) unfolding all_failed_def walk_of_def by auto
  qed
  moreover have "onWin s' = [] \<and> closing s' = 0 \<and> closed s' = {}"
    using r fields unfolding racing_inv_def by simp
  moreover have "distinct (conns_in rest)" "opened s = closed s \<union> set (conns_in rest)"
    "closed s \<inter> set (conns_in rest) = {}" "\<not> retry \<longrightarrow> delays s' = {#}"
    using assms(2) loop_failure(2,3) d by (auto simp: race_inv_def winner_conn_def)
  ultimately show ?thesis
    using o'(4) fields(7-9) fields(4) fields(13) unfolding race_inv_def
    by (cases "outcome s'") auto
next
  case (delay_over i)
  then have w: "working s' = add_mset i (working s)" "delays s = add_mset i (delays s')" "retry"
    using assms(2) by (auto simp: working_def launch_def race_inv_def)
  have b: "once n (working s' + delays s')" using assms(2) unfolding w race_inv_def by simp
  have o': "i \<notin># working s" "i < n" using once_add [of n i "working s + delays s'"] b w by auto
  have fields: "outcome s' = outcome s" "onWin s' = onWin s" "cancels s' = insert i (cancels s)"
    "cancelled s' = cancelled s - {i}" "closed s' = closed s" "opened s' = opened s" "results s' = results s"
    "winner_conn s' = winner_conn s" "closing s' = closing s" "outstanding s' = outstanding s + 1"
    "lastErr s' = lastErr s" "ctxDone s' = ctxDone s"
    using delay_over(1) by (simp_all add: launch_def winner_conn_def)
  have "racing_inv retry n s'" if "racing_inv retry n s"
    using that w o' fields unfolding racing_inv_def by auto
  moreover have "won_inv retry n s' j c" if "won_inv retry n s j c" for j c
    using that w o' fields unfolding won_inv_def by auto
  moreover have "taken_inv retry n s' j k" if "taken_inv retry n s j k" for j k
    using that w o' fields unfolding taken_inv_def by auto
  ultimately show ?thesis
    using assms(2) b fields w(3) unfolding race_inv_def given_up_def by (auto split: race_outcome.splits)
next
  case (delay_cancelled i)
  then have d: "working s' = working s" "working s' + delays s' \<subseteq># working s + delays s"
    by (auto simp: working_def)
  have b: "once n (working s' + delays s')"
    using once_subset [OF _ d(2)] assms(2) by (simp add: race_inv_def)
  have fields: "outcome s' = outcome s" "onWin s' = onWin s" "cancels s' = cancels s"
    "cancelled s' = cancelled s" "closed s' = closed s" "opened s' = opened s" "results s' = results s"
    "winner_conn s' = winner_conn s" "closing s' = closing s" "outstanding s' = outstanding s"
    "lastErr s' = lastErr s" "delays s' = delays s - {#i#}" "ctxDone s' = ctxDone s"
    using delay_cancelled(1) by (simp_all add: winner_conn_def)
  have "racing_inv retry n s'" if "racing_inv retry n s"
    using that d(1) fields unfolding racing_inv_def by simp
  moreover have "won_inv retry n s' j c" if "won_inv retry n s j c" for j c
    using that d(1) fields unfolding won_inv_def by (auto dest: in_diffD)
  moreover have "taken_inv retry n s' j k" if "taken_inv retry n s j k" for j k
    using that d(1) fields unfolding taken_inv_def by (auto dest: in_diffD)
  ultimately show ?thesis
    using assms(2) b d(1) fields unfolding race_inv_def given_up_def by (auto split: race_outcome.splits)
next
  case (late_success k i c rest)
  have w: "working s = add_mset i (working s')" "delays s' = delays s"
    using late_success(1,3) by (simp_all add: working_def)
  have won: "\<exists>j d. outcome s = Won j d"
    using assms(2) late_success(2) by (cases "outcome s") (auto simp: race_inv_def racing_inv_def taken_inv_def)
  have fields: "outcome s' = outcome s" "onWin s' = onWin s" "cancels s' = cancels s"
    "cancelled s' = cancelled s" "closed s' = insert c (closed s)" "opened s' = opened s" "results s' = rest"
    "winner_conn s' = winner_conn s" "closing s' = k"
    using late_success(1) by (simp_all add: winner_conn_def)
  show ?thesis by (rule race_inv_late [OF assms(2) won w(1) late_success(2) _ fields(1-4,6,8) w(2), where L = "[c]"])
    (use late_success(3) fields in auto)
next
  case (late_failure k i e rest)
  have w: "working s = add_mset i (working s')" "delays s' = delays s"
    using late_failure(1,3) by (simp_all add: working_def)
  have won: "\<exists>j d. outcome s = Won j d"
    using assms(2) late_failure(2) by (cases "outcome s") (auto simp: race_inv_def racing_inv_def taken_inv_def)
  have fields: "outcome s' = outcome s" "onWin s' = onWin s" "cancels s' = cancels s"
    "cancelled s' = cancelled s" "closed s' = closed s" "opened s' = opened s" "results s' = rest"
    "winner_conn s' = winner_conn s" "closing s' = k"
    using late_failure(1) by (simp_all add: winner_conn_def)
  show ?thesis by (rule race_inv_late [OF assms(2) won w(1) late_failure(2) _ fields(1-4,6,8) w(2), where L = "[]"])
    (use late_failure(3) fields in auto)
next
  case (close_winner i c)
  with assms(2) show ?thesis by (auto simp: race_defs)
qed

lemma race_inv_reachable: "race_reachable retry n s \<Longrightarrow> race_inv retry n s"
  unfolding race_reachable_def race_run_def
  by (induction rule: rtranclp_induct) (auto intro: race_inv_start race_inv_step)

text \<open>A race of \<open>Dial\<close> gets shorter with every step.\<close>

definition race_left :: "race \<Rightarrow> nat" where
  "race_left s = 2 * size (attempts s) + length (results s) + (if ctxDone s then 0 else 1) +
    (if outcome s = Racing then 2 else 0) +
    (case outcome s of Won i c \<Rightarrow> if c \<in> closed s then 0 else 1 | Taken i c k \<Rightarrow> 2 | _ \<Rightarrow> 0)"

lemma size_taken: "i \<in># M \<Longrightarrow> Suc (size (M - {#i#})) = size M"
  by (metis insert_DiffM size_add_mset)

lemma race_left_step:
  assumes "race_step False n s s'" and "race_inv False n s"
  shows "race_left s' < race_left s"
  using assms(1)
proof (cases rule: race_step.cases)
  case (delay_over i)
  with assms(2) show ?thesis by (simp add: race_inv_def)
next
  case (delay_cancelled i)
  with assms(2) show ?thesis by (simp add: race_inv_def)
next
  case (connected i c)
  then show ?thesis using size_taken [OF connected(2)] by (simp add: race_left_def split: race_outcome.splits)
next
  case (failed i e)
  then show ?thesis using size_taken [OF failed(2)] by (simp add: race_left_def split: race_outcome.splits)
qed (auto simp: race_left_def on_done_def on_taken_def on_success_def on_failure_def cancelAllExcept_def Let_def
      split: race_outcome.splits)

lemma race_steps_bound:
  "(race_step False n ^^ k) (race_start n) s \<Longrightarrow> race_inv False n s \<and> k + race_left s \<le> 2 * n + 3"
proof (induction k arbitrary: s)
  case 0
  then have "s = race_start n" by simp
  moreover have "race_left (race_start n) = 2 * n + 3" by (simp add: race_left_def race_start_eq idle_def)
  ultimately show ?case using race_inv_start [of False n] by simp
next
  case (Suc k)
  then obtain s0 where s0: "(race_step False n ^^ k) (race_start n) s0" "race_step False n s0 s" by auto
  from Suc.IH [OF s0(1)] race_inv_step [OF s0(2)] race_left_step [OF s0(2)] show ?case by auto
qed

section \<open>Concrete runs\<close>

text \<open>The steps with their successor as an equation.\<close>

lemma race_step_eqI:
  "i \<in># attempts s \<Longrightarrow> c \<notin> opened s \<Longrightarrow> s' = s\<lparr>attempts := attempts s - {#i#},
     results := results s @ [(i, Inr c)], opened := insert c (opened s)\<rparr> \<Longrightarrow> race_step retry n s s'"
  "i \<in># attempts s \<Longrightarrow> s' = s\<lparr>attempts := attempts s - {#i#}, results := results s @ [(i, Inl e)]\<rparr> \<Longrightarrow>
     race_step retry n s s'"
  "\<not> ctxDone s \<Longrightarrow> s' = s\<lparr>ctxDone := True\<rparr> \<Longrightarrow> race_step retry n s s'"
  "outcome s = Racing \<Longrightarrow> ctxDone s \<Longrightarrow> walk_of (lastErr s) ord \<Longrightarrow> s' = on_done e ord s \<Longrightarrow> race_step retry n s s'"
  "outcome s = Racing \<Longrightarrow> results s = (i, Inr c) # rest \<Longrightarrow> s' = on_taken i c (s\<lparr>results := rest\<rparr>) \<Longrightarrow>
     race_step retry n s s'"
  "outcome s = Racing \<Longrightarrow> results s = (i, Inl e) # rest \<Longrightarrow> walk_of ((lastErr s)(i \<mapsto> e)) ord \<Longrightarrow>
     s' = on_failure retry n i e ord (s\<lparr>results := rest\<rparr>) \<Longrightarrow> race_step retry n s s'"
  "outcome s = Taken i c k \<Longrightarrow> s' = on_success i c k s \<Longrightarrow> race_step retry n s s'"
  "i \<in># delays s \<Longrightarrow> s' = launch i (s\<lparr>delays := delays s - {#i#}\<rparr>) \<Longrightarrow> race_step retry n s s'"
  using connected failed ctx_ends loop_done loop_takes loop_failure loop_success delay_over by simp_all

lemma race_start_small:
  "race_start 1 = idle\<lparr>attempts := {#0#}, cancels := {0}, outstanding := 1\<rparr>"
  "race_start 2 = idle\<lparr>attempts := {#0, 1#}, cancels := {0, 1}, outstanding := 2\<rparr>"
  by (simp_all add: race_start_def launch_def idle_def numeral_2_eq_2 add_mset_commute insert_commute)

definition one_connected :: race where
  "one_connected = idle\<lparr>results := [(0, Inr 7)], cancels := {0}, outstanding := 1, opened := {7}\<rparr>"

lemma one_connects: "race_step retry n (race_start 1) one_connected"
  unfolding race_start_small one_connected_def idle_def
  by (rule race_step_eqI(1) [of 0 _ 7]) simp_all

definition one_won :: race where
  "one_won = idle\<lparr>cancels := {0}, opened := {7}, outcome := Won 0 7, onWin := [0]\<rparr>"

lemma one_wins: "race_run retry n one_connected one_won"
proof -
  let ?t = "one_won\<lparr>outcome := Taken 0 7 0, onWin := []\<rparr>"
  have "race_step retry n one_connected ?t"
    unfolding one_won_def one_connected_def idle_def
    by (rule race_step_eqI(5) [of _ 0 7 "[]"]) (simp_all add: on_taken_def)
  moreover have "race_step retry n ?t one_won"
    unfolding one_won_def idle_def
    by (rule race_step_eqI(7) [of _ 0 7 0]) (auto simp: on_success_def cancelAllExcept_def)
  ultimately show ?thesis unfolding race_run_def by (meson converse_rtranclp_into_rtranclp rtranclp.rtrancl_refl)
qed

definition one_lost :: race where
  "one_lost = idle\<lparr>results := [(0, Inl IoEOF)], outstanding := 1, cancels := {0}\<rparr>"

lemma one_fails: "race_step False 1 (race_start 1) one_lost"
  unfolding race_start_small one_lost_def idle_def
  by (rule race_step_eqI(2) [of 0 _ _ IoEOF]) simp_all

definition one_over :: race where
  "one_over = idle\<lparr>cancelled := {0}, lastErr := [0 \<mapsto> IoEOF], outcome := Lost (Joined [IoEOF])\<rparr>"

lemma one_ends: "race_step False 1 one_lost one_over"
  unfolding one_over_def one_lost_def idle_def
  by (rule race_step_eqI(6) [of _ 0 IoEOF "[]" "[0]"])
    (auto simp: on_failure_def cancelAllExcept_def walk_of_def errs_in_def)

text \<open>A connection that nobody is left to close.\<close>

definition orphan :: "nat \<Rightarrow> race \<Rightarrow> bool" where
  "orphan c s \<longleftrightarrow> c \<in> opened s \<and> c \<notin> closed s \<and> closing s = 0 \<and> outcome s \<noteq> Racing \<and>
    (\<forall>i d k. outcome s \<noteq> Taken i d k) \<and> (\<forall>i. outcome s \<noteq> Won i c)"

lemma orphan_stays: "race_run retry n s s' \<Longrightarrow> orphan c s \<Longrightarrow> orphan c s'"
  unfolding race_run_def
proof (induction rule: rtranclp_induct)
  case (step y z)
  from step(2) step(3) [OF step(4)] show ?case
    by (cases rule: race_step.cases) (auto simp: orphan_def launch_def)
qed

definition gave_up :: race where
  "gave_up = one_connected\<lparr>ctxDone := True, cancelled := {0}, outcome := Lost (Joined [CtxCanceled])\<rparr>"

lemma gives_up: "race_reachable False 1 gave_up"
proof -
  have 1: "race_step False 1 one_connected (one_connected\<lparr>ctxDone := True\<rparr>)"
    by (rule race_step_eqI(3)) (simp_all add: one_connected_def idle_def)
  have 2: "race_step False 1 (one_connected\<lparr>ctxDone := True\<rparr>) gave_up"
    by (rule race_step_eqI(4) [of _ "[]" _ CtxCanceled])
      (simp_all add: gave_up_def one_connected_def idle_def on_done_def cancelAllExcept_def walk_of_def errs_in_def)
  show ?thesis using one_connects [of False 1] 1 2 unfolding race_reachable_def race_run_def
    by (meson converse_rtranclp_into_rtranclp rtranclp.rtrancl_refl)
qed

text \<open>
  The first leg of a \<open>Listen\<close> fails, the second wins, and the first is started again.
\<close>

definition two_at :: "nat multiset \<Rightarrow> multiResult list \<Rightarrow> nat multiset \<Rightarrow> race" where
  "two_at a r d = idle\<lparr>attempts := a, results := r, delays := d, cancels := {1}, cancelled := {0},
     outstanding := 1, lastErr := [0 \<mapsto> IoEOF], opened := set (conns_in r)\<rparr>"

definition two_won :: "nat multiset \<Rightarrow> multiResult list \<Rightarrow> nat multiset \<Rightarrow> race" where
  "two_won a r d = idle\<lparr>attempts := a, results := r, delays := d, cancels := {0, 1},
     outstanding := 1, lastErr := [0 \<mapsto> IoEOF], opened := insert 7 (set (conns_in r)),
     outcome := Won 1 7, onWin := [1]\<rparr>"

lemma relaunch_leaks: "race_reachable True 2 (two_won {#} [(0, Inr 8)] {#})"
proof -
  let ?step = "race_step True 2"
  let ?a = "idle\<lparr>attempts := {#1#}, results := [(0, Inl IoEOF)], cancels := {0, 1}, outstanding := 2\<rparr>"
  let ?won = "idle\<lparr>delays := {#0#}, cancels := {1}, cancelled := {0}, lastErr := [0 \<mapsto> IoEOF],
      opened := {7}, outcome := Won 1 7, onWin := [1]\<rparr>"
  have 1: "?step (race_start 2) ?a"
    unfolding race_start_small idle_def by (rule race_step_eqI(2) [of 0 _ _ IoEOF]) simp_all
  have 2: "?step ?a (two_at {#1#} [] {#0#})"
    unfolding two_at_def idle_def
    by (rule race_step_eqI(6) [of _ 0 IoEOF "[]" "[0]"]) (auto simp: on_failure_def cancelAllExcept_def walk_of_def)
  have 3: "?step (two_at {#1#} [] {#0#}) (two_at {#} [(1, Inr 7)] {#0#})"
    unfolding two_at_def idle_def by (rule race_step_eqI(1) [of 1 _ 7]) simp_all
  let ?taken = "?won\<lparr>outcome := Taken 1 7 0, onWin := []\<rparr>"
  have 4: "?step (two_at {#} [(1, Inr 7)] {#0#}) ?taken"
    unfolding two_at_def idle_def
    by (rule race_step_eqI(5) [of _ 1 7 "[]"]) (simp_all add: on_taken_def)
  have 7: "?step ?taken ?won"
    unfolding idle_def
    by (rule race_step_eqI(7) [of _ 1 7 0]) (auto simp: on_success_def cancelAllExcept_def)
  have 5: "?step ?won (two_won {#0#} [] {#})"
    unfolding two_won_def idle_def by (rule race_step_eqI(8) [of 0]) (simp_all add: launch_def)
  have 6: "?step (two_won {#0#} [] {#}) (two_won {#} [(0, Inr 8)] {#})"
    unfolding two_won_def idle_def by (rule race_step_eqI(1) [of 0 _ 8]) (simp_all add: insert_commute)
  show ?thesis
    unfolding race_reachable_def race_run_def
    using 1 2 3 4 7 5 6 by (meson converse_rtranclp_into_rtranclp rtranclp.rtrancl_refl)
qed

section \<open>Properties\<close>

text \<open>
  C17. At any moment of a race the channel is not full beyond its capacity, so no attempt is stuck
  sending its result; at most one connection is handed over, announced once, and it is open, with
  its context intact, until its owner closes it; and before that nothing has been closed.
\<close>

theorem race_safe:
  assumes "race_reachable retry n s"
  shows "length (results s) + size (attempts s) \<le> n \<and>
    (case outcome s of
       Won i c \<Rightarrow> onWin s = [i] \<and> i < n \<and> i \<in> cancels s \<and> c \<in> opened s \<and>
         (i \<in> cancelled s \<longleftrightarrow> c \<in> closed s)
     | _ \<Rightarrow> onWin s = [] \<and> closed s = {})"
proof -
  have inv: "race_inv retry n s" by (rule race_inv_reachable [OF assms])
  then have "once n (working s + delays s)" by (simp add: race_inv_def)
  from once_size [OF this] have "length (results s) + size (attempts s) \<le> n" by (simp add: working_def)
  then show ?thesis
    using inv by (auto simp: race_inv_def racing_inv_def taken_inv_def won_inv_def winner_conn_def given_up_def split: race_outcome.splits)
qed

text \<open>
  C18. A dial ends: whatever its n transports do, the race takes at most 2n + 3 steps; once the
  attempts have returned and their results have been received it has returned.  If a connection
  won, the results still due are exactly those that \<open>closeLateArrivals\<close> waits for, and every other
  connection is closed or among them.  If none did and the caller did not give up, no connection
  was made, and the error joins one of each transport.  If the caller gave up, the error joins
  those so far and the caller's, every attempt has been cancelled, and whatever connection was made
  sits in a channel that nobody receives from.
\<close>

theorem dial_returns:
  assumes "0 < n" and "(race_step False n ^^ k) (race_start n) s"
  shows "k \<le> 2 * n + 3 \<and>
    (case outcome s of
       Racing \<Rightarrow> attempts s \<noteq> {#} \<or> results s \<noteq> []
     | Taken i c stillRunning \<Rightarrow> stillRunning = int (size (attempts s) + length (results s)) \<and>
         opened s = insert c (set (conns_in (results s)))
     | Won i c \<Rightarrow> closing s = size (attempts s) + length (results s) \<and>
         opened s \<subseteq> insert c (closed s \<union> set (conns_in (results s)))
     | Lost e \<Rightarrow>
         (opened s = {} \<and> all_failed n (lastErr s) e) \<or>
         (ctxDone s \<and> cancels s \<subseteq> cancelled s \<and> opened s = set (conns_in (results s)) \<and> closed s = {} \<and>
          (\<exists>ord err. walk_of (lastErr s) ord \<and> e = Joined (errs_in (lastErr s) ord @ [err]))))"
proof -
  from race_steps_bound [OF assms(2)] have k: "k \<le> 2 * n + 3" and inv: "race_inv False n s" by auto
  show ?thesis
  proof (cases "outcome s")
    case Racing
    with assms(1) inv have "working s \<noteq> {#}" by (simp add: race_inv_def racing_inv_def)
    with k Racing show ?thesis by (auto simp: working_def)
  next
    case (Taken i c m)
    with k inv show ?thesis by (auto simp: race_inv_def taken_inv_def winner_conn_def working_def)
  next
    case (Won i c)
    with k inv show ?thesis by (auto simp: race_inv_def won_inv_def winner_conn_def working_def)
  next
    case (Lost e)
    with k inv show ?thesis by (auto simp: race_inv_def winner_conn_def working_def given_up_def)
  qed
qed

lemma race_safe_witness:
  "\<exists>s. race_reachable True 1 s \<and> outcome s = Won 0 7 \<and> onWin s = [0] \<and> 7 \<in> opened s"
proof -
  have r: "race_reachable True 1 one_won"
    using one_connects [of True 1] one_wins [of True 1] unfolding race_reachable_def race_run_def
    by (meson converse_rtranclp_into_rtranclp)
  have "outcome one_won = Won 0 7" by (simp add: one_won_def)
  with race_safe [OF r] r show ?thesis by auto
qed

lemma dial_returns_witness:
  "\<exists>s. (race_step False 1 ^^ 2) (race_start 1) s \<and> (\<exists>e. outcome s = Lost e \<and> all_failed 1 (lastErr s) e)"
proof -
  have r: "(race_step False 1 ^^ 2) (race_start 1) one_over"
    using one_fails one_ends unfolding numeral_2_eq_2 by auto
  have o': "outcome one_over = Lost (Joined [IoEOF])" "\<not> ctxDone one_over" by (simp_all add: one_over_def idle_def)
  from dial_returns [OF _ r] o' have "all_failed 1 (lastErr one_over) (Joined [IoEOF])" by simp
  with r o'(1) show ?thesis by blast
qed

text \<open>
  C19. Two ways a race leaks a connection that nobody will close.  The caller of a dial gives up
  while a connection is on its way to the loop; and a leg of \<open>Listen\<close> that had failed is started
  again after another has won, and connects.  From there on it stays open whatever happens, even
  after the winner was closed.
\<close>

theorem race_leaks:
  "(\<exists>s c e. race_reachable False 1 s \<and> outcome s = Lost e \<and>
     {s'. race_run False 1 s s'} \<subseteq> {s'. c \<in> opened s' \<and> c \<notin> closed s'}) \<and>
   (\<exists>s c d. race_reachable True 2 s \<and> outcome s = Won 1 d \<and> c \<noteq> d \<and> \<not> ctxDone s \<and> attempts s = {#} \<and>
     {s'. race_run True 2 s s'} \<subseteq> {s'. c \<in> opened s' \<and> c \<notin> closed s'})"
proof -
  have stays: "{s'. race_run retry n s s'} \<subseteq> {s'. c \<in> opened s' \<and> c \<notin> closed s'}" if "orphan c s" for retry n s c
    using orphan_stays [OF _ that] by (auto simp: orphan_def)
  have 1: "orphan 7 gave_up" "\<exists>e. outcome gave_up = Lost e"
    by (simp_all add: orphan_def gave_up_def one_connected_def idle_def)
  let ?s = "two_won {#} [(0, Inr 8)] {#}"
  have 2: "orphan 8 ?s" "outcome ?s = Won 1 7" "\<not> ctxDone ?s" "attempts ?s = {#}"
    by (simp_all add: orphan_def two_won_def idle_def)
  show ?thesis using gives_up relaunch_leaks stays [OF 1(1)] stays [OF 2(1)] 1(2) 2(2-4)
    by (intro conjI exI [of _ gave_up] exI [of _ ?s] exI [of _ 7] exI [of _ 8]) auto
qed

end
