(* ===== verification/GoUrl.thy ===== *)
theory GoUrl
  imports GoText "HOL-Library.List_Lexorder" "HOL-Library.Char_ord"
begin

text \<open>
  What the code uses of Go's \<open>net/url\<close>.  Query strings are modelled byte by byte.  The grammar
  of whole URLs is a parameter: \<open>url_Parse\<close> and \<open>url_String\<close> between text and the fields of
  Go's struct that the code reads or writes.
\<close>

section \<open>URLs\<close>

text \<open>\<open>uRest\<close> is what the code never looks at: opaque part, path and fragment.\<close>

record url =
  Scheme :: string
  User :: "string option"
  Host :: string
  RawQuery :: string
  uRest :: "string list"

record urllib =
  url_Parse :: "string \<Rightarrow> url res"
  url_String :: "url \<Rightarrow> string"

section \<open>Query strings\<close>

text \<open>\<open>url.Values\<close>: keys with their values, the values of one key in their order.\<close>

type_synonym query = "(string \<times> string) list"

definition query_Get :: "query \<Rightarrow> string \<Rightarrow> string" where
  "query_Get q k = (case map_of q k of None \<Rightarrow> [] | Some v \<Rightarrow> v)"

definition query_Has :: "query \<Rightarrow> string \<Rightarrow> bool" where
  "query_Has q k \<longleftrightarrow> k \<in> fst ` set q"

definition query_Del :: "query \<Rightarrow> string \<Rightarrow> query" where
  "query_Del q k = filter (\<lambda>p. fst p \<noteq> k) q"

definition query_Set :: "query \<Rightarrow> string \<Rightarrow> string \<Rightarrow> query" where
  "query_Set q k v = query_Del q k @ [(k, v)]"

definition unreserved :: "char \<Rightarrow> bool" where
  "unreserved c \<longleftrightarrow>
    (let n = (of_char c :: nat) in
     48 \<le> n \<and> n \<le> 57 \<or> 65 \<le> n \<and> n \<le> 90 \<or> 97 \<le> n \<and> n \<le> 122 \<or> c \<in> set ''-_.~'')"

definition upperhex :: "nat \<Rightarrow> char" where
  "upperhex n = (if n < 10 then char_of (48 + n) else char_of (55 + n))"

definition unhex :: "char \<Rightarrow> nat option" where
  "unhex c =
    (let n = (of_char c :: nat) in
     if 48 \<le> n \<and> n \<le> 57 then Some (n - 48)
     else if 97 \<le> n \<and> n \<le> 102 then Some (n - 87)
     else if 65 \<le> n \<and> n \<le> 70 then Some (n - 55) else None)"

definition escape_char :: "char \<Rightarrow> string" where
  "escape_char c =
    (if unreserved c then [c] else if c = CHR '' '' then ''+''
     else [CHR ''%'', upperhex (of_char c div 16), upperhex (of_char c mod 16)])"

definition QueryEscape :: "string \<Rightarrow> string" where
  "QueryEscape s = concat (map escape_char s)"

fun QueryUnescape :: "string \<Rightarrow> string option" where
  "QueryUnescape [] = Some []"
| "QueryUnescape (c # s) =
    (if c = CHR ''%'' then
       (case s of
          a # b # r \<Rightarrow>
            (case unhex a of
               None \<Rightarrow> None
             | Some x \<Rightarrow> (case unhex b of
                 None \<Rightarrow> None
               | Some y \<Rightarrow> map_option (Cons (char_of (16 * x + y))) (QueryUnescape r)))
        | _ \<Rightarrow> None)
     else map_option (Cons (if c = CHR ''+'' then CHR '' '' else c)) (QueryUnescape s))"

text \<open>Sorted by key; a key's values keep their order.\<close>

definition query_Encode :: "query \<Rightarrow> string" where
  "query_Encode q =
    join_with ''&'' (map (\<lambda>(k, v). QueryEscape k @ ''='' @ QueryEscape v) (sort_key fst q))"

text \<open>Pairs that do not parse are left out, as \<open>URL.Query\<close> does.\<close>

definition parse_pair :: "string \<Rightarrow> (string \<times> string) option" where
  "parse_pair p =
    (if CHR '';'' \<in> set p \<or> p = [] then None
     else
       (case (case cut_at (CHR ''='') p of None \<Rightarrow> (p, []) | Some kv \<Rightarrow> kv) of
          (k, v) \<Rightarrow>
            (case QueryUnescape k of
               None \<Rightarrow> None
             | Some k' \<Rightarrow> (case QueryUnescape v of None \<Rightarrow> None | Some v' \<Rightarrow> Some (k', v')))))"

definition ParseQuery :: "string \<Rightarrow> query" where
  "ParseQuery s = List.map_filter parse_pair (split_on (CHR ''&'') s)"

definition url_Query :: "url \<Rightarrow> query" where
  "url_Query u = ParseQuery (RawQuery u)"

section \<open>Lemmas\<close>

lemma of_char_upperhex: "n < 16 \<Longrightarrow> (of_char (upperhex n) :: nat) = (if n < 10 then 48 + n else 55 + n)"
  by (simp add: upperhex_def)

lemma upperhex_facts:
  assumes "n < 16"
  shows "unhex (upperhex n) = Some n" "upperhex n \<notin> set ''&=;+%''"
proof -
  show "unhex (upperhex n) = Some n" using assms by (simp add: unhex_def of_char_upperhex)
  have "(of_char (upperhex n) :: nat) \<in> {38, 61, 59, 43, 37}" if "upperhex n \<in> set ''&=;+%''"
    using that by auto
  then show "upperhex n \<notin> set ''&=;+%''" using of_char_upperhex [OF assms] by (auto split: if_splits)
qed

lemma nibbles: "(of_char c :: nat) div 16 < 16" "(of_char c :: nat) mod 16 < 16"
proof -
  have "(of_char c :: nat) < 16 * 16" by simp
  then show "(of_char c :: nat) div 16 < 16" by (rule less_mult_imp_div_less)
qed simp

lemma unescape_escape_char: "QueryUnescape (escape_char c @ t) = map_option (Cons c) (QueryUnescape t)"
proof -
  have "char_of (16 * (of_char c div 16 :: nat) + of_char c mod 16) = c"
    by (simp only: mult_div_mod_eq char_of_char)
  then have e: "QueryUnescape (CHR ''%'' # upperhex (of_char c div 16) # upperhex (of_char c mod 16) # t) =
      map_option (Cons c) (QueryUnescape t)"
    by (simp add: upperhex_facts(1) [OF nibbles(1)] upperhex_facts(1) [OF nibbles(2)])
  show ?thesis
  proof (cases "unreserved c \<or> c = CHR '' ''")
    case True
    then show ?thesis by (auto simp: escape_char_def unreserved_def)
  next
    case False
    then have "escape_char c = [CHR ''%'', upperhex (of_char c div 16), upperhex (of_char c mod 16)]"
      by (simp add: escape_char_def)
    with e show ?thesis by (simp only: append_Cons append_Nil)
  qed
qed

lemma QueryUnescape_Escape: "QueryUnescape (QueryEscape s) = Some s"
  by (induction s) (simp_all add: QueryEscape_def unescape_escape_char)

lemma escape_char_clean: "set (escape_char c) \<inter> set ''&=;'' = {}"
  using upperhex_facts(2) [OF nibbles(1) [of c]] upperhex_facts(2) [OF nibbles(2) [of c]]
  by (auto simp: escape_char_def unreserved_def)

lemma QueryEscape_clean: "CHR ''&'' \<notin> set (QueryEscape s)" "CHR ''='' \<notin> set (QueryEscape s)"
  "CHR '';'' \<notin> set (QueryEscape s)"
  using escape_char_clean by (fastforce simp: QueryEscape_def)+

lemma parse_pair_encoded: "parse_pair (QueryEscape k @ ''='' @ QueryEscape v) = Some (k, v)"
  using QueryEscape_clean [of k] QueryEscape_clean [of v]
  by (simp add: parse_pair_def cut_at_append QueryUnescape_Escape)

lemma ParseQuery_Encode: "ParseQuery (query_Encode q) = sort_key fst q"
proof (cases "sort_key fst q = []")
  case True
  then show ?thesis by (simp add: query_Encode_def ParseQuery_def map_filter_def parse_pair_def)
next
  case False
  let ?ps = "map (\<lambda>(k, v). QueryEscape k @ ''='' @ QueryEscape v) (sort_key fst q)"
  have "split_on (CHR ''&'') (join_with ''&'' ?ps) = ?ps"
    using False QueryEscape_clean by (intro split_on_join) auto
  moreover have "List.map_filter parse_pair (map (\<lambda>(k, v). QueryEscape k @ ''='' @ QueryEscape v) ps) = ps" for ps
    by (induction ps) (auto simp: map_filter_def parse_pair_encoded [simplified])
  ultimately show ?thesis by (simp add: query_Encode_def ParseQuery_def)
qed

lemma map_of_key_filter: "map_of (filter (\<lambda>p. fst p = k) q) k = map_of q k"
  by (induction q) auto

lemma map_of_sort_key: "map_of (sort_key fst q) k = map_of q k"
  by (metis map_of_key_filter sort_key_stable)

lemma query_Get_Encode: "query_Get (ParseQuery (query_Encode q)) k = query_Get q k"
  by (simp add: query_Get_def ParseQuery_Encode map_of_sort_key)

lemma query_Has_Encode: "query_Has (ParseQuery (query_Encode q)) k = query_Has q k"
  by (simp add: query_Has_def ParseQuery_Encode)

lemma query_Get_Set: "query_Get (query_Set q k v) k' = (if k' = k then v else query_Get q k')"
proof -
  have "map_of (filter (\<lambda>p. fst p \<noteq> k) q) k' = (if k' = k then None else map_of q k')"
    by (induction q) auto
  then show ?thesis by (simp add: query_Get_def query_Set_def query_Del_def map_add_def split: option.splits)
qed

lemma query_Has_Set: "query_Has (query_Set q k v) k' \<longleftrightarrow> k' = k \<or> query_Has q k'"
  by (auto simp: query_Has_def query_Set_def query_Del_def)

lemma query_Has_Del: "query_Has (query_Del q k) k' \<longleftrightarrow> k' \<noteq> k \<and> query_Has q k'"
  by (auto simp: query_Has_def query_Del_def)

end
