(* ===== verification/Network.thy ===== *)
theory Network
  imports GoUrl GoTime Token
begin

text \<open>
  Which servers are used: the settings of \<open>mrcore/transport/network_config.go\<close>, the discovery
  URLs of \<open>discovery_lookup.go\<close>, and where the machine (\<open>cmd/synctang-unlocker/network.go\<close>)
  and the key holder (\<open>cmd/synctang-keyholder/network.go\<close>) read them.
\<close>

section \<open>Libraries\<close>

text \<open>
  Beside URLs: Syncthing's Device IDs, named by their text, the address of its public discovery
  server, and the two readers of dates (\<open>None\<close> for text they refuse and for the zero time).
\<close>

record netlib = urllib +
  DeviceIDOf :: "string \<Rightarrow> string res"
  DefaultDiscoveryURL :: string
  http_ParseTime :: "string \<Rightarrow> int option"
  parse_RFC3339 :: "string \<Rightarrow> int option"

text \<open>\<open>net.SplitHostPort\<close>.\<close>

definition last_index :: "char \<Rightarrow> string \<Rightarrow> nat option" where
  "last_index c s = (if c \<in> set s then Some (length s - 1 - length (takeWhile (\<lambda>x. x \<noteq> c) (rev s))) else None)"

definition first_index :: "char \<Rightarrow> string \<Rightarrow> nat option" where
  "first_index c s = (if c \<in> set s then Some (length (takeWhile (\<lambda>x. x \<noteq> c) s)) else None)"

definition SplitHostPort :: "string \<Rightarrow> (string \<times> string) option" where
  "SplitHostPort hp =
    (case last_index (CHR '':'') hp of
       None \<Rightarrow> None
     | Some i \<Rightarrow>
         if prefix ''['' hp then
           (case first_index (CHR '']'') hp of
              None \<Rightarrow> None
            | Some e \<Rightarrow>
                if e + 1 \<noteq> i \<or> CHR ''['' \<in> set (drop 1 hp) \<or> CHR '']'' \<in> set (drop (e + 1) hp) then None
                else Some (take (e - 1) (drop 1 hp), drop (i + 1) hp))
         else if CHR '':'' \<in> set (take i hp) \<or> CHR ''['' \<in> set hp \<or> CHR '']'' \<in> set hp then None
         else Some (take i hp, drop (i + 1) hp))"

section \<open>Discovery URLs\<close>

record discoveryOptions =
  doID :: string
  hasID :: bool
  insecure :: bool

definition queryBool :: "query \<Rightarrow> string \<Rightarrow> bool" where
  "queryBool q key = (if \<not> query_Has q key then False else query_Get q key \<noteq> ''false'')"

definition parseDiscoveryURL :: "'a netlib_scheme \<Rightarrow> string \<Rightarrow> (string \<times> discoveryOptions) res" where
  "parseDiscoveryURL L s =
    (case url_Parse L s of
       Inl _ \<Rightarrow> Inl (Err ''not a valid URL'')
     | Inr u \<Rightarrow>
         if Scheme u \<noteq> ''http'' \<and> Scheme u \<noteq> ''https'' then Inl (Err ''must be an http or https URL'')
         else if Host u = [] then Inl (Err ''has no host'')
         else if User u \<noteq> None then Inl (Err ''must not carry credentials'')
         else
           (let q = url_Query u;
                raw = query_Get q ''id'';
                rest = query_Del (query_Del q ''id'') ''insecure'';
                server = url_String L (u\<lparr>RawQuery := query_Encode rest\<rparr>) in
            if query_Has q ''id'' then
              (case DeviceIDOf L raw of
                 Inl _ \<Rightarrow> Inl (Err (''?id= must be the server'' @ [CHR 0x27] @ ''s Device ID''))
               | Inr i \<Rightarrow>
                   if raw = [] then Inl (Err (''?id= must be the server'' @ [CHR 0x27] @ ''s Device ID''))
                   else Inr (server, \<lparr>doID = i, hasID = True, insecure = queryBool q ''insecure''\<rparr>))
            else Inr (server, \<lparr>doID = [], hasID = False, insecure = queryBool q ''insecure''\<rparr>)))"

text \<open>
  A TLS client's trust: whether authorities are consulted, and the check of the Device IDs of the
  certificates that were presented.
\<close>

record tls_config =
  InsecureSkipVerify :: bool
  VerifyConnection :: "(string list \<Rightarrow> unit res) option"

definition applyTrust :: "discoveryOptions \<Rightarrow> tls_config \<Rightarrow> tls_config" where
  "applyTrust o' conf =
    (if hasID o' then
       conf\<lparr>InsecureSkipVerify := True,
         VerifyConnection := Some (\<lambda>certs.
           case certs of
             [] \<Rightarrow> Inl (Err ''discovery server presented no certificate'')
           | got # _ \<Rightarrow>
               if got \<noteq> doID o' then
                 Inl (Err (''discovery server id mismatch: it presented Device ID '' @ got @
                   '', the URL pins '' @ doID o'))
               else Inr ())\<rparr>
     else if insecure o' then conf\<lparr>InsecureSkipVerify := True\<rparr>
     else conf)"

definition tls_default :: tls_config where
  "tls_default = \<lparr>InsecureSkipVerify = False, VerifyConnection = None\<rparr>"

definition httpClient :: "discoveryOptions \<Rightarrow> tls_config" where
  "httpClient o' = applyTrust o' tls_default"

text \<open>Whether a connection to a server with these certificates comes about.\<close>

definition tls_accepts :: "tls_config \<Rightarrow> bool \<Rightarrow> string list \<Rightarrow> bool" where
  "tls_accepts conf caSigned certs \<longleftrightarrow>
    (InsecureSkipVerify conf \<or> caSigned) \<and>
    (case VerifyConnection conf of None \<Rightarrow> True | Some f \<Rightarrow> is_ok (f certs))"

section \<open>Settings\<close>

record NetworkConfig =
  RelayPool :: string
  Discovery :: string
  DiscoveryAnnounce :: string

definition NetworkConfig0 :: NetworkConfig where
  "NetworkConfig0 = \<lparr>RelayPool = [], Discovery = [], DiscoveryAnnounce = []\<rparr>"

definition NetworkKeyRelayPool :: string where "NetworkKeyRelayPool = ''relay-pool''"
definition NetworkKeyDiscovery :: string where "NetworkKeyDiscovery = ''discovery''"
definition NetworkKeyDiscoveryAnnounce :: string where "NetworkKeyDiscoveryAnnounce = ''discovery-announce''"

definition validateDiscovery :: "'a netlib_scheme \<Rightarrow> string \<Rightarrow> bool \<Rightarrow> unit res" where
  "validateDiscovery L s announced =
    (case parseDiscoveryURL L s of
       Inl e \<Rightarrow> Inl e
     | Inr (_, opts) \<Rightarrow>
         (case url_Parse L s of
            Inl _ \<Rightarrow> Inr ()
          | Inr u \<Rightarrow>
              if Scheme u = ''http'' then
                if announced then
                  Inl (Err (''plain http is for looking up only, and this one is announced to; '' @
                    ''announcements are never sent over plain http, so use https '' @
                    ''(with ?id=<server Device ID> or ?insecure for a self-signed server)''))
                else if hasID opts then
                  Inl (Err ''?id= pins a TLS certificate, and plain http has none'')
                else if \<not> insecure opts then
                  Inl (Err ''plain http needs ?insecure to say it is meant'')
                else Inr ()
              else Inr ()))"

definition validateHTTPURL :: "'a netlib_scheme \<Rightarrow> string \<Rightarrow> unit res" where
  "validateHTTPURL L s =
    (case url_Parse L s of
       Inl _ \<Rightarrow> Inl (Err ''not a valid URL'')
     | Inr u \<Rightarrow>
         if Scheme u \<noteq> ''http'' \<and> Scheme u \<noteq> ''https'' then Inl (Err ''must be an http or https URL'')
         else if Host u = [] then Inl (Err ''has no host'')
         else if User u \<noteq> None then Inl (Err ''must not carry credentials'')
         else Inr ())"

definition validateRelayPool :: "'a netlib_scheme \<Rightarrow> string \<Rightarrow> unit res" where
  "validateRelayPool L s =
    (case url_Parse L s of
       Inl _ \<Rightarrow> Inl (Err ''not a valid URL'')
     | Inr u \<Rightarrow>
         if Scheme u = ''relay'' then
           if User u \<noteq> None then Inl (Err ''must not carry credentials'')
           else if (case SplitHostPort (Host u) of None \<Rightarrow> True | Some (_, port) \<Rightarrow> port = []) then
             Inl (Err ''a relay:// URL needs host and port'')
           else
             (let i = query_Get (url_Query u) ''id'' in
              if i = [] \<or> \<not> is_ok (DeviceIDOf L i) then
                Inl (Err (''a relay:// URL needs the relay'' @ [CHR 0x27] @ ''s Device ID as ?id=''))
              else Inr ())
         else if Scheme u = ''dynamic+http'' \<or> Scheme u = ''dynamic+https'' then
           validateHTTPURL L (url_String L (u\<lparr>Scheme := TrimPrefix (Scheme u) ''dynamic+''\<rparr>))
         else validateHTTPURL L s)"

definition parseNetworkConfig :: "'a netlib_scheme \<Rightarrow> string \<Rightarrow> string \<Rightarrow> string \<Rightarrow> bool \<Rightarrow> NetworkConfig res" where
  "parseNetworkConfig L relayPool disc announce announces =
    (case (if relayPool \<noteq> [] then validateRelayPool L relayPool else Inr ()) of
       Inl e \<Rightarrow> Inl (wrap NetworkKeyRelayPool e)
     | Inr _ \<Rightarrow>
    (case (if disc \<noteq> [] then validateDiscovery L disc (announces \<and> announce = []) else Inr ()) of
       Inl e \<Rightarrow> Inl (wrap NetworkKeyDiscovery e)
     | Inr _ \<Rightarrow>
    (case (if announce \<noteq> [] then validateDiscovery L announce True else Inr ()) of
       Inl e \<Rightarrow> Inl (wrap NetworkKeyDiscoveryAnnounce e)
     | Inr _ \<Rightarrow> Inr \<lparr>RelayPool = relayPool, Discovery = disc, DiscoveryAnnounce = announce\<rparr>)))"

definition ParseNetworkConfig :: "'a netlib_scheme \<Rightarrow> string \<Rightarrow> string \<Rightarrow> string \<Rightarrow> NetworkConfig res" where
  "ParseNetworkConfig L relayPool disc announce = parseNetworkConfig L relayPool disc announce True"

definition ParseDialerNetworkConfig :: "'a netlib_scheme \<Rightarrow> string \<Rightarrow> string \<Rightarrow> NetworkConfig res" where
  "ParseDialerNetworkConfig L disc announce = parseNetworkConfig L [] disc announce False"

definition IsZero :: "NetworkConfig \<Rightarrow> bool" where
  "IsZero c \<longleftrightarrow> c = NetworkConfig0"

definition Override :: "NetworkConfig \<Rightarrow> NetworkConfig \<Rightarrow> NetworkConfig" where
  "Override c o' =
    (let c1 = (if RelayPool o' \<noteq> [] then c\<lparr>RelayPool := RelayPool o'\<rparr> else c);
         c2 = (if Discovery o' \<noteq> [] then c1\<lparr>Discovery := Discovery o', DiscoveryAnnounce := []\<rparr> else c1) in
     if DiscoveryAnnounce o' \<noteq> [] then c2\<lparr>DiscoveryAnnounce := DiscoveryAnnounce o'\<rparr> else c2)"

definition RelayPoolURL :: "NetworkConfig \<Rightarrow> string" where
  "RelayPoolURL c =
    (if RelayPool c = [] then []
     else if HasPrefix (RelayPool c) ''relay://'' \<or> HasPrefix (RelayPool c) ''dynamic+'' then RelayPool c
     else ''dynamic+'' @ RelayPool c)"

definition RelayKind :: "NetworkConfig \<Rightarrow> string" where
  "RelayKind c =
    (if RelayPool c = [] then []
     else if HasPrefix (RelayPool c) ''relay://'' then ''single relay''
     else ''pool'')"

text \<open>The settings of a \<open>SyncthingRelay\<close> and what they default to.\<close>

record relay_settings =
  rsRelayPoolURL :: string
  rsDiscoveryURL :: string
  rsAnnounceURLs :: "string list"

definition NewSyncthingRelay :: "NetworkConfig \<Rightarrow> relay_settings" where
  "NewSyncthingRelay c =
    \<lparr>rsRelayPoolURL = RelayPoolURL c,
     rsDiscoveryURL = Discovery c,
     rsAnnounceURLs =
       (if DiscoveryAnnounce c \<noteq> [] then [DiscoveryAnnounce c]
        else if Discovery c \<noteq> [] then [Discovery c] else [])\<rparr>"

definition defaultRelayPoolURL :: string where
  "defaultRelayPoolURL = ''dynamic+https://relays.syncthing.net/endpoint''"

definition defaultAnnounceURLs :: "string list" where
  "defaultAnnounceURLs =
    [''https://discovery-announce-v4.syncthing.net/v2/?nolookup'',
     ''https://discovery-announce-v6.syncthing.net/v2/?nolookup'']"

definition relayPoolURL :: "relay_settings \<Rightarrow> string" where
  "relayPoolURL t = (if rsRelayPoolURL t \<noteq> [] then rsRelayPoolURL t else defaultRelayPoolURL)"

definition discoveryURL :: "'a netlib_scheme \<Rightarrow> relay_settings \<Rightarrow> string" where
  "discoveryURL L t = (if rsDiscoveryURL t \<noteq> [] then rsDiscoveryURL t else DefaultDiscoveryURL L)"

definition announceURLs :: "relay_settings \<Rightarrow> string list" where
  "announceURLs t = (if rsAnnounceURLs t \<noteq> [] then rsAnnounceURLs t else defaultAnnounceURLs)"

section \<open>The file\<close>

definition named_setting :: "bool \<Rightarrow> string \<Rightarrow> string \<Rightarrow> string \<Rightarrow> (string \<rightharpoonup> string) \<Rightarrow> (string \<rightharpoonup> string) res" where
  "named_setting allowRelayPool at key val vals =
    (if key = NetworkKeyRelayPool \<and> \<not> allowRelayPool then
       Inl (Err (at @ key @ '' is a machine setting; a key holder learns the relay from discovery''))
     else if key \<noteq> NetworkKeyRelayPool \<and> key \<noteq> NetworkKeyDiscovery \<and> key \<noteq> NetworkKeyDiscoveryAnnounce then
       Inl (Err (at @ ''unknown key '' @ Quote key))
     else if vals key \<noteq> None then Inl (Err (at @ key @ '' given twice''))
     else Inr (vals(key \<mapsto> val)))"

definition one_setting :: "bool \<Rightarrow> nat \<Rightarrow> string \<Rightarrow> (string \<rightharpoonup> string) \<Rightarrow> (string \<rightharpoonup> string) res" where
  "one_setting allowRelayPool n raw vals =
    (let line = TrimSpace raw; at = ''line '' @ show_nat n @ '': '' in
     if line = [] \<or> HasPrefix line ''#'' then Inr vals
     else
       (case cut_at (CHR ''='') line of
          None \<Rightarrow> Inl (Err (at @ ''expected key=value''))
        | Some (k, v) \<Rightarrow> named_setting allowRelayPool at (TrimSpace k) (TrimSpace v) vals))"

fun settings_loop :: "bool \<Rightarrow> nat \<Rightarrow> string list \<Rightarrow> (string \<rightharpoonup> string) \<Rightarrow> (string \<rightharpoonup> string) res" where
  "settings_loop allowRelayPool n [] vals = Inr vals"
| "settings_loop allowRelayPool n (l # ls) vals =
    bind_res (one_setting allowRelayPool n l vals) (settings_loop allowRelayPool (Suc n) ls)"

definition val_of :: "(string \<rightharpoonup> string) \<Rightarrow> string \<Rightarrow> string" where
  "val_of vals k = (case vals k of None \<Rightarrow> [] | Some v \<Rightarrow> v)"

text \<open>A reader is the text it yields and the error it then ends with, if any.\<close>

type_synonym reader = "string \<times> goerr option"

definition scan_err :: "reader \<Rightarrow> goerr option" where
  "scan_err r = (if snd (scan_lines (fst r)) then Some ErrTooLong else snd r)"

definition parseNetworkConf :: "'a netlib_scheme \<Rightarrow> reader \<Rightarrow> bool \<Rightarrow> NetworkConfig res" where
  "parseNetworkConf L r allowRelayPool =
    (case settings_loop allowRelayPool 1 (fst (scan_lines (fst r))) Map.empty of
       Inl e \<Rightarrow> Inl e
     | Inr vals \<Rightarrow>
         (case scan_err r of
            Some e \<Rightarrow> Inl e
          | None \<Rightarrow>
              if \<not> allowRelayPool then
                ParseDialerNetworkConfig L (val_of vals NetworkKeyDiscovery) (val_of vals NetworkKeyDiscoveryAnnounce)
              else
                ParseNetworkConfig L (val_of vals NetworkKeyRelayPool) (val_of vals NetworkKeyDiscovery)
                  (val_of vals NetworkKeyDiscoveryAnnounce)))"

definition ParseNetworkConf :: "'a netlib_scheme \<Rightarrow> reader \<Rightarrow> NetworkConfig res" where
  "ParseNetworkConf L r = parseNetworkConf L r True"

definition ParseNetworkConfForDialer :: "'a netlib_scheme \<Rightarrow> reader \<Rightarrow> NetworkConfig res" where
  "ParseNetworkConfForDialer L r = parseNetworkConf L r False"

definition hostOf :: "'a netlib_scheme \<Rightarrow> string \<Rightarrow> string" where
  "hostOf L s = (case url_Parse L s of Inl _ \<Rightarrow> s | Inr u \<Rightarrow> if Host u \<noteq> [] then Host u else s)"

definition Summary :: "'a netlib_scheme \<Rightarrow> NetworkConfig \<Rightarrow> string" where
  "Summary L c =
    (if IsZero c then []
     else
       (let part = (\<lambda>kind value. if value = [] then kind @ '' public'' else kind @ '' '' @ hostOf L value);
            relay = (if RelayPool c \<noteq> [] then RelayKind c @ '' '' @ hostOf L (RelayPool c) else ''relay public'') in
        ''using '' @ relay @ '', '' @ part ''discovery'' (Discovery c)))"

section \<open>Where the machine reads them\<close>

datatype opened_file = Missing goerr | OpenErr goerr | Opened reader

definition defaultNetworkConfFile :: string where
  "defaultNetworkConfFile = ''/etc/synctang/network.conf''"

definition cmdlineRelay :: string where "cmdlineRelay = ''rd.synctang.relay=''"
definition cmdlineDiscovery :: string where "cmdlineDiscovery = ''rd.synctang.discovery=''"

text \<open>\<open>strings.Replace(s, old, new, 1)\<close>.\<close>

fun replace_first :: "string \<Rightarrow> string \<Rightarrow> string \<Rightarrow> string" where
  "replace_first old new s =
    (if prefix old s then new @ drop (length old) s
     else (case s of [] \<Rightarrow> [] | c # r \<Rightarrow> c # replace_first old new r))"

declare replace_first.simps [simp del]

definition cmdline_arg :: "string \<Rightarrow> string \<times> string \<Rightarrow> string \<times> string" where
  "cmdline_arg arg rd =
    (if HasPrefix arg cmdlineRelay then (TrimPrefix arg cmdlineRelay, snd rd)
     else if HasPrefix arg cmdlineDiscovery then (fst rd, TrimPrefix arg cmdlineDiscovery)
     else rd)"

definition parseCmdlineNetwork :: "'a netlib_scheme \<Rightarrow> string \<Rightarrow> NetworkConfig res" where
  "parseCmdlineNetwork L cmdline =
    (case fold cmdline_arg (Fields cmdline) ([], []) of
       (relay, disc) \<Rightarrow>
         (case ParseNetworkConfig L relay disc [] of
            Inr c \<Rightarrow> Inr c
          | Inl e \<Rightarrow>
              Inl (Err (replace_first (NetworkKeyDiscovery @ '':'') (TrimSuffix cmdlineDiscovery ''='' @ '':'')
                (replace_first (NetworkKeyRelayPool @ '':'') (TrimSuffix cmdlineRelay ''='' @ '':'') (error_text e))))))"

definition machine_loadNetworkConfig ::
    "'a netlib_scheme \<Rightarrow> (string \<Rightarrow> opened_file) \<Rightarrow> string \<Rightarrow> string \<Rightarrow> NetworkConfig res" where
  "machine_loadNetworkConfig L open' confPath cmdlinePath =
    (case (if confPath = [] then Inr NetworkConfig0
           else
             (case open' confPath of
                Missing _ \<Rightarrow> Inr NetworkConfig0
              | OpenErr e \<Rightarrow> Inl (wrap (''reading '' @ confPath) e)
              | Opened r \<Rightarrow> map_err (wrap confPath) (ParseNetworkConf L r))) of
       Inl e \<Rightarrow> Inl e
     | Inr file \<Rightarrow>
         (case (if cmdlinePath = [] then Inr NetworkConfig0
                else
                  (case open' cmdlinePath of
                     Missing _ \<Rightarrow> Inr NetworkConfig0
                   | OpenErr e \<Rightarrow> Inl (wrap (''reading '' @ cmdlinePath) e)
                   | Opened (raw, None) \<Rightarrow> parseCmdlineNetwork L raw
                   | Opened (_, Some e) \<Rightarrow> Inl (wrap (''reading '' @ cmdlinePath) e))) of
            Inl e \<Rightarrow> Inl e
          | Inr cmd \<Rightarrow> Inr (Override file cmd)))"

text \<open>The result, and what is printed to stdout and stderr.\<close>

definition resolveNetwork ::
    "'a netlib_scheme \<Rightarrow> (string \<Rightarrow> opened_file) \<Rightarrow> string \<Rightarrow> NetworkConfig option \<times> string \<times> string" where
  "resolveNetwork L open' confPath =
    (case machine_loadNetworkConfig L open' confPath ''/proc/cmdline'' of
       Inl e \<Rightarrow> (None, [], ''synctang-unlocker: network settings: '' @ error_text e @ [CHR 0x0A])
     | Inr c \<Rightarrow>
         (Some c,
          (if Summary L c \<noteq> [] then ''synctang-unlocker: '' @ Summary L c @ [CHR 0x0A] else []), []))"

section \<open>Where the key holder reads them\<close>

definition keyholder_loadNetworkConfig ::
    "'a netlib_scheme \<Rightarrow> (string \<Rightarrow> opened_file) \<Rightarrow> string \<Rightarrow> bool \<Rightarrow> string \<Rightarrow> string \<Rightarrow> NetworkConfig res" where
  "keyholder_loadNetworkConfig L open' path explicit disc announce =
    (case (if path = [] then Inr NetworkConfig0
           else
             (case open' path of
                Missing e \<Rightarrow> if \<not> explicit then Inr NetworkConfig0 else Inl (wrap (''reading '' @ path) e)
              | OpenErr e \<Rightarrow> Inl (wrap (''reading '' @ path) e)
              | Opened r \<Rightarrow> map_err (wrap path) (ParseNetworkConfForDialer L r))) of
       Inl e \<Rightarrow> Inl e
     | Inr file \<Rightarrow>
         (case ParseDialerNetworkConfig L disc announce of
            Inl e \<Rightarrow> Inl (Wrap ''--'' e [])
          | Inr flags \<Rightarrow> Inr (Override file flags)))"

section \<open>The pairing link\<close>

definition pairing_query :: "string \<Rightarrow> string \<Rightarrow> string \<Rightarrow> NetworkConfig \<Rightarrow> query" where
  "pairing_query machineID name encodedSecret network =
    (let q1 = query_Set [] ''machine'' machineID;
         q2 = (if name \<noteq> [] then query_Set q1 ''name'' name else q1);
         q3 = (if Discovery network \<noteq> [] then query_Set q2 ''discovery'' (Discovery network) else q2) in
     query_Set q3 ''psk'' encodedSecret)"

definition pairingURL :: "string \<Rightarrow> string \<Rightarrow> string \<Rightarrow> NetworkConfig \<Rightarrow> string" where
  "pairingURL machineID name encodedSecret network =
    ''synctang://pair?'' @ query_Encode (pairing_query machineID name encodedSecret network)"

definition pairingInstructions :: "string \<Rightarrow> string \<Rightarrow> string \<Rightarrow> NetworkConfig \<Rightarrow> duration \<Rightarrow> string" where
  "pairingInstructions machineID name encodedSecret network window =
    (let nl = [CHR 0x0A]; app = ''app'' @ [CHR 0x27] @ ''s'' in
     ''Scan this with the synctang app to pair it with '' @ (if name \<noteq> [] then name else ''this machine'') @ ''.'' @ nl @ nl @
     ''If the camera cannot scan it, paste this link into the '' @ app @ nl @
     ''device ID field instead (the QR code carries exactly this):'' @ nl @ nl @
     ''  '' @ pairingURL machineID name encodedSecret network @ nl @ nl @
     ''The pairing code is good once, for the next '' @ duration_string window @ ''.'' @ nl @
     ''Anyone who can read it off this screen, or off a photograph of'' @ nl @
     ''it, can ask to be enrolled, so you will be shown which key'' @ nl @
     ''holder is asking before anything is written to the volume.'' @ nl)"

section \<open>Lemmas\<close>

lemma validateDiscovery_announced:
  assumes "validateDiscovery L s True = Inr x"
  shows "\<exists>u. url_Parse L s = Inr u \<and> Scheme u = ''https'' \<and> User u = None \<and> Host u \<noteq> []"
  using assms by (auto simp: validateDiscovery_def parseDiscoveryURL_def split: sum.splits if_splits)

lemma validateDiscovery_weaken:
  "validateDiscovery L s True = Inr x \<Longrightarrow> validateDiscovery L s b = Inr ()"
  by (auto simp: validateDiscovery_def split: sum.splits if_splits)

text \<open>What a machine's settings were checked for, whichever place they came from.\<close>

definition machine_settings_ok :: "'a netlib_scheme \<Rightarrow> NetworkConfig \<Rightarrow> bool" where
  "machine_settings_ok L c \<longleftrightarrow>
    (RelayPool c \<noteq> [] \<longrightarrow> is_ok (validateRelayPool L (RelayPool c))) \<and>
    (Discovery c \<noteq> [] \<longrightarrow> is_ok (validateDiscovery L (Discovery c) (DiscoveryAnnounce c = []))) \<and>
    (DiscoveryAnnounce c \<noteq> [] \<longrightarrow> is_ok (validateDiscovery L (DiscoveryAnnounce c) True))"

lemma machine_settings_ok_zero: "machine_settings_ok L NetworkConfig0"
  by (simp add: machine_settings_ok_def NetworkConfig0_def)

lemma ParseNetworkConfig_ok: "ParseNetworkConfig L relayPool disc announce = Inr c \<Longrightarrow> machine_settings_ok L c"
  by (auto simp: ParseNetworkConfig_def parseNetworkConfig_def machine_settings_ok_def is_ok_iff
      split: sum.splits if_splits)

lemma Override_ok:
  assumes "machine_settings_ok L c" and "machine_settings_ok L o'"
  shows "machine_settings_ok L (Override c o')"
proof -
  have weak: "is_ok (validateDiscovery L s False)" if "is_ok (validateDiscovery L s b)" for s b
    using that validateDiscovery_weaken [of L s] by (cases b) (auto simp: is_ok_iff)
  show ?thesis
    using assms weak by (auto simp: machine_settings_ok_def Override_def Let_def)
qed

lemma ParseNetworkConf_ok:
  assumes "ParseNetworkConf L r = Inr c"
  shows "machine_settings_ok L c"
proof -
  obtain vals where "settings_loop True 1 (fst (scan_lines (fst r))) Map.empty = Inr vals"
    using assms by (cases "settings_loop True 1 (fst (scan_lines (fst r))) Map.empty")
      (simp_all add: ParseNetworkConf_def parseNetworkConf_def)
  with assms show ?thesis
    by (cases "scan_err r") (auto simp: ParseNetworkConf_def parseNetworkConf_def intro: ParseNetworkConfig_ok)
qed

lemma parseCmdlineNetwork_ok:
  assumes "parseCmdlineNetwork L raw = Inr c"
  shows "machine_settings_ok L c"
proof -
  obtain relay disc where "fold cmdline_arg (Fields raw) ([], []) = (relay, disc)" by fastforce
  with assms have "ParseNetworkConfig L relay disc [] = Inr c"
    by (cases "ParseNetworkConfig L relay disc []") (simp_all add: parseCmdlineNetwork_def)
  then show ?thesis by (rule ParseNetworkConfig_ok)
qed

lemma machine_loadNetworkConfig_ok:
  assumes "machine_loadNetworkConfig L open' confPath cmdlinePath = Inr c"
  shows "machine_settings_ok L c"
proof -
  obtain fc cmd where c: "c = Override fc cmd"
    and fl: "fc = NetworkConfig0 \<or> (\<exists>r. ParseNetworkConf L r = Inr fc)"
    and cmd: "cmd = NetworkConfig0 \<or> (\<exists>raw. parseCmdlineNetwork L raw = Inr cmd)"
    using assms unfolding machine_loadNetworkConfig_def
    by (auto split: sum.splits if_splits opened_file.splits option.splits; blast)
  from fl have "machine_settings_ok L fc"
    using machine_settings_ok_zero ParseNetworkConf_ok by blast
  moreover from cmd have "machine_settings_ok L cmd"
    using machine_settings_ok_zero parseCmdlineNetwork_ok by blast
  ultimately show ?thesis unfolding c by (rule Override_ok)
qed

text \<open>The settings of a file, as a list.\<close>

definition kept_lines :: "string list \<Rightarrow> string list" where
  "kept_lines ls = filter (\<lambda>l. TrimSpace l \<noteq> [] \<and> \<not> HasPrefix (TrimSpace l) ''#'') ls"

definition setting_of :: "string \<Rightarrow> string \<times> string" where
  "setting_of l = (case cut_at (CHR ''='') (TrimSpace l) of
     None \<Rightarrow> ([], []) | Some (k, v) \<Rightarrow> (TrimSpace k, TrimSpace v))"

definition known_keys :: "bool \<Rightarrow> string set" where
  "known_keys allowRelayPool =
    (if allowRelayPool then {NetworkKeyRelayPool} else {}) \<union> {NetworkKeyDiscovery, NetworkKeyDiscoveryAnnounce}"

definition is_setting :: "bool \<Rightarrow> string \<Rightarrow> bool" where
  "is_setting allowRelayPool l \<longleftrightarrow>
    CHR ''='' \<in> set (TrimSpace l) \<and> fst (setting_of l) \<in> known_keys allowRelayPool"

lemma keys_distinct:
  "NetworkKeyRelayPool \<noteq> NetworkKeyDiscovery" "NetworkKeyRelayPool \<noteq> NetworkKeyDiscoveryAnnounce"
  by (simp_all add: NetworkKeyRelayPool_def NetworkKeyDiscovery_def NetworkKeyDiscoveryAnnounce_def)

lemma named_setting_Inr:
  "named_setting allow at key val vals = Inr vals' \<longleftrightarrow>
    key \<in> known_keys allow \<and> key \<notin> dom vals \<and> vals' = vals(key \<mapsto> val)"
  using keys_distinct by (cases allow) (auto simp: named_setting_def known_keys_def)

lemma one_setting_Inr:
  "one_setting allow n l vals = Inr vals' \<longleftrightarrow>
    (if kept_lines [l] = [] then vals' = vals
     else is_setting allow l \<and> fst (setting_of l) \<notin> dom vals \<and>
       vals' = vals(fst (setting_of l) \<mapsto> snd (setting_of l)))"
proof (cases "kept_lines [l] = []")
  case True
  then show ?thesis by (auto simp: one_setting_def kept_lines_def Let_def split: if_splits)
next
  case False
  then have "\<not> (TrimSpace l = [] \<or> HasPrefix (TrimSpace l) ''#'')" by (auto simp: kept_lines_def split: if_splits)
  then have run: "one_setting allow n l vals = (case cut_at (CHR ''='') (TrimSpace l) of
      None \<Rightarrow> Inl (Err ((''line '' @ show_nat n @ '': '') @ ''expected key=value''))
    | Some (k, v) \<Rightarrow> named_setting allow (''line '' @ show_nat n @ '': '') (TrimSpace k) (TrimSpace v) vals)"
    unfolding one_setting_def Let_def by (simp only: if_False)
  show ?thesis
  proof (cases "cut_at (CHR ''='') (TrimSpace l)")
    case None
    moreover from None have "\<not> is_setting allow l" by (simp add: is_setting_def cut_at_None)
    ultimately show ?thesis using False run by simp
  next
    case (Some kv)
    obtain k v where kv: "kv = (k, v)" by fastforce
    have "CHR ''='' \<in> set (TrimSpace l)" using Some cut_at_None by (metis option.distinct(1))
    then show ?thesis
      using False run Some kv by (simp add: named_setting_Inr is_setting_def setting_of_def)
  qed
qed

lemma settings_loop_Inr:
  "settings_loop allow n ls vals = Inr vals' \<longleftrightarrow>
    (let ss = kept_lines ls; ks = map (fst \<circ> setting_of) ss in
     (\<forall>l \<in> set ss. is_setting allow l) \<and> distinct ks \<and> set ks \<inter> dom vals = {} \<and>
     vals' = vals ++ map_of (map setting_of ss))"
proof (induction ls arbitrary: n vals)
  case Nil
  then show ?case by (auto simp: kept_lines_def)
next
  case (Cons l ls)
  show ?case
  proof (cases "kept_lines [l] = []")
    case True
    then have "kept_lines (l # ls) = kept_lines ls" by (auto simp: kept_lines_def split: if_splits)
    with True Cons show ?thesis by (simp add: bind_res_Inr_iff one_setting_Inr)
  next
    case False
    then have k: "kept_lines (l # ls) = l # kept_lines ls" by (auto simp: kept_lines_def split: if_splits)
    have upd: "vals(a \<mapsto> b) ++ m = vals ++ m(a \<mapsto> b)" if "a \<notin> dom m" for a b and m :: "string \<rightharpoonup> string"
      using that by (auto simp: map_add_def fun_eq_iff split: option.splits)
    have d: "dom (map_of (map setting_of ss)) = set (map (fst \<circ> setting_of) ss)" for ss
      by (auto simp: dom_map_of_conv_image_fst image_comp)
    show ?thesis
      using False k upd [of "fst (setting_of l)" "map_of (map setting_of (kept_lines ls))"] d [of "kept_lines ls"]
      by (auto simp: bind_res_Inr_iff one_setting_Inr Cons Let_def)
  qed
qed

section \<open>Properties\<close>

text \<open>
  C20. A machine announces itself over https only, to a server that is named without credentials:
  whatever mixture of network.conf and kernel command line its settings come from, every announce
  endpoint they give it is such a URL, and the public endpoints are used only when no discovery
  server was chosen.
\<close>

theorem announce_only_over_https:
  assumes "machine_loadNetworkConfig L open' confPath cmdlinePath = Inr c"
  shows "(\<forall>a \<in> set (rsAnnounceURLs (NewSyncthingRelay c)). \<exists>u. url_Parse L a = Inr u \<and>
      Scheme u = ''https'' \<and> User u = None \<and> Host u \<noteq> []) \<and>
    (announceURLs (NewSyncthingRelay c) = rsAnnounceURLs (NewSyncthingRelay c) \<or>
     Discovery c = [] \<and> DiscoveryAnnounce c = [])"
  using machine_loadNetworkConfig_ok [OF assms] validateDiscovery_announced [of L]
  by (auto simp: machine_settings_ok_def NewSyncthingRelay_def announceURLs_def is_ok_iff)

text \<open>
  C21. Reading a settings file is exactly this: every line that is neither blank nor a comment is
  \<open>key=value\<close> with a known key, no key comes twice, the file can be read to its end, and then the
  values are checked as one configuration; anything else is an error.
\<close>

theorem network_conf_reads:
  "parseNetworkConf L r allow = Inr c \<longleftrightarrow>
    (let ss = kept_lines (fst (scan_lines (fst r))); val = val_of (map_of (map setting_of ss)) in
     list_all (is_setting allow) ss \<and> distinct (map (fst \<circ> setting_of) ss) \<and> scan_err r = None \<and>
     parseNetworkConfig L (if allow then val NetworkKeyRelayPool else []) (val NetworkKeyDiscovery)
       (val NetworkKeyDiscoveryAnnounce) allow = Inr c)"
proof -
  let ?ls = "fst (scan_lines (fst r))"
  have "parseNetworkConf L r allow = Inr c \<longleftrightarrow>
    (\<exists>vals. settings_loop allow 1 ?ls Map.empty = Inr vals \<and> scan_err r = None \<and>
      parseNetworkConfig L (if allow then val_of vals NetworkKeyRelayPool else []) (val_of vals NetworkKeyDiscovery)
        (val_of vals NetworkKeyDiscoveryAnnounce) allow = Inr c)"
    by (cases "settings_loop allow 1 ?ls Map.empty"; cases "scan_err r")
      (simp_all add: parseNetworkConf_def ParseNetworkConfig_def ParseDialerNetworkConfig_def)
  then show ?thesis unfolding settings_loop_Inr Let_def list_all_iff by simp
qed

text \<open>
  C22. The pairing link carries what the phone needs and nothing else: reading its query gives back
  the machine's id, its name and its discovery server if it has them, and the pairing code,
  whatever characters they contain.
\<close>

theorem pairing_link_reads:
  "\<exists>q. pairingURL machineID name code network = ''synctang://pair?'' @ q \<and>
    query_Get (ParseQuery q) ''machine'' = machineID \<and> query_Get (ParseQuery q) ''name'' = name \<and>
    query_Get (ParseQuery q) ''discovery'' = Discovery network \<and> query_Get (ParseQuery q) ''psk'' = code \<and>
    {k. query_Has (ParseQuery q) k} = {''machine'', ''psk''} \<union> (if name = [] then {} else {''name''}) \<union>
      (if Discovery network = [] then {} else {''discovery''})"
proof -
  let ?q = "query_Encode (pairing_query machineID name code network)"
  have nil: "query_Get [] k = []" "\<not> query_Has [] k" for k by (simp_all add: query_Get_def query_Has_def)
  have "query_Get (ParseQuery ?q) ''machine'' = machineID" "query_Get (ParseQuery ?q) ''name'' = name"
    "query_Get (ParseQuery ?q) ''discovery'' = Discovery network" "query_Get (ParseQuery ?q) ''psk'' = code"
    by (simp_all add: query_Get_Encode pairing_query_def Let_def query_Get_Set nil)
  moreover have "{k. query_Has (ParseQuery ?q) k} = {''machine'', ''psk''} \<union> (if name = [] then {} else {''name''}) \<union>
      (if Discovery network = [] then {} else {''discovery''})"
    by (auto simp: query_Has_Encode pairing_query_def Let_def query_Has_Set nil)
  ultimately show ?thesis unfolding pairingURL_def by blast
qed

end
