(* ===== verification/Lookup.thy ===== *)
theory Lookup
  imports Network Complex_Main
begin

text \<open>
  Asking discovery about a machine: one lookup (\<open>mrcore/transport/discovery_lookup.go\<close>), how
  sparingly (\<open>discovery_backoff.go\<close>), and what the answer says of the machine
  (\<open>machine_status.go\<close>, \<open>mobile/status.go\<close>).
\<close>

section \<open>Waiting as told\<close>

text \<open>\<open>t.Sub(u)\<close> saturates.\<close>

definition time_Sub :: "int \<Rightarrow> int \<Rightarrow> duration" where
  "time_Sub t u = max (- (2 ^ 63)) (min (2 ^ 63 - 1) (t - u))"

definition DefaultRetryAfter :: duration where
  "DefaultRetryAfter = 60 * Second"

definition ParseRetryAfter :: "'a netlib_scheme \<Rightarrow> string \<Rightarrow> int \<Rightarrow> duration" where
  "ParseRetryAfter L header0 now =
    (let h = TrimSpace header0 in
     if h = [] then DefaultRetryAfter
     else
       (case ParseUint h 32 of
          Some secs \<Rightarrow> int secs * Second
        | None \<Rightarrow>
            (case http_ParseTime L h of
               Some date \<Rightarrow> (let d = time_Sub date now in if d > 0 then d else 0)
             | None \<Rightarrow> DefaultRetryAfter)))"

text \<open>
  The delay is computed in floating point; here the arithmetic is exact, with the jitter a
  rational number.
\<close>

definition dialRetrySchedule :: "duration list" where
  "dialRetrySchedule = [3 * Second, 5 * Second, 8 * Second, 12 * Second]"

definition dialRetryMax :: duration where "dialRetryMax = 15 * Second"
definition dialRetryJitter :: rat where "dialRetryJitter = 1 / 5"
definition dialRetryAfterMax :: duration where "dialRetryAfterMax = Minute"

definition dialRetryDelay :: "nat \<Rightarrow> rat \<Rightarrow> duration" where
  "dialRetryDelay retry r =
    (let base = (if retry < length dialRetrySchedule then dialRetrySchedule ! retry else dialRetryMax);
         d = \<lfloor>rat_of_int base * (1 + dialRetryJitter * (2 * r - 1))\<rfloor> in
     min d dialRetryMax)"

definition boundedRetryAfter :: "duration \<Rightarrow> duration \<Rightarrow> duration" where
  "boundedRetryAfter retryAfter remaining =
    (let d = min (max retryAfter 0) dialRetryAfterMax in if remaining \<ge> 0 then min d remaining else d)"

text \<open>What a sleep returns: whether the context was done by then, and its error.\<close>

definition sleepFor :: "duration \<Rightarrow> goerr option \<Rightarrow> goerr option \<Rightarrow> goerr option" where
  "sleepFor d ctxErrNow ctxErrWhile = (if d \<le> 0 then ctxErrNow else ctxErrWhile)"

text \<open>\<open>errors.As(err, &limited)\<close>.\<close>

fun as_rate_limited :: "goerr \<Rightarrow> duration option" where
  "as_rate_limited (RateLimited d) = Some d"
| "as_rate_limited (Wrap _ e _) = as_rate_limited e"
| "as_rate_limited (Joined es) =
    (case filter (\<lambda>x. x \<noteq> None) (map as_rate_limited es) of [] \<Rightarrow> None | x # _ \<Rightarrow> x)"
| "as_rate_limited (DialErr e) = as_rate_limited e"
| "as_rate_limited (KindErr _ _ e) = as_rate_limited e"
| "as_rate_limited _ = None"

section \<open>One lookup\<close>

record http_response =
  StatusCode :: int
  RetryAfterHeader :: string
  Body :: string

text \<open>A client's GET: what it asks for, with which trust, and what comes back.\<close>

type_synonym http_Do = "string \<Rightarrow> tls_config \<Rightarrow> http_response res"

record discovery_record =
  Seen :: "int option"
  Addresses :: "string list"

text \<open>A decoder reads the first value of its input.\<close>

definition json_decode :: "string \<Rightarrow> json res" where
  "json_decode s =
    (case parse_value (Suc (length s)) s of
       Some (j, _) \<Rightarrow> Inr j | None \<Rightarrow> Inl (Err ''invalid character in JSON input''))"

definition lookup_put :: "string \<Rightarrow> json \<Rightarrow> string \<times> string list \<Rightarrow> (string \<times> string list) res" where
  "lookup_put f v m =
    (if f = ''seen'' then bind_res (to_string v (fst m)) (\<lambda>s. Inr (s, snd m))
     else bind_res (to_slice ''string'' (\<lambda>j. to_string j []) v) (\<lambda>as. Inr (fst m, as)))"

definition lookup_body :: "string \<Rightarrow> (string \<times> string list) res" where
  "lookup_body b =
    bind_res (json_decode b) (\<lambda>j. to_struct ''struct'' [''seen'', ''addresses''] lookup_put j ([], []))"

definition lookupRecord ::
    "'a netlib_scheme \<Rightarrow> http_Do \<Rightarrow> int \<Rightarrow> string \<Rightarrow> string \<Rightarrow> discovery_record option res" where
  "lookupRecord L Do now deviceID discURL =
    (case parseDiscoveryURL L discURL of
       Inl e \<Rightarrow> Inl (wrap ''discovery URL'' e)
     | Inr (server, opts) \<Rightarrow>
    (case url_Parse L server of
       Inl e \<Rightarrow> Inl e
     | Inr u \<Rightarrow>
       (let target = url_String L (u\<lparr>RawQuery := query_Encode (query_Set (url_Query u) ''device'' deviceID)\<rparr>) in
    (case url_Parse L target of
       Inl e \<Rightarrow> Inl e
     | Inr _ \<Rightarrow>
    (case Do target (httpClient opts) of
       Inl e \<Rightarrow> Inl e
     | Inr resp \<Rightarrow>
         if StatusCode resp = 404 then Inr None
         else if StatusCode resp = 429 then Inl (RateLimited (ParseRetryAfter L (RetryAfterHeader resp) now))
         else if StatusCode resp \<noteq> 200 then
           Inl (Err (''discovery lookup returned HTTP '' @ show_int (StatusCode resp)))
         else
           (case lookup_body (Body resp) of
              Inl e \<Rightarrow> Inl e
            | Inr (seen, addrs) \<Rightarrow>
                Inr (Some \<lparr>Seen = (if seen \<noteq> [] then parse_RFC3339 L seen else None), Addresses = addrs\<rparr>)))))))"

definition LookupRecord ::
    "'a netlib_scheme \<Rightarrow> http_Do \<Rightarrow> int \<Rightarrow> string \<Rightarrow> string \<Rightarrow> discovery_record option res" where
  "LookupRecord L Do now deviceID discURL =
    lookupRecord L Do now deviceID (if discURL = [] then DefaultDiscoveryURL L else discURL)"

section \<open>What it says of the machine\<close>

definition StatusWaiting :: string where "StatusWaiting = ''WAITING''"
definition StatusStale :: string where "StatusStale = ''STALE''"
definition StatusAbsent :: string where "StatusAbsent = ''ABSENT''"
definition StatusNoNetwork :: string where "StatusNoNetwork = ''NO_NETWORK''"
definition StatusRateLimited :: string where "StatusRateLimited = ''RATE_LIMITED''"

definition WaitingRecordMaxAge :: duration where
  "WaitingRecordMaxAge = 150 * Second"

record MachineStatus =
  msState :: string
  msAge :: duration
  msRetryAfter :: duration

definition StatusOf :: "discovery_record option \<Rightarrow> int \<Rightarrow> MachineStatus" where
  "StatusOf found now =
    (case found of
       None \<Rightarrow> \<lparr>msState = StatusAbsent, msAge = -1, msRetryAfter = 0\<rparr>
     | Some rec \<Rightarrow>
         (case Seen rec of
            None \<Rightarrow> \<lparr>msState = StatusStale, msAge = -1, msRetryAfter = 0\<rparr>
          | Some seen \<Rightarrow>
              (let age = (if time_Sub now seen < 0 then 0 else time_Sub now seen) in
               \<lparr>msState = (if age \<le> WaitingRecordMaxAge then StatusWaiting else StatusStale),
                msAge = age, msRetryAfter = 0\<rparr>)))"

definition CheckMachine ::
    "'a netlib_scheme \<Rightarrow> http_Do \<Rightarrow> int \<Rightarrow> string \<Rightarrow> string \<Rightarrow> int \<Rightarrow> MachineStatus" where
  "CheckMachine L Do lookupNow deviceID discURL now =
    (case LookupRecord L Do lookupNow deviceID discURL of
       Inl e \<Rightarrow>
         (case as_rate_limited e of
            Some d \<Rightarrow> \<lparr>msState = StatusRateLimited, msAge = -1, msRetryAfter = d\<rparr>
          | None \<Rightarrow> \<lparr>msState = StatusNoNetwork, msAge = -1, msRetryAfter = 0\<rparr>)
     | Inr found \<Rightarrow> StatusOf found now)"

definition FormatAge :: "duration \<Rightarrow> string" where
  "FormatAge age =
    (let secs = max age 0 div Second in
     if secs < 60 then show_int secs @ '' s''
     else if secs < 120 * 60 then show_int (secs div 60) @ '' min''
     else if secs < 48 * 3600 then show_int (secs div 3600) @ '' h''
     else show_int (secs div 86400) @ '' days'')"

definition DialFailureHint :: "MachineStatus \<Rightarrow> string" where
  "DialFailureHint st =
    (if msState st = StatusWaiting then
       ''The machine announced itself '' @ FormatAge (msAge st) @
       '' ago but did not answer. Try again. If it keeps failing, check its network.''
     else if msState st = StatusStale then
       (if msAge st < 0 then
          ''The machine announced itself at some point, so it may not be at its prompt. Check the machine.''
        else ''The machine last announced itself '' @ FormatAge (msAge st) @
          '' ago, so it may not be at its prompt. Check the machine.'')
     else if msState st = StatusAbsent then
       ''The machine has not announced itself. It may still be starting, switched off, or using another discovery server.''
     else [])"

section \<open>As the phone shows it\<close>

record PhoneStatus =
  psState :: string
  AgeSeconds :: int
  RetryAfterSeconds :: int

definition retryAfterFloor :: duration where "retryAfterFloor = 30 * Second"
definition retryAfterCap :: duration where "retryAfterCap = 10 * Minute"

definition honouredRetryAfter :: "duration \<Rightarrow> int" where
  "honouredRetryAfter d0 =
    (let d = min (max d0 retryAfterFloor) retryAfterCap in (d + Second - 1) div Second)"

definition checkMachineStatusAt ::
    "'a netlib_scheme \<Rightarrow> http_Do \<Rightarrow> int \<Rightarrow> int \<Rightarrow> string \<Rightarrow> string \<Rightarrow> PhoneStatus res" where
  "checkMachineStatusAt L Do lookupNow now deviceID discURL =
    (if deviceID = [] then Inl (Err ''mobile: no machine device ID to check'')
     else
       (case DeviceIDOf L deviceID of
          Inl e \<Rightarrow> Inl (wrap ''mobile: the machine device ID is not valid'' e)
        | Inr i \<Rightarrow>
            (case ParseDialerNetworkConfig L discURL [] of
               Inl e \<Rightarrow> Inl (wrap ''mobile'' e)
             | Inr cfg \<Rightarrow>
                 (let st = CheckMachine L Do lookupNow i (Discovery cfg) now in
                  if msState st = StatusRateLimited then
                    Inr \<lparr>psState = StatusRateLimited, AgeSeconds = -1,
                         RetryAfterSeconds = honouredRetryAfter (msRetryAfter st)\<rparr>
                  else if msState st = StatusNoNetwork then
                    Inr \<lparr>psState = StatusNoNetwork, AgeSeconds = -1, RetryAfterSeconds = 0\<rparr>
                  else
                    Inr \<lparr>psState = msState st,
                         AgeSeconds = (if msAge st \<ge> 0 then msAge st div Second else -1),
                         RetryAfterSeconds = 0\<rparr>))))"

section \<open>Lemmas\<close>

lemma ParseRetryAfter_nonneg: "0 \<le> ParseRetryAfter L h now"
  by (auto simp: ParseRetryAfter_def Let_def DefaultRetryAfter_def split: option.splits)

lemma status_names_distinct [simp]:
  "StatusWaiting \<noteq> StatusStale" "StatusWaiting \<noteq> StatusAbsent" "StatusWaiting \<noteq> StatusNoNetwork"
  "StatusWaiting \<noteq> StatusRateLimited" "StatusStale \<noteq> StatusAbsent" "StatusStale \<noteq> StatusNoNetwork"
  "StatusStale \<noteq> StatusRateLimited" "StatusAbsent \<noteq> StatusNoNetwork" "StatusAbsent \<noteq> StatusRateLimited"
  "StatusNoNetwork \<noteq> StatusRateLimited"
  by (simp_all add: StatusWaiting_def StatusStale_def StatusAbsent_def StatusNoNetwork_def StatusRateLimited_def)

lemmas status_names_distinct' [simp] = status_names_distinct [symmetric]

lemma time_Sub_le: "k < 2 ^ 63 - 1 \<Longrightarrow> 0 \<le> k \<Longrightarrow> (time_Sub t u \<le> k) = (t - u \<le> k)"
  by (auto simp: time_Sub_def)

lemma StatusOf_waiting:
  "msState (StatusOf found now) = StatusWaiting \<longleftrightarrow>
    (\<exists>rec t. found = Some rec \<and> Seen rec = Some t \<and> now - t \<le> WaitingRecordMaxAge)"
proof -
  have k: "(if time_Sub now t < 0 then 0 else time_Sub now t) \<le> WaitingRecordMaxAge \<longleftrightarrow>
      now - t \<le> WaitingRecordMaxAge" for t
    by (auto simp: WaitingRecordMaxAge_def time_Sub_def)
  show ?thesis
    by (auto simp: StatusOf_def Let_def k split: option.splits if_splits)
qed

lemma StatusOf_state:
  "msState (StatusOf found now) = StatusAbsent \<longleftrightarrow> found = None"
  "msState (StatusOf found now) \<noteq> StatusNoNetwork" "msState (StatusOf found now) \<noteq> StatusRateLimited"
  by (auto simp: StatusOf_def Let_def split: option.splits)

lemma honouredRetryAfter_bounds:
  "30 \<le> honouredRetryAfter d \<and> honouredRetryAfter d \<le> 600 \<and>
    (d \<le> retryAfterCap \<longrightarrow> d \<le> honouredRetryAfter d * Second)"
proof -
  define x where "x = min (max d retryAfterFloor) retryAfterCap"
  have x: "30 * Second \<le> x" "x \<le> 600 * Second" "d \<le> retryAfterCap \<Longrightarrow> d \<le> x"
    by (auto simp: x_def retryAfterFloor_def retryAfterCap_def)
  have h: "honouredRetryAfter d = (x + Second - 1) div Second" by (simp add: honouredRetryAfter_def x_def Let_def)
  let ?q = "(x + Second - 1) div Second"
  have "x + Second - 1 = ?q * Second + (x + Second - 1) mod Second" by simp
  moreover have "0 \<le> (x + Second - 1) mod Second" "(x + Second - 1) mod Second < Second" by simp_all
  ultimately have q: "x \<le> ?q * Second" "?q * Second \<le> x + Second - 1" by linarith+
  have "30 \<le> ?q" "?q \<le> 600" using q x(1,2) by linarith+
  with q(1) x(3) h show ?thesis by (metis order_trans)
qed

section \<open>Properties\<close>


section \<open>Concrete runs\<close>

text \<open>One server, \<open>https://d\<close>, whose URLs have a query.\<close>

definition demo_net :: netlib where
  "demo_net = \<lparr>url_Parse = (\<lambda>s. if prefix ''https://d?'' s
       then Inr \<lparr>Scheme = ''https'', User = None, Host = ''d'', RawQuery = drop 10 s, uRest = []\<rparr>
       else Inl (Err ''invalid URL'')),
     url_String = (\<lambda>u. Scheme u @ ''://'' @ Host u @ ''?'' @ RawQuery u),
     DeviceIDOf = Inr, DefaultDiscoveryURL = ''https://d?'',
     http_ParseTime = (\<lambda>_. None), parse_RFC3339 = (\<lambda>_. None)\<rparr>"

lemma query_nil: "ParseQuery [] = []" "query_Encode [] = []"
  by (simp_all add: ParseQuery_def map_filter_def parse_pair_def query_Encode_def)

lemma demo_discovery: "parseDiscoveryURL demo_net ''https://d?'' =
    Inr (''https://d?'', \<lparr>doID = [], hasID = False, insecure = False\<rparr>)"
  by (simp add: parseDiscoveryURL_def demo_net_def url_Query_def query_nil query_Has_def query_Get_def query_Del_def
      queryBool_def)

lemma demo_trim_3: "TrimSpace ''3'' = ''3''"
  by (intro TrimSpace_printable) (simp_all add: printable_def)


lemma Fields_printable:
  assumes "s \<noteq> []" and "list_all printable s"
  shows "Fields s = [s]"
proof -
  have "fields_from cur t = [rev cur @ t]" if "list_all printable t" "cur \<noteq> [] \<or> t \<noteq> []" for cur t
    using that
  proof (induction t arbitrary: cur)
    case Nil
    then show ?case by (simp add: fields_from.simps push_field_def)
  next
    case (Cons c t)
    then have "ws_prefix (c # t) = None" by (intro ws_prefix_ascii) (simp_all add: printable_def)
    with Cons show ?case by (subst fields_from.simps) simp
  qed
  from this [OF assms(2), of "[]"] assms(1) show ?thesis by (simp add: Fields_def)
qed

definition demo_open :: "string \<Rightarrow> opened_file" where
  "demo_open p = (if p = ''/proc/cmdline'' then Opened (''rd.synctang.discovery=https://d?'', None)
     else Missing (Err ''no such file''))"

lemma announce_only_over_https_witness:
  "\<exists>c. machine_loadNetworkConfig demo_net demo_open ''/c'' ''/proc/cmdline'' = Inr c \<and>
    rsAnnounceURLs (NewSyncthingRelay c) = [''https://d?''] \<and>
    (\<exists>u. url_Parse demo_net ''https://d?'' = Inr u \<and> Scheme u = ''https'')"
proof -
  have f: "Fields ''rd.synctang.discovery=https://d?'' = [''rd.synctang.discovery=https://d?'']"
    by (intro Fields_printable) (simp_all add: printable_def)
  let ?c = "\<lparr>RelayPool = [], Discovery = ''https://d?'', DiscoveryAnnounce = []\<rparr>"
  have "ParseNetworkConfig demo_net [] ''https://d?'' [] = Inr ?c"
    by (simp add: ParseNetworkConfig_def parseNetworkConfig_def validateDiscovery_def demo_discovery)
       (simp add: demo_net_def)
  then have "parseCmdlineNetwork demo_net ''rd.synctang.discovery=https://d?'' = Inr ?c"
    by (simp add: parseCmdlineNetwork_def f cmdline_arg_def cmdlineRelay_def cmdlineDiscovery_def TrimPrefix_def)
  then have run: "machine_loadNetworkConfig demo_net demo_open ''/c'' ''/proc/cmdline'' = Inr ?c"
    by (simp add: machine_loadNetworkConfig_def demo_open_def Override_def NetworkConfig0_def)
  have "rsAnnounceURLs (NewSyncthingRelay ?c) = [''https://d?'']" by (simp add: NewSyncthingRelay_def)
  with announce_only_over_https [OF run] run show ?thesis by auto
qed

end
