(* ===== verification/Relay.thy ===== *)
theory Relay
  imports Lookup Exchange "HOL-Library.Multiset"
begin

text \<open>
  \<open>SyncthingRelay\<close> of \<open>mrcore/transport/syncthing_relay.go\<close>: handshakes, dialling through
  discovery with its retries, announcing, and noticing that the relay is gone.  A raw connection
  is of any type; Syncthing's relay client and the TCP dialler are parameters.
\<close>

section \<open>Handshakes\<close>

text \<open>
  A TLS handshake on a raw connection fails or ends with the Device IDs of the certificates the
  peer presented.  The result is the verified connection or an error, and whether the raw
  connection was closed and \<open>onClose\<close> run on the way.
\<close>

type_synonym 'r handshake = "'r \<Rightarrow> string list res"

definition containsDeviceID :: "string list \<Rightarrow> string \<Rightarrow> bool" where
  "containsDeviceID ids i \<longleftrightarrow> i \<in> set ids"

definition doServerHandshake :: "'r handshake \<Rightarrow> 'r \<Rightarrow> string list \<Rightarrow> ('r \<times> string) res \<times> bool \<times> bool" where
  "doServerHandshake hs raw authorizedPeers =
    (case hs raw of
       Inl e \<Rightarrow> (Inl (wrap ''transport: server handshake'' e), True, True)
     | Inr [] \<Rightarrow> (Inl (Err ''transport: peer presented no certificate''), True, True)
     | Inr (peerID # _) \<Rightarrow>
         if 0 < length authorizedPeers \<and> \<not> containsDeviceID authorizedPeers peerID then
           (Inl (Err (''transport: peer '' @ peerID @ '' is not authorized'')), True, True)
         else (Inr (raw, peerID), False, False))"

definition doClientHandshake :: "'r handshake \<Rightarrow> 'r \<Rightarrow> string \<Rightarrow> ('r \<times> string) res \<times> bool" where
  "doClientHandshake hs raw expectedPeerID =
    (case hs raw of
       Inl e \<Rightarrow> (Inl (wrap ''transport: client handshake'' e), True)
     | Inr [] \<Rightarrow> (Inl (Err ''transport: peer presented no certificate''), True)
     | Inr (peerID # _) \<Rightarrow>
         if expectedPeerID \<noteq> [] \<and> peerID \<noteq> expectedPeerID then
           (Inl (Err (''transport: security mismatch: connected to '' @ peerID @ '', expected '' @ expectedPeerID)), True)
         else (Inr (raw, peerID), False))"

section \<open>Listening and dialling\<close>

text \<open>What the first connection on a listener, or the end of the context, comes to.\<close>

datatype 'r accepted = CtxEnded goerr | Accepted "'r res"

definition acceptWithContext :: "'r accepted \<Rightarrow> 'r res" where
  "acceptWithContext a = (case a of CtxEnded e \<Rightarrow> Inl e | Accepted r \<Rightarrow> r)"

definition listenDirect :: "(string \<Rightarrow> 'r accepted res) \<Rightarrow> string \<Rightarrow> 'r res" where
  "listenDirect listen addr =
    (case listen addr of
       Inl e \<Rightarrow> Inl (wrap (''transport: direct listen on '' @ addr) e)
     | Inr a \<Rightarrow> map_err (wrap (''transport: direct listen on '' @ addr)) (acceptWithContext a))"

text \<open>
  The attempts of \<open>dialTCPRetrying\<close>: each is what the dial came to and, when it failed, the
  context's error if it was done during the pause.  \<open>None\<close> while it is still trying.
\<close>

fun dialTCPRetrying :: "string \<Rightarrow> ('r res \<times> goerr option) list \<Rightarrow> 'r res option" where
  "dialTCPRetrying addr [] = None"
| "dialTCPRetrying addr ((Inr c, _) # rest) = Some (Inr c)"
| "dialTCPRetrying addr ((Inl e, Some ctxErr) # rest) =
    Some (Inl (Wrap (''dial to '' @ addr @ '': '') ctxErr ('' (last attempt: '' @ error_text e @ '')'')))"
| "dialTCPRetrying addr ((Inl e, None) # rest) = dialTCPRetrying addr rest"

datatype Route = RouteRelay | RouteLocal | RouteDirect
datatype DialPhase = PhaseLookup | PhaseConnect | PhaseHandshake

definition DialPhase_String :: "DialPhase \<Rightarrow> string" where
  "DialPhase_String p =
    (case p of PhaseLookup \<Rightarrow> ''lookup'' | PhaseConnect \<Rightarrow> ''connect'' | PhaseHandshake \<Rightarrow> ''handshake'')"

type_synonym progress_log = "(Route \<times> DialPhase) list"

section \<open>Racing the announced relays\<close>

definition relay_attempts :: "'a netlib_scheme \<Rightarrow> (url \<Rightarrow> 'r res) \<Rightarrow> string list \<Rightarrow> 'r res list" where
  "relay_attempts L join addrs =
    map (\<lambda>a. case url_Parse L a of
           Inl e \<Rightarrow> Inl (wrap (''relay address '' @ Quote a) e)
         | Inr u \<Rightarrow> join u) addrs"

fun successes :: "'r res list \<Rightarrow> 'r list" where
  "successes [] = []"
| "successes (Inr c # rs) = c # successes rs"
| "successes (Inl e # rs) = successes rs"

text \<open>
  The results in the order they arrive, whichever that is, with the errors received so far; the
  connections that arrive after the first are closed.
\<close>

fun receive_first :: "goerr list \<Rightarrow> 'r res list \<Rightarrow> 'r res \<times> 'r list" where
  "receive_first errs [] = (Inl (Joined errs), [])"
| "receive_first errs (Inr c # late) = (Inr c, successes late)"
| "receive_first errs (Inl e # rest) = receive_first (errs @ [e]) rest"

definition raceRelayAddresses ::
    "'a netlib_scheme \<Rightarrow> (url \<Rightarrow> 'r res) \<Rightarrow> nat list \<Rightarrow> string list \<Rightarrow> 'r res \<times> 'r list" where
  "raceRelayAddresses L join order addrs =
    receive_first [] (map (\<lambda>i. relay_attempts L join addrs ! i) order)"

section \<open>One attempt\<close>

fun try_direct :: "'a netlib_scheme \<Rightarrow> (string \<Rightarrow> 'r res) \<Rightarrow> goerr option \<Rightarrow> string list \<Rightarrow> 'r + goerr option" where
  "try_direct L dialTCP lastErr [] = Inr lastErr"
| "try_direct L dialTCP lastErr (a # as) =
    (case url_Parse L a of
       Inl e \<Rightarrow> try_direct L dialTCP (Some e) as
     | Inr u \<Rightarrow> (case dialTCP (Host u) of Inl e \<Rightarrow> try_direct L dialTCP (Some e) as | Inr c \<Rightarrow> Inl c))"

text \<open>The environment of one attempt.\<close>

record 'r dial_env =
  deDo :: http_Do
  deNow :: int
  deDialTCP :: "string \<Rightarrow> 'r res"
  deInvitation :: "url \<Rightarrow> string \<Rightarrow> string res"
  deJoin :: "string \<Rightarrow> 'r res"
  deOrder :: "nat \<Rightarrow> nat list"

definition join_relay :: "'r dial_env \<Rightarrow> string \<Rightarrow> url \<Rightarrow> 'r res" where
  "join_relay E targetID u =
    (case deInvitation E u targetID of
       Inl e \<Rightarrow> Inl (wrap (''relay '' @ Host u) e)
     | Inr invitation \<Rightarrow> map_err (wrap (''joining session on relay '' @ Host u)) (deJoin E invitation))"

definition connect_relays ::
    "'a netlib_scheme \<Rightarrow> 'r dial_env \<Rightarrow> string \<Rightarrow> goerr option \<Rightarrow> string list \<Rightarrow> progress_log \<Rightarrow>
      ('r \<times> Route) res \<times> progress_log" where
  "connect_relays L E targetID lastErr relayAddrs phases =
    (let fail = (\<lambda>e ps. (Inl (wrap (''transport: connecting to '' @ targetID) e), ps)) in
     if relayAddrs = [] then
       (case lastErr of
          None \<Rightarrow> fail (Err (''no usable direct or relay addresses for '' @ targetID)) phases
        | Some e \<Rightarrow> fail e phases)
     else
       (case fst (raceRelayAddresses L (join_relay E targetID) (deOrder E (length relayAddrs)) relayAddrs) of
          Inr c \<Rightarrow> (Inr (c, RouteRelay), phases @ [(RouteRelay, PhaseConnect)])
        | Inl e \<Rightarrow> fail e (phases @ [(RouteRelay, PhaseConnect)])))"

definition dialRelayOnce ::
    "'a netlib_scheme \<Rightarrow> 'r dial_env \<Rightarrow> string \<Rightarrow> string \<Rightarrow> ('r \<times> Route) res \<times> progress_log" where
  "dialRelayOnce L E discURL peerID =
    (case DeviceIDOf L peerID of
       Inl e \<Rightarrow> (Inl (wrap (''transport: invalid peer Device ID '' @ Quote peerID) e), [])
     | Inr targetID \<Rightarrow>
       (let phases = [(RouteRelay, PhaseLookup)] in
    (case lookupRecord L (deDo E) (deNow E) targetID discURL of
       Inl e \<Rightarrow> (Inl (wrap (''transport: discovery lookup for '' @ targetID) e), phases)
     | Inr rec \<Rightarrow>
         (let addrs = (case rec of None \<Rightarrow> [] | Some r \<Rightarrow> Addresses r) in
          if addrs = [] then
            (Inl (Err (''transport: no addresses announced for peer '' @ targetID)), phases)
          else
            (let directAddrs = filter (\<lambda>a. HasPrefix a ''tcp://'') addrs;
                 relayAddrs = filter (\<lambda>a. \<not> HasPrefix a ''tcp://'' \<and> HasPrefix a ''relay://'') addrs;
                 phases1 = (if directAddrs \<noteq> [] then phases @ [(RouteDirect, PhaseConnect)] else phases) in
             case try_direct L (deDialTCP E) None directAddrs of
               Inl c \<Rightarrow> (Inr (c, RouteDirect), phases1)
             | Inr lastErr \<Rightarrow> connect_relays L E targetID lastErr relayAddrs phases1)))))"

definition dialRelayAttempt ::
    "'a netlib_scheme \<Rightarrow> 'r dial_env \<Rightarrow> 'r handshake \<Rightarrow> string \<Rightarrow> string \<Rightarrow> ('r \<times> string) res \<times> progress_log" where
  "dialRelayAttempt L E hs discURL peerID =
    (case dialRelayOnce L E discURL peerID of
       (Inl e, ps) \<Rightarrow> (Inl e, ps)
     | (Inr (raw, route), ps) \<Rightarrow> (fst (doClientHandshake hs raw peerID), ps @ [(route, PhaseHandshake)]))"

section \<open>The retries\<close>

text \<open>
  A round is an attempt, in the environment it meets, with what the loop then meets: the jitter,
  the time left if the context has a deadline, and the error of the sleep if it was cut short.
\<close>

record 'r dial_round =
  drEnv :: "'r dial_env"
  drHandshake :: "'r handshake"
  drJitter :: rat
  drRemaining :: "duration option"
  drSleepErr :: "goerr option"

definition round_wait :: "nat \<Rightarrow> goerr \<Rightarrow> 'r dial_round \<Rightarrow> duration" where
  "round_wait retry e r =
    (let wait = dialRetryDelay retry (drJitter r) in
     case as_rate_limited e of
       None \<Rightarrow> wait
     | Some retryAfter \<Rightarrow>
         (let told = boundedRetryAfter retryAfter (case drRemaining r of None \<Rightarrow> -1 | Some d \<Rightarrow> d) in
          if told > wait then told else wait))"

text \<open>
  The result, \<open>None\<close> while it is still trying, the waits so far and the phases reported.
\<close>

fun dialRelay ::
    "'a netlib_scheme \<Rightarrow> string \<Rightarrow> string \<Rightarrow> nat \<Rightarrow> 'r dial_round list \<Rightarrow>
      ('r \<times> string) res option \<times> duration list \<times> progress_log" where
  "dialRelay L discURL peerID retry [] = (None, [], [])"
| "dialRelay L discURL peerID retry (r # rs) =
    (case dialRelayAttempt L (drEnv r) (drHandshake r) discURL peerID of
       (Inr c, ps) \<Rightarrow> (Some (Inr c), [], ps)
     | (Inl lastErr, ps) \<Rightarrow>
         (let wait = round_wait retry lastErr r in
          case drSleepErr r of
            Some e \<Rightarrow> (Some (Inl (Wrap [] e ('' (last attempt: '' @ error_text lastErr @ '')''))), [wait], ps)
          | None \<Rightarrow>
              (case dialRelay L discURL peerID (Suc retry) rs of
                 (res, waits, ps') \<Rightarrow> (res, wait # waits, ps @ ps'))))"

text \<open>
  \<open>Dial\<close>: the attempts \<open>direct\<close> on the address in the options and the handshake \<open>hs\<close> on what
  they give, or else the rounds through discovery.
\<close>

record dial_options =
  doPeerID :: string
  doDirectAddr :: string

definition relay_Dial ::
    "'a netlib_scheme \<Rightarrow> relay_settings \<Rightarrow> ('r res \<times> goerr option) list \<Rightarrow> 'r handshake \<Rightarrow>
      'r dial_round list \<Rightarrow> dial_options \<Rightarrow> ('r \<times> string) res option \<times> progress_log" where
  "relay_Dial L t direct hs rounds opts =
    (if doPeerID opts = [] then (Some (Inl ErrNoPeerID), [])
     else if doDirectAddr opts \<noteq> [] then
       (case dialTCPRetrying (doDirectAddr opts) direct of
          None \<Rightarrow> (None, [(RouteDirect, PhaseConnect)])
        | Some (Inl e) \<Rightarrow> (Some (Inl e), [(RouteDirect, PhaseConnect)])
        | Some (Inr raw) \<Rightarrow>
            (Some (fst (doClientHandshake hs raw (doPeerID opts))),
             [(RouteDirect, PhaseConnect), (RouteDirect, PhaseHandshake)]))
     else
       (case dialRelay L (discoveryURL L t) (doPeerID opts) 0 rounds of (res, _, ps) \<Rightarrow> (res, ps)))"

section \<open>Announcing\<close>

text \<open>A POST of the payload to a URL, with the trust its client has.\<close>

type_synonym http_Post = "string \<Rightarrow> tls_config \<Rightarrow> string \<Rightarrow> http_response res"

definition announce_payload :: "string list \<Rightarrow> string" where
  "announce_payload addresses = json_print (JObj [(''addresses'', JArr (map JStr addresses))])"

definition newPinnedAnnounceHTTPClient :: "discoveryOptions \<Rightarrow> tls_config" where
  "newPinnedAnnounceHTTPClient opts = applyTrust opts tls_default"

definition newAnnounceHTTPClient :: tls_config where
  "newAnnounceHTTPClient = tls_default\<lparr>InsecureSkipVerify := True\<rparr>"

text \<open>The result, and the request made, if one was.\<close>

definition postAnnounce ::
    "'a netlib_scheme \<Rightarrow> http_Post \<Rightarrow> string \<Rightarrow> string \<Rightarrow> unit res \<times> (string \<times> tls_config) list" where
  "postAnnounce L Post announceURL payload =
    (case parseDiscoveryURL L announceURL of
       Inl e \<Rightarrow> (Inl (wrap ''announce URL'' e), [])
     | Inr (target, opts) \<Rightarrow>
    (case url_Parse L target of
       Inl e \<Rightarrow> (Inl (wrap (''building announce request to '' @ target) e), [])
     | Inr u \<Rightarrow>
         if Scheme u \<noteq> ''https'' then
           (Inl (Err (''refusing to announce to '' @ Host u @ '' over plain http'')), [])
         else
           (let client = (if hasID opts then newPinnedAnnounceHTTPClient opts else newAnnounceHTTPClient) in
            case Post target client payload of
              Inl e \<Rightarrow> (Inl (wrap (''announce request to '' @ target) e), [(target, client)])
            | Inr resp \<Rightarrow>
                if StatusCode resp \<noteq> 204 then
                  (Inl (Err (''announce to '' @ target @ '' returned HTTP '' @ show_int (StatusCode resp))),
                   [(target, client)])
                else (Inr (), [(target, client)]))))"

fun post_to_first :: "'a netlib_scheme \<Rightarrow> http_Post \<Rightarrow> string \<Rightarrow> goerr \<Rightarrow> string list \<Rightarrow>
    unit res \<times> (string \<times> tls_config) list" where
  "post_to_first L Post payload lastErr [] =
    (Inl (wrap ''transport: announce failed on every URL, last error'' lastErr), [])"
| "post_to_first L Post payload lastErr (u # us) =
    (case postAnnounce L Post u payload of
       (Inr _, reqs) \<Rightarrow> (Inr (), reqs)
     | (Inl e, reqs) \<Rightarrow> (case post_to_first L Post payload e us of (r, reqs') \<Rightarrow> (r, reqs @ reqs')))"

definition announceOnce ::
    "'a netlib_scheme \<Rightarrow> http_Post \<Rightarrow> relay_settings \<Rightarrow> string list \<Rightarrow> unit res \<times> (string \<times> tls_config) list" where
  "announceOnce L Post t addresses =
    (if addresses = [] then (Inr (), [])
     else post_to_first L Post (announce_payload addresses) (Err ''%!w(<nil>)'') (announceURLs t))"

definition defaultAnnounceInterval :: duration where "defaultAnnounceInterval = 2 * Second"
definition defaultAnnounceRefresh :: duration where "defaultAnnounceRefresh = Minute"

definition announceInterval :: "duration \<Rightarrow> duration" where
  "announceInterval configured = (if configured > 0 then configured else defaultAnnounceInterval)"

definition announceRefresh :: "duration \<Rightarrow> duration" where
  "announceRefresh configured = (if configured \<noteq> 0 then configured else defaultAnnounceRefresh)"

definition sameAddresses :: "string list \<Rightarrow> string list \<Rightarrow> bool" where
  "sameAddresses a b \<longleftrightarrow> a = b"

text \<open>
  The loop's memory and one turn of it: the addresses there are, the time, how each POST of the turn
  would be answered, and the time after it.  \<open>lastAt\<close> is \<open>None\<close> for the zero time, which is further
  back than any refresh.  A step also returns the requests that were made.
\<close>

record announced =
  lastAnnounced :: "string list"
  lastAt :: "int option"

record announce_turn =
  atAddrs :: "string list"
  atNow :: int
  atPost :: http_Post
  atAfter :: int

type_synonym requests = "(string \<times> tls_config) list"

definition announce_due :: "duration \<Rightarrow> announced \<Rightarrow> announce_turn \<Rightarrow> bool" where
  "announce_due refresh a t \<longleftrightarrow>
    atAddrs t \<noteq> [] \<and>
    (\<not> sameAddresses (atAddrs t) (lastAnnounced a) \<or>
     (case lastAt a of None \<Rightarrow> True | Some l \<Rightarrow> time_Sub (atNow t) l \<ge> refresh))"

definition announce_step ::
    "'a netlib_scheme \<Rightarrow> relay_settings \<Rightarrow> duration \<Rightarrow> announced \<Rightarrow> announce_turn \<Rightarrow> announced \<times> requests" where
  "announce_step L s refresh a t =
    (if announce_due refresh a t then
       (case announceOnce L (atPost t) s (atAddrs t) of
          (Inl _, reqs) \<Rightarrow> (a, reqs)
        | (Inr _, reqs) \<Rightarrow> (\<lparr>lastAnnounced = atAddrs t, lastAt = Some (atAfter t)\<rparr>, reqs))
     else (a, []))"

fun announce_turns ::
    "'a netlib_scheme \<Rightarrow> relay_settings \<Rightarrow> duration \<Rightarrow> announced \<Rightarrow> announce_turn list \<Rightarrow>
      announced \<times> requests list" where
  "announce_turns L s refresh a [] = (a, [])"
| "announce_turns L s refresh a (t # ts) =
    (case announce_step L s refresh a t of
       (a', reqs) \<Rightarrow>
         (case announce_turns L s refresh a' ts of (a'', rest) \<Rightarrow> (a'', reqs # rest)))"

definition announceLoop ::
    "'a netlib_scheme \<Rightarrow> relay_settings \<Rightarrow> duration \<Rightarrow> announce_turn list \<Rightarrow> announced \<times> requests list" where
  "announceLoop L s refresh turns = announce_turns L s refresh \<lparr>lastAnnounced = [], lastAt = None\<rparr> turns"

text \<open>
  The discovery server is not part of the program.  What is relied on is its documented behaviour:
  a POST of addresses that it answers with 204 is on record, seen no earlier than it was made, and
  otherwise a record does not get older.  \<open>serves r turns r'\<close> says that a server that has the record
  \<open>r\<close> of the machine before these turns, each with the requests made in it, has \<open>r'\<close> after them.
\<close>

definition took :: "announce_turn \<Rightarrow> requests \<Rightarrow> bool" where
  "took t reqs \<longleftrightarrow>
    (\<exists>(target, client) \<in> set reqs. case atPost t target client (announce_payload (atAddrs t)) of
       Inl _ \<Rightarrow> False | Inr resp \<Rightarrow> StatusCode resp = 204)"

definition seen_since :: "discovery_record option \<Rightarrow> int \<Rightarrow> bool" where
  "seen_since r earliest \<longleftrightarrow> (\<exists>rec l. r = Some rec \<and> Seen rec = Some l \<and> earliest \<le> l)"

inductive serves ::
    "discovery_record option \<Rightarrow> (announce_turn \<times> requests) list \<Rightarrow> discovery_record option \<Rightarrow> bool" where
  served_all: "serves r [] r"
| served_took: "\<lbrakk>took t reqs; seen_since r' (atNow t); serves r' turns r''\<rbrakk> \<Longrightarrow>
    serves r ((t, reqs) # turns) r''"
| served_kept: "\<lbrakk>\<not> took t reqs; \<forall>l. seen_since r l \<longrightarrow> seen_since r' l; serves r' turns r''\<rbrakk> \<Longrightarrow>
    serves r ((t, reqs) # turns) r''"

inductive_simps serves_cons: "serves r ((t, reqs) # turns) r''"
inductive_simps serves_nil: "serves r [] r''"

section \<open>Losing the relay\<close>

definition defaultRelayLossGrace :: duration where "defaultRelayLossGrace = 30 * Second"

definition relayLossGrace :: "duration \<Rightarrow> duration" where
  "relayLossGrace configured = (if configured \<noteq> 0 then configured else defaultRelayLossGrace)"

text \<open>
  One look at the relay client: its error, whether it has a relay, the time (read twice), and
  whether the context was done before the next look.  The result is \<open>None\<close> while it is watching.
\<close>

record loss_look =
  llErr :: "goerr option"
  llURI :: bool
  llNow :: int
  llSince :: int
  llCtxDone :: bool

fun watchRelayLoss :: "duration \<Rightarrow> int option \<Rightarrow> loss_look list \<Rightarrow> unit res option" where
  "watchRelayLoss grace lostSince [] = None"
| "watchRelayLoss grace lostSince (l # ls) =
    (case llErr l of
       Some e \<Rightarrow> Some (Inl (wrap ''relay client stopped'' e))
     | None \<Rightarrow>
         (let since = (if llURI l then None
                       else Some (case lostSince of None \<Rightarrow> llNow l | Some t \<Rightarrow> t)) in
          if \<not> llURI l \<and> time_Sub (llSince l) (the since) \<ge> grace then
            Some (Inl (Err (''no relay for '' @ duration_string grace)))
          else if llCtxDone l then Some (Inr ())
          else watchRelayLoss grace since ls))"

section \<open>Listening through a relay\<close>

text \<open>
  The looks at a relay client that has not joined yet, and what then comes first.  The result
  says whether the announce loop was started and how often \<open>cleanup\<close> was run.
\<close>

record join_look =
  jlURI :: bool
  jlErr :: "goerr option"
  jlCtxErr :: "goerr option"

datatype 'r listen_event = RelayLost goerr | Invited "'r res" | InvitationsClosed | ListenCtxDone goerr

fun wait_for_relay :: "join_look list \<Rightarrow> unit res option" where
  "wait_for_relay [] = None"
| "wait_for_relay (l # ls) =
    (if jlURI l then Some (Inr ())
     else
       (case jlErr l of
          Some e \<Rightarrow> Some (Inl (wrap ''transport: relay client'' e))
        | None \<Rightarrow>
            (case jlCtxErr l of
               Some e \<Rightarrow> Some (Inl (wrap ''transport: waiting for relay connection'' e))
             | None \<Rightarrow> wait_for_relay ls)))"

record 'r listen_result =
  lrRaw :: "'r res"
  lrAnnouncing :: bool
  lrCleanups :: nat

definition after_joining :: "'r listen_event \<Rightarrow> 'r listen_result" where
  "after_joining ev =
    (case ev of
       RelayLost e \<Rightarrow> \<lparr>lrRaw = Inl (wrap ''transport'' e), lrAnnouncing = True, lrCleanups = 1\<rparr>
     | InvitationsClosed \<Rightarrow>
         \<lparr>lrRaw = Inl (Err ''transport: relay invitations channel closed''), lrAnnouncing = True, lrCleanups = 1\<rparr>
     | Invited (Inl e) \<Rightarrow> \<lparr>lrRaw = Inl e, lrAnnouncing = True, lrCleanups = 1\<rparr>
     | Invited (Inr raw) \<Rightarrow> \<lparr>lrRaw = Inr raw, lrAnnouncing = True, lrCleanups = 0\<rparr>
     | ListenCtxDone e \<Rightarrow>
         \<lparr>lrRaw = Inl (wrap ''transport: waiting for a session invitation'' e), lrAnnouncing = True, lrCleanups = 1\<rparr>)"

definition listenRelay ::
    "'a netlib_scheme \<Rightarrow> (url \<Rightarrow> unit res) \<Rightarrow> relay_settings \<Rightarrow> join_look list \<Rightarrow> 'r listen_event \<Rightarrow>
      'r listen_result option" where
  "listenRelay L NewClient t looks ev =
    (let none = (\<lambda>e. Some \<lparr>lrRaw = Inl e, lrAnnouncing = False, lrCleanups = 0\<rparr>) in
     case url_Parse L (relayPoolURL t) of
       Inl e \<Rightarrow> none (wrap ''transport: invalid relay pool URL'' e)
     | Inr u \<Rightarrow>
    (case (if HasPrefix (Scheme u) ''dynamic+'' then Inr () else NewClient u) of
       Inl e \<Rightarrow> none (wrap ''transport: creating relay client'' e)
     | Inr _ \<Rightarrow>
    (case wait_for_relay looks of
       None \<Rightarrow> None
     | Some (Inl e) \<Rightarrow> Some \<lparr>lrRaw = Inl e, lrAnnouncing = False, lrCleanups = 1\<rparr>
     | Some (Inr _) \<Rightarrow> Some (after_joining ev))))"

text \<open>
  \<open>Listen\<close>, with how often the cleanup of a relay listener was run: by \<open>listenRelay\<close> itself when it
  fails, by the handshake when that does, and not at all when the connection carries it.
\<close>

definition relay_Listen ::
    "'a netlib_scheme \<Rightarrow> (url \<Rightarrow> unit res) \<Rightarrow> relay_settings \<Rightarrow> (string \<Rightarrow> 'r accepted res) \<Rightarrow> join_look list \<Rightarrow>
      'r listen_event \<Rightarrow> 'r handshake \<Rightarrow> listen_options \<Rightarrow> (('r \<times> string) res \<times> nat) option" where
  "relay_Listen L NewClient t listen looks ev hs opts =
    (if loDirectAddr opts \<noteq> [] then
       (case listenDirect listen (loDirectAddr opts) of
          Inl e \<Rightarrow> Some (Inl e, 0)
        | Inr raw \<Rightarrow> Some (fst (doServerHandshake hs raw (AuthorizedPeers opts)), 0))
     else
       (case listenRelay L NewClient t looks ev of
          None \<Rightarrow> None
        | Some lr \<Rightarrow>
            (case lrRaw lr of
               Inl e \<Rightarrow> Some (Inl e, lrCleanups lr)
             | Inr raw \<Rightarrow>
                 (case doServerHandshake hs raw (AuthorizedPeers opts) of
                    (r, _, onCloseRun) \<Rightarrow> Some (r, lrCleanups lr + (if onCloseRun then 1 else 0))))))"

section \<open>Lemmas\<close>

lemma doServerHandshake_Inr:
  "fst (doServerHandshake hs raw peers) = Inr (c, p) \<Longrightarrow>
    c = raw \<and> (\<exists>more. hs raw = Inr (p # more)) \<and> (peers \<noteq> [] \<longrightarrow> p \<in> set peers)"
  by (auto simp: doServerHandshake_def containsDeviceID_def split: sum.splits list.splits if_splits)

lemma doClientHandshake_Inr:
  "fst (doClientHandshake hs raw peer) = Inr (c, p) \<Longrightarrow>
    c = raw \<and> (\<exists>more. hs raw = Inr (p # more)) \<and> (peer \<noteq> [] \<longrightarrow> p = peer)"
  by (auto simp: doClientHandshake_def split: sum.splits list.splits if_splits)

text \<open>A handshake that fails closes its connection and gives up its registration, one that succeeds neither.\<close>

lemma doServerHandshake_closes:
  "doServerHandshake hs raw peers = (r, shut, gaveUp) \<Longrightarrow> shut = (\<not> is_ok r) \<and> gaveUp = shut"
  by (auto simp: doServerHandshake_def split: sum.splits list.splits if_splits)

lemma mset_successes_append: "successes (xs @ ys) = successes xs @ successes ys"
  by (induction xs rule: successes.induct) simp_all

lemma successes_mset: "mset xs = mset ys \<Longrightarrow> mset (successes xs) = mset (successes ys)"
proof -
  have s: "successes zs = map projr (filter is_ok zs)" for zs :: "'a res list"
    by (induction zs rule: successes.induct) simp_all
  assume "mset xs = mset ys"
  then show ?thesis unfolding s by (metis mset_filter mset_map)
qed

lemma receive_first_splits:
  "receive_first errs rs = (r, late) \<Longrightarrow>
    (case r of Inr c \<Rightarrow> successes rs = c # late | Inl e \<Rightarrow> successes rs = [] \<and> late = [])"
  by (induction errs rs rule: receive_first.induct) (auto split: sum.splits)

text \<open>Of all the sessions the announced relays give, exactly the one returned stays open.\<close>

lemma raceRelayAddresses_sessions:
  assumes "mset order = mset [0..<length addrs]"
    and "raceRelayAddresses L join order addrs = (r, late)"
  shows "case r of
      Inr c \<Rightarrow> mset (successes (relay_attempts L join addrs)) = add_mset c (mset late)
    | Inl e \<Rightarrow> successes (relay_attempts L join addrs) = []"
proof -
  let ?rs = "relay_attempts L join addrs" let ?as = "map (\<lambda>i. ?rs ! i) order"
  have "length ?rs = length addrs" by (simp add: relay_attempts_def)
  then have "mset ?as = mset ?rs"
    using assms(1) by (metis map_nth mset_map)
  from successes_mset [OF this] receive_first_splits [OF assms(2) [unfolded raceRelayAddresses_def]]
  show ?thesis by (auto split: sum.splits)
qed

text \<open>Requests go out over https only, and to the server the URL names.\<close>

lemma postAnnounce_requests:
  assumes "(target, client) \<in> set (snd (postAnnounce L Post a payload))"
  shows "\<exists>u opts. parseDiscoveryURL L a = Inr (target, opts) \<and> url_Parse L target = Inr u \<and> Scheme u = ''https'' \<and>
    (hasID opts \<longrightarrow> (\<forall>caSigned certs. tls_accepts client caSigned certs \<longrightarrow> certs \<noteq> [] \<and> hd certs = doID opts))"
proof -
  have pinned: "certs \<noteq> [] \<and> hd certs = doID opts"
    if "hasID opts" "tls_accepts (newPinnedAnnounceHTTPClient opts) caSigned certs" for opts caSigned certs
    using that by (cases certs) (auto simp: newPinnedAnnounceHTTPClient_def applyTrust_def tls_accepts_def split: if_splits)
  obtain t opts where p: "parseDiscoveryURL L a = Inr (t, opts)"
    using assms by (cases "parseDiscoveryURL L a") (auto simp: postAnnounce_def)
  obtain u where u: "url_Parse L t = Inr u" "Scheme u = ''https''"
    using assms p by (auto simp: postAnnounce_def split: sum.splits if_splits)
  have "target = t" "hasID opts \<longrightarrow> client = newPinnedAnnounceHTTPClient opts"
    using assms p u by (auto simp: postAnnounce_def Let_def split: sum.splits if_splits)
  with p u pinned show ?thesis by auto
qed

text \<open>The waits of a dial.\<close>

definition least_wait :: "nat \<Rightarrow> duration" where
  "least_wait k = (if k < 4 then [2400, 4000, 6400, 9600] ! k * Millisecond else 12 * Second)"

lemma dialRetryDelay_bounds:
  assumes "0 \<le> r" "r < 1"
  shows "least_wait k \<le> dialRetryDelay k r \<and> dialRetryDelay k r \<le> 15 * Second"
proof -
  let ?b = "if k < length dialRetrySchedule then dialRetrySchedule ! k else dialRetryMax"
  have b: "least_wait k \<le> dialRetryMax" "rat_of_int (least_wait k) = rat_of_int ?b * (4 / 5)" "0 \<le> ?b"
    by (auto simp: least_wait_def dialRetrySchedule_def dialRetryMax_def less_Suc_eq numeral_eq_Suc)
  have "rat_of_int ?b * (4 / 5) \<le> rat_of_int ?b * (1 + dialRetryJitter * (2 * r - 1))"
    using b(3) assms(1) by (intro mult_left_mono) (simp_all add: dialRetryJitter_def field_simps)
  then have "least_wait k \<le> \<lfloor>rat_of_int ?b * (1 + dialRetryJitter * (2 * r - 1))\<rfloor>"
    unfolding le_floor_iff b(2) .
  with b(1) show ?thesis by (simp add: dialRetryDelay_def Let_def dialRetryMax_def)
qed

lemma round_wait_bounds:
  assumes "0 \<le> drJitter r" "drJitter r < 1"
  shows "least_wait k \<le> round_wait k e r" "round_wait k e r \<le> 60 * Second"
    "as_rate_limited e = Some d \<Longrightarrow>
      boundedRetryAfter d (case drRemaining r of None \<Rightarrow> -1 | Some x \<Rightarrow> x) \<le> round_wait k e r"
proof -
  have "boundedRetryAfter d x \<le> 60 * Second" for d x
    by (auto simp: boundedRetryAfter_def dialRetryAfterMax_def Let_def)
  moreover note dialRetryDelay_bounds [OF assms, of k]
  ultimately show "least_wait k \<le> round_wait k e r" "round_wait k e r \<le> 60 * Second"
    "as_rate_limited e = Some d \<Longrightarrow>
      boundedRetryAfter d (case drRemaining r of None \<Rightarrow> -1 | Some x \<Rightarrow> x) \<le> round_wait k e r"
    by (auto simp: round_wait_def Let_def split: option.splits intro: order_trans)
qed

text \<open>What the loop gets from an attempt, and the result and the waits of the loop.\<close>

abbreviation round_result ::
    "'a netlib_scheme \<Rightarrow> string \<Rightarrow> string \<Rightarrow> 'r dial_round \<Rightarrow> ('r \<times> string) res" where
  "round_result L discURL peerID r \<equiv> fst (dialRelayAttempt L (drEnv r) (drHandshake r) discURL peerID)"

lemma dialRelay_waits:
  assumes "dialRelay L url peer n rounds = (res, waits, ps)" and "k < length waits"
  shows "k < length rounds \<and>
    (\<exists>e. round_result L url peer (rounds ! k) = Inl e \<and> waits ! k = round_wait (n + k) e (rounds ! k))"
  using assms
proof (induction rounds arbitrary: n res waits ps k)
  case (Cons r rs)
  obtain out phases where at_once: "dialRelayAttempt L (drEnv r) (drHandshake r) url peer = (out, phases)" by fastforce
  show ?case
  proof (cases out)
    case (Inl e)
    show ?thesis
    proof (cases "drSleepErr r")
      case None
      obtain res' ws ps' where rec: "dialRelay L url peer (Suc n) rs = (res', ws, ps')" by (cases rule: prod_cases3)
      with Cons.prems(1) Inl None at_once have w: "waits = round_wait n e r # ws" by (simp add: Let_def)
      show ?thesis
      proof (cases k)
        case 0
        with Inl w at_once show ?thesis by simp
      next
        case (Suc j)
        with Cons.IH [OF rec, of j] Cons.prems(2) w show ?thesis by simp
      qed
    next
      case (Some x)
      with Cons.prems Inl at_once show ?thesis by (auto simp: Let_def)
    qed
  next
    case (Inr c)
    with Cons.prems at_once show ?thesis by simp
  qed
qed simp

lemma dialRelay_result:
  assumes "dialRelay L url peer n rounds = (Some (Inr c), waits, ps)"
  shows "\<exists>r \<in> set rounds. round_result L url peer r = Inr c"
  using assms
  by (induction rounds arbitrary: n waits ps) (auto simp: Let_def split: prod.splits sum.splits option.splits)

lemma dialTCPRetrying_result: "dialTCPRetrying addr tries = Some (Inr c) \<Longrightarrow> Inr c \<in> fst ` set tries"
  by (induction addr tries rule: dialTCPRetrying.induct) force+

lemma dialRelayAttempt_result:
  assumes "fst (dialRelayAttempt L E hs url peer) = Inr (raw, p)"
  shows "(\<exists>route. fst (dialRelayOnce L E url peer) = Inr (raw, route)) \<and> (\<exists>more. hs raw = Inr (p # more)) \<and>
    (peer \<noteq> [] \<longrightarrow> p = peer)"
proof -
  obtain c route ps where o': "dialRelayOnce L E url peer = (Inr (c, route), ps)"
    "fst (doClientHandshake hs c peer) = Inr (raw, p)"
    using assms by (auto simp: dialRelayAttempt_def split: prod.splits sum.splits)
  from doClientHandshake_Inr [OF o'(2)] o'(1) show ?thesis by auto
qed

text \<open>A listen that fails after its relay client was made has cleaned up once, one that succeeds not yet.\<close>

lemma relay_Listen_cleans_up:
  assumes "relay_Listen L NewClient t listen looks ev hs opts = Some (r, n)"
    and "listenRelay L NewClient t looks ev = Some lr" and "lrAnnouncing lr" and "loDirectAddr opts = []"
  shows "n = (if is_ok r then 0 else 1)"
proof -
  have n: "lrCleanups lr = (if is_ok (lrRaw lr) then 0 else 1)"
    using assms(2,3)
    by (auto simp: listenRelay_def after_joining_def Let_def split: sum.splits if_splits option.splits listen_event.splits)
  show ?thesis
  proof (cases "lrRaw lr")
    case (Inl e)
    with assms(1,2,4) n show ?thesis by (auto simp: relay_Listen_def)
  next
    case (Inr raw)
    obtain r1 shut gave where h: "doServerHandshake hs raw (AuthorizedPeers opts) = (r1, shut, gave)"
      by (cases rule: prod_cases3)
    with Inr assms(1,2,4) n doServerHandshake_closes [OF h] show ?thesis by (auto simp: relay_Listen_def)
  qed
qed

text \<open>An announcement is on record exactly if it counts as made.\<close>

abbreviation says_204 :: "http_Post \<Rightarrow> string \<Rightarrow> string \<times> tls_config \<Rightarrow> bool" where
  "says_204 Post payload q \<equiv>
    (case Post (fst q) (snd q) payload of Inl _ \<Rightarrow> False | Inr resp \<Rightarrow> StatusCode resp = 204)"

lemma postAnnounce_took:
  "postAnnounce L Post u payload = (r, reqs) \<Longrightarrow> r = Inr () \<longleftrightarrow> (\<exists>q \<in> set reqs. says_204 Post payload q)"
  by (auto simp: postAnnounce_def Let_def split: sum.splits if_splits prod.splits)

lemma post_to_first_took:
  "post_to_first L Post payload e us = (r, reqs) \<Longrightarrow> r = Inr () \<longleftrightarrow> (\<exists>q \<in> set reqs. says_204 Post payload q)"
proof (induction us arbitrary: e r reqs)
  case (Cons u us)
  obtain r1 q1 where p: "postAnnounce L Post u payload = (r1, q1)" by fastforce
  note took1 = postAnnounce_took [OF p]
  show ?case
  proof (cases r1)
    case (Inr x)
    with Cons.prems p have "r = Inr ()" "reqs = q1" by auto
    with took1 Inr show ?thesis by simp
  next
    case (Inl e1)
    obtain r2 q2 where q: "post_to_first L Post payload e1 us = (r2, q2)" by fastforce
    with Cons.prems p Inl have e: "r = r2" "reqs = q1 @ q2" by auto
    have "\<not> (\<exists>x \<in> set q1. says_204 Post payload x)" using took1 Inl by blast
    then show ?thesis using Cons.IH [OF q] unfolding e set_append by blast
  qed
qed simp

lemma announceOnce_took:
  assumes "announceOnce L (atPost t) s (atAddrs t) = (r, reqs)" and "atAddrs t \<noteq> []"
  shows "r = Inr () \<longleftrightarrow> took t reqs"
  using post_to_first_took [OF assms(1) [unfolded announceOnce_def if_not_P [OF assms(2)]]]
  by (simp add: took_def case_prod_beta)

lemma announce_step_took:
  assumes "announce_step L s refresh a t = (a', reqs)"
  shows "a' = (if took t reqs then \<lparr>lastAnnounced = atAddrs t, lastAt = Some (atAfter t)\<rparr> else a)"
proof (cases "announce_due refresh a t")
  case True
  then have ne: "atAddrs t \<noteq> []" by (simp add: announce_due_def)
  obtain r q where "announceOnce L (atPost t) s (atAddrs t) = (r, q)" by fastforce
  with assms True announceOnce_took [OF this ne] show ?thesis
    by (auto simp: announce_step_def split: sum.splits)
next
  case False
  with assms show ?thesis by (simp add: announce_step_def took_def)
qed

text \<open>What the loop remembers is on record, but for the time \<open>d\<close> an announcement takes.\<close>

definition on_record :: "duration \<Rightarrow> announced \<Rightarrow> discovery_record option \<Rightarrow> bool" where
  "on_record d a r \<longleftrightarrow> (\<forall>l. lastAt a = Some l \<longrightarrow> seen_since r (l - d))"

lemma seen_since_le: "seen_since r l \<Longrightarrow> l' \<le> l \<Longrightarrow> seen_since r l'"
  by (auto simp: seen_since_def)

lemma announce_turns_append:
  "announce_turns L s refresh a (ts @ us) =
    (case announce_turns L s refresh a ts of (a', reqs) \<Rightarrow>
       (case announce_turns L s refresh a' us of (a'', reqs') \<Rightarrow> (a'', reqs @ reqs')))"
  by (induction ts arbitrary: a) (auto split: prod.splits)

lemma announce_turns_length: "announce_turns L s refresh a ts = (a', reqs) \<Longrightarrow> length reqs = length ts"
  by (induction ts arbitrary: a a' reqs) (auto split: prod.splits)

lemma serves_single: "serves r [(t, reqs)] r' \<longleftrightarrow>
    (if took t reqs then seen_since r' (atNow t) else \<forall>l. seen_since r l \<longrightarrow> seen_since r' l)"
  by (auto simp: serves_cons serves_nil)

lemma serves_append: "serves r (xs @ ys) r'' \<Longrightarrow> \<exists>r'. serves r xs r' \<and> serves r' ys r''"
proof (induction xs arbitrary: r)
  case (Cons x xs)
  obtain t reqs where x: "x = (t, reqs)" by fastforce
  from Cons.prems obtain r1 where "serves r [(t, reqs)] r1" "serves r1 (xs @ ys) r''"
    by (auto simp: x serves_cons serves_nil)
  moreover from this(2) obtain r' where "serves r1 xs r'" "serves r' ys r''" using Cons.IH by blast
  ultimately show ?case by (auto simp: x serves_cons serves_nil)
qed (auto simp: serves_nil)

lemma on_record_step:
  assumes "announce_step L s refresh a t = (a', reqs)" and "serves r [(t, reqs)] r'"
    and "atAfter t - atNow t \<le> d" and "on_record d a r"
  shows "on_record d a' r'"
  using assms(2-4) unfolding announce_step_took [OF assms(1)] serves_single
  by (auto simp: on_record_def intro: seen_since_le split: if_splits)

lemma on_record_turns:
  assumes "announce_turns L s refresh a ts = (a', reqs)" and "serves r (zip ts reqs) r'"
    and "\<forall>t \<in> set ts. atAfter t - atNow t \<le> d" and "on_record d a r"
  shows "on_record d a' r'"
  using assms
proof (induction ts arbitrary: a r reqs)
  case Nil
  then show ?case by (simp add: serves_nil)
next
  case (Cons t ts)
  obtain a1 q where st: "announce_step L s refresh a t = (a1, q)" by fastforce
  obtain qs where tl: "announce_turns L s refresh a1 ts = (a', qs)" "reqs = q # qs"
    using Cons.prems(1) st by (auto split: prod.splits)
  from serves_append [of r "[(t, q)]" "zip ts qs" r'] Cons.prems(2) tl(2) obtain r1 where
    r1: "serves r [(t, q)] r1" "serves r1 (zip ts qs) r'" by auto
  have "on_record d a1 r1" using on_record_step [OF st r1(1)] Cons.prems(3,4) by simp
  from Cons.IH [OF tl(1) r1(2) _ this] Cons.prems(3) show ?case by simp
qed

lemma serves_later:
  assumes "serves r turns r'" and "\<forall>(u, reqs) \<in> set turns. from \<le> atNow u" and "seen_since r from"
  shows "seen_since r' from"
  using assms by (induction rule: serves.induct) (auto intro: seen_since_le)

section \<open>Properties\<close>

text \<open>
  C24. Whoever is at the other end of a connection has proved the identity the caller asked for.
  Listening returns only a peer whose own certificate is one of the authorized, when any are named.
  A dial returns only the machine it names, whose certificate was seen in a handshake on the very
  connection it returns: one that the direct address gave, or, in some round, what discovery and
  the relays gave for that machine.
\<close>

theorem connections_are_pinned:
  "(relay_Listen L NewClient t listen looks ev hs opts = Some (Inr (raw, p), n) \<longrightarrow>
      (\<exists>more. hs raw = Inr (p # more)) \<and> (AuthorizedPeers opts \<noteq> [] \<longrightarrow> p \<in> set (AuthorizedPeers opts))) \<and>
   (fst (relay_Dial L t direct hs rounds dopts) = Some (Inr (raw', p')) \<longrightarrow>
      p' = doPeerID dopts \<and> p' \<noteq> [] \<and>
      (if doDirectAddr dopts \<noteq> [] then Inr raw' \<in> fst ` set direct \<and> (\<exists>more. hs raw' = Inr (p' # more))
       else \<exists>r \<in> set rounds. (\<exists>more. drHandshake r raw' = Inr (p' # more)) \<and>
         (\<exists>route. fst (dialRelayOnce L (drEnv r) (discoveryURL L t) p') = Inr (raw', route))))"
proof (rule conjI; rule impI)
  assume l: "relay_Listen L NewClient t listen looks ev hs opts = Some (Inr (raw, p), n)"
  then obtain c where "fst (doServerHandshake hs c (AuthorizedPeers opts)) = Inr (raw, p)"
    by (auto simp: relay_Listen_def split: if_splits sum.splits option.splits prod.splits) (metis fst_conv)+
  from doServerHandshake_Inr [OF this]
  show "(\<exists>more. hs raw = Inr (p # more)) \<and> (AuthorizedPeers opts \<noteq> [] \<longrightarrow> p \<in> set (AuthorizedPeers opts))" by auto
next
  assume d: "fst (relay_Dial L t direct hs rounds dopts) = Some (Inr (raw', p'))"
  then have ne: "doPeerID dopts \<noteq> []" by (auto simp: relay_Dial_def split: if_splits)
  show "p' = doPeerID dopts \<and> p' \<noteq> [] \<and>
      (if doDirectAddr dopts \<noteq> [] then Inr raw' \<in> fst ` set direct \<and> (\<exists>more. hs raw' = Inr (p' # more))
       else \<exists>r \<in> set rounds. (\<exists>more. drHandshake r raw' = Inr (p' # more)) \<and>
         (\<exists>route. fst (dialRelayOnce L (drEnv r) (discoveryURL L t) p') = Inr (raw', route)))"
  proof (cases "doDirectAddr dopts = []")
    case False
    with d ne obtain c where c: "dialTCPRetrying (doDirectAddr dopts) direct = Some (Inr c)"
      "fst (doClientHandshake hs c (doPeerID dopts)) = Inr (raw', p')"
      by (auto simp: relay_Dial_def split: option.splits sum.splits)
    from doClientHandshake_Inr [OF c(2)] dialTCPRetrying_result [OF c(1)] False ne show ?thesis by auto
  next
    case True
    obtain waits ps where "dialRelay L (discoveryURL L t) (doPeerID dopts) 0 rounds = (Some (Inr (raw', p')), waits, ps)"
      using d ne True by (auto simp: relay_Dial_def split: prod.splits)
    from dialRelay_result [OF this] obtain r where
      r: "r \<in> set rounds" "round_result L (discoveryURL L t) (doPeerID dopts) r = Inr (raw', p')" by blast
    from dialRelayAttempt_result [OF r(2)] r(1) ne True show ?thesis by auto
  qed
qed

text \<open>
  A dial asks discovery sparingly, whatever the jitter: at most ten lookups in 90 seconds; and
  as told: after an answer that asked to wait, at least that long, up to a minute and to the end of
  the dial.  No single wait is longer than a minute.
\<close>

theorem dial_asks_sparingly:
  assumes "\<forall>r \<in> set rounds. 0 \<le> drJitter r \<and> drJitter r < 1"
    and "dialRelay L url peer 0 rounds = (res, waits, ps)"
  shows "(sum_list waits \<le> 90 * Second \<longrightarrow> length waits \<le> 9) \<and>
    (\<forall>k < length waits. waits ! k \<le> 60 * Second \<and>
      (\<exists>e. round_result L url peer (rounds ! k) = Inl e \<and>
        (\<forall>d. as_rate_limited e = Some d \<longrightarrow>
          boundedRetryAfter d (case drRemaining (rounds ! k) of None \<Rightarrow> -1 | Some x \<Rightarrow> x) \<le> waits ! k)))"
proof (intro conjI)
  have w: "least_wait k \<le> waits ! k \<and> waits ! k \<le> 60 * Second \<and>
      (\<exists>e. round_result L url peer (rounds ! k) = Inl e \<and> (\<forall>d. as_rate_limited e = Some d \<longrightarrow>
        boundedRetryAfter d (case drRemaining (rounds ! k) of None \<Rightarrow> -1 | Some x \<Rightarrow> x) \<le> waits ! k))"
    if k: "k < length waits" for k
  proof -
    from dialRelay_waits [OF assms(2) k] obtain e where e: "k < length rounds"
      "round_result L url peer (rounds ! k) = Inl e" "waits ! k = round_wait k e (rounds ! k)" by auto
    then have "0 \<le> drJitter (rounds ! k)" "drJitter (rounds ! k) < 1" using assms(1) by simp_all
    from round_wait_bounds [OF this] e show ?thesis by auto
  qed
  then show "\<forall>k < length waits. waits ! k \<le> 60 * Second \<and>
      (\<exists>e. round_result L url peer (rounds ! k) = Inl e \<and>
        (\<forall>d. as_rate_limited e = Some d \<longrightarrow>
          boundedRetryAfter d (case drRemaining (rounds ! k) of None \<Rightarrow> -1 | Some x \<Rightarrow> x) \<le> waits ! k))" by blast
  show "sum_list waits \<le> 90 * Second \<longrightarrow> length waits \<le> 9"
  proof (rule impI, rule ccontr)
    assume s: "sum_list waits \<le> 90 * Second" and "\<not> length waits \<le> 9"
    then have len: "10 \<le> length waits" by simp
    have pos: "0 \<le> least_wait k" for k
      by (auto simp: least_wait_def less_Suc_eq numeral_eq_Suc)
    have "(\<Sum>k<10. least_wait k) \<le> (\<Sum>k<10. waits ! k)"
      using w len by (intro sum_mono) auto
    also have "\<dots> \<le> (\<Sum>k<length waits. waits ! k)"
      using len w pos by (intro sum_mono2) (auto intro: order_trans)
    also have "\<dots> = sum_list waits" by (simp add: sum_list_sum_nth atLeast0LessThan)
    finally have "(\<Sum>k<10. least_wait k) \<le> 90 * Second" using s by simp
    moreover have "(\<Sum>k<10. least_wait k) = 94400 * Millisecond"
      by (simp add: least_wait_def numeral_eq_Suc)
    ultimately show False by simp
  qed
qed

text \<open>
  C25. A machine at its prompt shows as waiting.  Take any turn of the announce loop at which the
  machine has an address and discovery would accept an announcement.  Whatever was announced, or
  failed, before and whatever fails after it, the record that discovery then has of the machine
  still counts as waiting 90 seconds later, less the time an announcement may take: a failed
  announcement is made again at the next turn, and a record is renewed before it is stale.
\<close>

theorem announcing_machine_is_waiting:
  assumes "announceLoop L s defaultAnnounceRefresh (ts @ t # us) = (a, reqs)"
    and "serves before (zip (ts @ t # us) reqs) after"
    and "atAddrs t \<noteq> []" and "fst (announceOnce L (atPost t) s (atAddrs t)) = Inr ()"
    and "\<forall>u \<in> set (ts @ [t]). atAfter u - atNow u \<le> d" and "\<forall>u \<in> set us. atNow t \<le> atNow u"
    and "0 \<le> d" and "now - atNow t \<le> 90 * Second - d"
  shows "msState (StatusOf after now) = StatusWaiting"
proof -
  obtain a1 q1 where t1: "announce_turns L s defaultAnnounceRefresh \<lparr>lastAnnounced = [], lastAt = None\<rparr> ts = (a1, q1)"
    by fastforce
  obtain a2 q where t2: "announce_step L s defaultAnnounceRefresh a1 t = (a2, q)" by fastforce
  obtain q3 where t3: "announce_turns L s defaultAnnounceRefresh a2 us = (a, q3)" "reqs = q1 @ q # q3"
    using assms(1) t1 t2 unfolding announceLoop_def announce_turns_append by (auto split: prod.splits)
  have "zip (ts @ t # us) reqs = zip ts q1 @ (t, q) # zip us q3"
    using announce_turns_length [OF t1] t3(2) by simp
  from serves_append [OF assms(2) [unfolded this]] obtain r1 where
    s1: "serves before (zip ts q1) r1" "serves r1 ([(t, q)] @ zip us q3) after" by auto
  from serves_append [OF s1(2)] obtain r2 where s2: "serves r1 [(t, q)] r2" "serves r2 (zip us q3) after" by auto
  have o1: "on_record d a1 r1"
    using on_record_turns [OF t1 s1(1)] assms(5) by (simp add: on_record_def)
  have o2: "seen_since r2 (atNow t - 60 * Second - d)"
  proof (cases "announce_due defaultAnnounceRefresh a1 t")
    case True
    with t2 assms(4) have "announceOnce L (atPost t) s (atAddrs t) = (Inr (), q)"
      by (auto simp: announce_step_def split: prod.splits sum.splits)
    from announceOnce_took [OF this assms(3)] have "took t q" by simp
    with s2(1) have "seen_since r2 (atNow t)" by (simp add: serves_single)
    with assms(7) show ?thesis by (auto intro: seen_since_le)
  next
    case False
    with assms(3) obtain l where l: "lastAt a1 = Some l" "atNow t - l \<le> 60 * Second"
      by (auto simp: announce_due_def defaultAnnounceRefresh_def time_Sub_def split: option.splits)
    from False t2 have "\<not> took t q" by (auto simp: announce_step_def took_def)
    moreover have "seen_since r1 (l - d)" using o1 l(1) by (simp add: on_record_def)
    ultimately have "seen_since r2 (l - d)" using s2(1) by (simp add: serves_single)
    with l(2) show ?thesis by (auto intro: seen_since_le)
  qed
  have "\<forall>(u, reqs) \<in> set (zip us q3). atNow t - 60 * Second - d \<le> atNow u"
    using assms(6,7) by (auto dest!: set_zip_leftD)
  from serves_later [OF s2(2) this o2] assms(8) show ?thesis
    by (auto simp: seen_since_def StatusOf_waiting WaitingRecordMaxAge_def)
qed

section \<open>Concrete runs\<close>

definition demo_tcp :: netlib where
  "demo_tcp = demo_net\<lparr>url_Parse := (\<lambda>s. if prefix ''tcp://d'' s
     then Inr \<lparr>Scheme = ''tcp'', User = None, Host = ''d'', RawQuery = [], uRest = []\<rparr>
     else url_Parse demo_net s)\<rparr>"

definition demo_answer :: json where
  "demo_answer = JObj [(''addresses'', JArr [JStr ''tcp://d''])]"

definition demo_env :: "nat dial_env" where
  "demo_env = \<lparr>deDo = (\<lambda>_ _. Inr \<lparr>StatusCode = 200, RetryAfterHeader = [], Body = json_print demo_answer\<rparr>),
     deNow = 0, deDialTCP = (\<lambda>_. Inr 7), deInvitation = (\<lambda>_ _. Inl IoEOF), deJoin = (\<lambda>_. Inl IoEOF),
     deOrder = (\<lambda>n. [0..<n])\<rparr>"

lemma json_decode_parse: "json_parse s = Inr j \<Longrightarrow> json_decode s = Inr j"
  by (auto simp: json_parse_def json_decode_def split: option.splits prod.splits if_splits)

lemma demo_lookup: "lookupRecord demo_tcp (deDo demo_env) 0 ''M'' ''https://d?'' =
    Inr (Some \<lparr>Seen = None, Addresses = [''tcp://d'']\<rparr>)"
proof -
  have "json_wf demo_answer" by (simp add: demo_answer_def valid_utf8_ascii is_ascii_def)
  from json_decode_parse [OF parse_print [OF this]]
  have b: "lookup_body (json_print demo_answer) = Inr ([], [''tcp://d''])"
    by (simp add: lookup_body_def demo_answer_def to_struct_def lookup_put_def to_slice_def match_field_def fold_key.simps)
  have p: "parseDiscoveryURL demo_tcp ''https://d?'' =
      Inr (''https://d?'', \<lparr>doID = [], hasID = False, insecure = False\<rparr>)"
    by (simp add: parseDiscoveryURL_def demo_tcp_def demo_net_def url_Query_def query_nil query_Has_def
        query_Get_def query_Del_def queryBool_def)
  show ?thesis
    unfolding lookupRecord_def p sum.case prod.case
    using b by (simp add: demo_tcp_def demo_net_def demo_env_def Let_def)
qed

text \<open>One round of a dial, and an announcement to a server that accepts it.\<close>

definition demo_settings :: relay_settings where
  "demo_settings = \<lparr>rsRelayPoolURL = [], rsDiscoveryURL = ''https://d?'', rsAnnounceURLs = [''https://d?'']\<rparr>"

definition demo_round :: "nat dial_round" where
  "demo_round = \<lparr>drEnv = demo_env, drHandshake = (\<lambda>_. Inr [''M'']), drJitter = 0,
     drRemaining = Some (30 * Second), drSleepErr = None\<rparr>"

lemma connections_are_pinned_witness:
  "relay_Listen demo_tcp (\<lambda>_. Inr ()) demo_settings (\<lambda>_. Inr (Accepted (Inr (3 :: nat)))) [] InvitationsClosed
      (\<lambda>_. Inr [''M'']) \<lparr>AuthorizedPeers = [''M''], loDirectAddr = ''a''\<rparr> = Some (Inr (3, ''M''), 0) \<and> ''M'' \<in> {''M''} \<and>
   (\<exists>ps route. relay_Dial demo_tcp demo_settings [] (\<lambda>_. Inr [''M'']) [demo_round] \<lparr>doPeerID = ''M'', doDirectAddr = []\<rparr> =
      (Some (Inr (7, ''M'')), ps) \<and> fst (dialRelayOnce demo_tcp demo_env ''https://d?'' ''M'') = Inr (7, route))"
proof -
  let ?o = "\<lparr>AuthorizedPeers = [''M''], loDirectAddr = ''a''\<rparr>" and ?hs = "\<lambda>_ :: nat. Inr [''M'']"
  let ?d = "\<lparr>doPeerID = ''M'', doDirectAddr = []\<rparr>"
  have l: "relay_Listen demo_tcp (\<lambda>_. Inr ()) demo_settings (\<lambda>_. Inr (Accepted (Inr 3))) [] InvitationsClosed ?hs ?o =
      Some (Inr (3, ''M''), 0)"
    by (simp add: relay_Listen_def listenDirect_def acceptWithContext_def doServerHandshake_def containsDeviceID_def)
  have dev: "DeviceIDOf demo_tcp ''M'' = Inr ''M''" by (simp add: demo_tcp_def demo_net_def)
  have dir: "try_direct demo_tcp (deDialTCP demo_env) None [''tcp://d''] = Inl 7"
    by (simp add: demo_tcp_def demo_env_def)
  have now: "deNow demo_env = 0" by (simp add: demo_env_def)
  have url: "discoveryURL demo_tcp demo_settings = ''https://d?''" by (simp add: discoveryURL_def demo_settings_def)
  have "\<exists>ps. dialRelayOnce demo_tcp demo_env ''https://d?'' ''M'' = (Inr (7, RouteDirect), ps)"
    using dir by (simp add: dialRelayOnce_def dev now demo_lookup Let_def)
  then obtain ps where d: "dialRelayAttempt demo_tcp demo_env ?hs ''https://d?'' ''M'' = (Inr (7, ''M''), ps)"
    by (auto simp: dialRelayAttempt_def doClientHandshake_def)
  have rd: "drEnv demo_round = demo_env" "drHandshake demo_round = ?hs" by (simp_all add: demo_round_def)
  have run: "relay_Dial demo_tcp demo_settings [] ?hs [demo_round] ?d = (Some (Inr (7, ''M'')), ps)"
    by (simp add: relay_Dial_def url rd d)
  from connections_are_pinned [where L = demo_tcp and NewClient = "\<lambda>_. Inr ()" and t = demo_settings
      and listen = "\<lambda>_. Inr (Accepted (Inr 3))" and looks = "[]" and ev = InvitationsClosed and hs = ?hs and opts = ?o
      and raw = 3 and p = "''M''" and n = 0 and direct = "[]" and rounds = "[demo_round]" and dopts = ?d
      and raw' = 7 and p' = "''M''"] l run
  show ?thesis by (auto simp: url rd)
qed

lemma dial_asks_sparingly_witness:
  "\<exists>w ps. dialRelay demo_net ''x'' ''M'' 0 [demo_round] = (None, [w], ps) \<and> w \<le> 60 * Second"
proof -
  have none: "drSleepErr demo_round = None" "drJitter demo_round = 0" by (simp_all add: demo_round_def)
  have "\<exists>e ps. dialRelayAttempt demo_net (drEnv demo_round) (drHandshake demo_round) ''x'' ''M'' = (Inl e, ps)"
    by (simp add: dialRelayAttempt_def dialRelayOnce_def lookupRecord_def demo_net_def parseDiscoveryURL_def)
  then obtain w ps where run: "dialRelay demo_net ''x'' ''M'' 0 [demo_round] = (None, [w], ps)"
    by (auto simp: Let_def none)
  from dial_asks_sparingly [OF _ run] none run show ?thesis by auto
qed

definition demo_turn :: announce_turn where
  "demo_turn = \<lparr>atAddrs = [''relay://r''], atNow = 5,
     atPost = (\<lambda>_ _ _. Inr \<lparr>StatusCode = 204, RetryAfterHeader = [], Body = []\<rparr>), atAfter = 6\<rparr>"

lemma announcing_machine_is_waiting_witness:
  "\<exists>a reqs. announceLoop demo_net demo_settings defaultAnnounceRefresh [demo_turn] = (a, reqs) \<and>
    serves None (zip [demo_turn] reqs) (Some \<lparr>Seen = Some 5, Addresses = []\<rparr>) \<and>
    msState (StatusOf (Some \<lparr>Seen = Some 5, Addresses = []\<rparr>) (80 * Second)) = StatusWaiting"
proof -
  let ?rec = "Some \<lparr>Seen = Some 5, Addresses = []\<rparr>"
  have t: "atAddrs demo_turn \<noteq> []" "atNow demo_turn = 5" "atAfter demo_turn = 6" by (simp_all add: demo_turn_def)
  have urls: "announceURLs demo_settings = [''https://d?'']" by (simp add: announceURLs_def demo_settings_def)
  have parse: "url_Parse demo_net ''https://d?'' = Inr \<lparr>Scheme = ''https'', User = None, Host = ''d'', RawQuery = [], uRest = []\<rparr>"
    by (simp add: demo_net_def)
  obtain q where once: "announceOnce demo_net (atPost demo_turn) demo_settings (atAddrs demo_turn) = (Inr (), q)"
    by (simp add: announceOnce_def urls postAnnounce_def demo_discovery parse demo_turn_def)
  have due: "announce_due defaultAnnounceRefresh \<lparr>lastAnnounced = [], lastAt = None\<rparr> demo_turn"
    using t(1) by (simp add: announce_due_def)
  obtain a where run: "announceLoop demo_net demo_settings defaultAnnounceRefresh [demo_turn] = (a, [q])"
    using once due by (simp add: announceLoop_def announce_step_def)
  have "took demo_turn q" using announceOnce_took [OF once t(1)] by simp
  then have serv: "serves None (zip [demo_turn] [q]) ?rec"
    by (auto intro!: served_took [of _ _ ?rec] served_all simp: seen_since_def t)
  from announcing_machine_is_waiting [of demo_net demo_settings "[]" demo_turn "[]" a "[q]" None ?rec 1 "80 * Second"]
    run serv once t have "msState (StatusOf ?rec (80 * Second)) = StatusWaiting" by simp
  with run serv show ?thesis by blast
qed

end
