(* ===== verification/RelayPool.thy ===== *)
theory RelayPool
  imports Relay
begin

text \<open>
  Joining the relay pool, \<open>mrcore/transport/relaypool.go\<close>: the order in which its relays are
  tried, and the walk over them.  What a probe measures and how a relay's own client fares are
  inputs.
\<close>

section \<open>The order\<close>

definition relayLatencyBucket :: duration where
  "relayLatencyBucket = 50 * Millisecond"

text \<open>Go's division truncates.\<close>

definition go_div :: "int \<Rightarrow> int \<Rightarrow> int" where
  "go_div a b = (if a < 0 then - ((- a) div b) else a div b)"

definition bucket_of :: "duration \<Rightarrow> int" where
  "bucket_of latency = go_div latency relayLatencyBucket"

text \<open>
  Each relay with what its probe came to.  The relays that answered are grouped by bucket, in the
  order of the list, and each group is shuffled.
\<close>

type_synonym probed = "string \<times> duration res"

definition in_bucket :: "probed list \<Rightarrow> int \<Rightarrow> string list" where
  "in_bucket rs b = map fst (filter (\<lambda>(_, p). case p of Inl _ \<Rightarrow> False | Inr l \<Rightarrow> bucket_of l = b) rs)"

definition silent :: "probed list \<Rightarrow> string list" where
  "silent rs = map fst (filter (\<lambda>(_, p). \<not> is_ok p) rs)"

definition bucket_ids :: "probed list \<Rightarrow> int list" where
  "bucket_ids rs = sorted_list_of_set (bucket_of ` {l. Inr l \<in> snd ` set rs})"

definition orderRelays :: "(string list \<Rightarrow> string list) \<Rightarrow> bool \<Rightarrow> probed list \<Rightarrow> string list" where
  "orderRelays shuffle cancelled' rs =
    (if cancelled' then []
     else concat (map (\<lambda>b. shuffle (in_bucket rs b)) (bucket_ids rs)) @ shuffle (silent rs))"

section \<open>The walk\<close>

text \<open>
  \<open>cur\<close> is the relay joined now, with its address and error; \<open>pcErr\<close> is set once \<open>Serve\<close> has
  returned.
\<close>

record relay_client =
  rcURI :: "string option"
  rcError :: "goerr option"

record pool_client =
  cur :: "relay_client option"
  pcErr :: "goerr option"

definition pool_Error :: "pool_client \<Rightarrow> goerr option" where
  "pool_Error c = (case cur c of Some r \<Rightarrow> rcError r | None \<Rightarrow> pcErr c)"

definition pool_URI :: "pool_client \<Rightarrow> string option" where
  "pool_URI c = (case cur c of None \<Rightarrow> None | Some r \<Rightarrow> rcURI r)"

text \<open>
  Handing on what the current relay is invited to, until that relay is given up: each invitation is
  taken, or the relay is given up while it waits.
\<close>

datatype 'i forward_event = Taken 'i | LeftWaiting 'i | GivenUp

fun forwardInvitations :: "'i forward_event list \<Rightarrow> 'i list" where
  "forwardInvitations (Taken i # es) = i # forwardInvitations es"
| "forwardInvitations (LeftWaiting i # es) = []"
| "forwardInvitations (GivenUp # es) = []"
| "forwardInvitations [] = []"

text \<open>
  The pool's listing: objects with a \<open>URL\<close>; those that do not parse are left out, the others are
  printed again.
\<close>

definition relay_put :: "string \<Rightarrow> json \<Rightarrow> string \<Rightarrow> string res" where
  "relay_put f v old = to_string v old"

definition listing_put :: "string \<Rightarrow> json \<Rightarrow> string list \<Rightarrow> string list res" where
  "listing_put f v old =
    to_slice ''[]struct'' (\<lambda>j. to_struct ''struct'' [''URL''] relay_put j []) v"

definition pool_listing :: "'a netlib_scheme \<Rightarrow> string \<Rightarrow> string list res" where
  "pool_listing L body =
    bind_res (json_decode body)
      (\<lambda>j. bind_res (to_struct ''struct'' [''Relays''] listing_put j [])
        (\<lambda>urls. Inr (List.map_filter (\<lambda>r. case url_Parse L r of Inl _ \<Rightarrow> None | Inr u \<Rightarrow> Some (url_String L u)) urls)))"

text \<open>
  Whether the context is done before a relay is tried, and whether the relay's client could be
  made.  The result is the relays that were served by, in order, and the error, if any.
\<close>

record walk_step =
  wsDone :: bool
  wsClient :: "string \<Rightarrow> unit res"

fun walk_relays :: "'a netlib_scheme \<Rightarrow> walk_step list \<Rightarrow> string list \<Rightarrow> bool \<Rightarrow> string list \<times> goerr option" where
  "walk_relays L ws [] doneAtEnd =
    ([], if doneAtEnd then None else Some (Err ''could not find a connectable relay''))"
| "walk_relays L [] (a # as) doneAtEnd = ([], None)"
| "walk_relays L (w # ws) (a # as) doneAtEnd =
    (if wsDone w then ([], None)
     else
       (case url_Parse L a of
          Inl _ \<Rightarrow> walk_relays L ws as doneAtEnd
        | Inr _ \<Rightarrow>
            (case wsClient w a of
               Inl _ \<Rightarrow> walk_relays L ws as doneAtEnd
             | Inr _ \<Rightarrow> (case walk_relays L ws as doneAtEnd of (served, r) \<Rightarrow> (a # served, r)))))"

definition pool_serve ::
    "'a netlib_scheme \<Rightarrow> url \<Rightarrow> (string \<Rightarrow> http_response res) \<Rightarrow> (string list \<Rightarrow> string list) \<Rightarrow> walk_step list \<Rightarrow>
      bool \<Rightarrow> string list \<times> goerr option" where
  "pool_serve L pool Get order ws doneAtEnd =
    (let target = url_String L (pool\<lparr>Scheme := TrimPrefix (Scheme pool) ''dynamic+''\<rparr>) in
     case url_Parse L target of
       Inl e \<Rightarrow> ([], Some (wrap (''relay pool '' @ Host pool) e))
     | Inr _ \<Rightarrow>
    (case Get target of
       Inl e \<Rightarrow> ([], Some (wrap (''fetching the relay pool '' @ Host pool) e))
     | Inr resp \<Rightarrow>
    (case pool_listing L (Body resp) of
       Inl e \<Rightarrow> ([], Some (wrap (''reading the relay pool '' @ Host pool) e))
     | Inr addrs \<Rightarrow> walk_relays L ws (order addrs) doneAtEnd)))"

definition pool_Serve ::
    "'a netlib_scheme \<Rightarrow> url \<Rightarrow> (string \<Rightarrow> http_response res) \<Rightarrow> (string list \<Rightarrow> string list) \<Rightarrow> walk_step list \<Rightarrow>
      bool \<Rightarrow> pool_client \<Rightarrow> goerr option \<times> pool_client" where
  "pool_Serve L pool Get order ws doneAtEnd c =
    (case pool_serve L pool Get order ws doneAtEnd of (_, e) \<Rightarrow> (e, c\<lparr>pcErr := e\<rparr>))"

section \<open>Lemmas\<close>

text \<open>No relay is lost or invented, whatever the shuffle does within a group.\<close>

lemma set_bucket_ids: "set (bucket_ids rs) = bucket_of ` {l. Inr l \<in> snd ` set rs}"
proof -
  have "{l. Inr l \<in> snd ` set rs} = projr ` {p \<in> snd ` set rs. is_ok p}"
    by (force simp: is_ok_iff image_iff)
  then have "finite {l. Inr l \<in> snd ` set rs}" by simp
  then show ?thesis by (simp add: bucket_ids_def)
qed

lemma mset_split_buckets:
  assumes "distinct ids" and "\<And>r l. (r, Inr l) \<in> set rs \<Longrightarrow> bucket_of l \<in> set ids"
  shows "(\<Sum>b\<leftarrow>ids. mset (in_bucket rs b)) + mset (silent rs) = mset (map fst rs)"
  using assms(2)
proof (induction rs)
  case Nil
  have "(\<Sum>b\<leftarrow>ids. ({#} :: string multiset)) = {#}" by (induction ids) simp_all
  then show ?case by (simp add: in_bucket_def silent_def)
next
  case (Cons rp rs)
  obtain r p where rp: "rp = (r, p)" by fastforce
  from Cons have IH: "(\<Sum>b\<leftarrow>ids. mset (in_bucket rs b)) + mset (silent rs) = mset (map fst rs)" by auto
  show ?case
  proof (cases p)
    case (Inl e)
    have "in_bucket (rp # rs) b = in_bucket rs b" for b using rp Inl by (simp add: in_bucket_def)
    with IH rp Inl show ?thesis by (simp add: silent_def)
  next
    case (Inr l)
    have b: "mset (in_bucket (rp # rs) b) = (if b = bucket_of l then {#r#} else {#}) + mset (in_bucket rs b)" for b
      using rp Inr by (simp add: in_bucket_def)
    have "bucket_of l \<in> set ids" using Cons.prems rp Inr by auto
    with assms(1) have "(\<Sum>b\<leftarrow>ids. if b = bucket_of l then {#r#} else {#}) = {#r#}"
      by (simp add: sum_list_distinct_conv_sum_set sum.delta)
    with IH rp Inr show ?thesis unfolding b by (simp add: sum_list_addf silent_def)
  qed
qed

lemma orderRelays_all:
  assumes "\<And>xs. mset (shuffle xs) = mset xs"
  shows "mset (orderRelays shuffle False rs) = mset (map fst rs)"
proof -
  have "mset (concat (map (\<lambda>b. shuffle (in_bucket rs b)) ids)) = (\<Sum>b\<leftarrow>ids. mset (in_bucket rs b))" for ids
    by (induction ids) (simp_all add: assms)
  moreover have "(\<Sum>b\<leftarrow>bucket_ids rs. mset (in_bucket rs b)) + mset (silent rs) = mset (map fst rs)"
  proof (rule mset_split_buckets)
    show "distinct (bucket_ids rs)" by (simp add: bucket_ids_def)
    show "bucket_of l \<in> set (bucket_ids rs)" if "(r, Inr l) \<in> set rs" for r l
      using that by (auto simp: set_bucket_ids image_iff) force
  qed
  ultimately show ?thesis by (simp add: orderRelays_def assms)
qed

text \<open>
  With every relay listed once, a relay comes before another only if it answered, and in a bucket
  no later than the other's, or the other did not answer.
\<close>

definition no_later :: "probed list \<Rightarrow> string \<Rightarrow> string \<Rightarrow> bool" where
  "no_later rs a b \<longleftrightarrow>
    (case map_of rs b of
       Some (Inr lb) \<Rightarrow> (case map_of rs a of Some (Inr la) \<Rightarrow> bucket_of la \<le> bucket_of lb | _ \<Rightarrow> False)
     | _ \<Rightarrow> True)"

lemma in_bucket_iff:
  "distinct (map fst rs) \<Longrightarrow> a \<in> set (in_bucket rs b) \<longleftrightarrow> (\<exists>l. map_of rs a = Some (Inr l) \<and> bucket_of l = b)"
  by (force simp: in_bucket_def map_of_eq_Some_iff split: sum.splits)

lemma not_is_ok: "\<not> is_ok r \<longleftrightarrow> (\<exists>e. r = Inl e)"
  by (cases r) simp_all

lemma silent_iff: "distinct (map fst rs) \<Longrightarrow> a \<in> set (silent rs) \<longleftrightarrow> (\<exists>e. map_of rs a = Some (Inl e))"
  by (auto simp: silent_def map_of_eq_Some_iff not_is_ok) force+

lemma sorted_wrt_all: "(\<And>a b. a \<in> set xs \<Longrightarrow> b \<in> set xs \<Longrightarrow> P a b) \<Longrightarrow> sorted_wrt P xs"
  by (induction xs) simp_all

lemma sorted_wrt_buckets:
  assumes d: "distinct (map fst rs)" and sh: "\<And>xs. mset (shuffle xs) = mset xs" and "sorted ids"
  shows "sorted_wrt (no_later rs) (concat (map (\<lambda>b. shuffle (in_bucket rs b)) ids))"
  using assms(3)
proof (induction ids)
  case (Cons i ids)
  have "set (shuffle xs) = set xs" for xs using sh by (metis set_mset_mset)
  then have m: "a \<in> set (shuffle (in_bucket rs b)) \<longleftrightarrow> (\<exists>l. map_of rs a = Some (Inr l) \<and> bucket_of l = b)" for a b
    using in_bucket_iff [OF d] by simp
  have nl: "no_later rs a b"
    if "a \<in> set (shuffle (in_bucket rs i))" "b \<in> set (shuffle (in_bucket rs j))" "i \<le> j" for a b j
    using that by (auto simp: m no_later_def)
  then have "sorted_wrt (no_later rs) (shuffle (in_bucket rs i))" by (intro sorted_wrt_all) simp
  moreover have "no_later rs a b" if "a \<in> set (shuffle (in_bucket rs i))"
      and "b \<in> set (concat (map (\<lambda>b. shuffle (in_bucket rs b)) ids))" for a b
    using that nl Cons.prems by (force simp del: set_concat simp: set_concat)
  ultimately show ?case using Cons by (simp add: sorted_wrt_append)
qed simp

section \<open>Properties\<close>

text \<open>
  The pool's relays are tried in order of nearness, each of them once: the order is a
  permutation of the list, whatever the shuffles do within a group; relays that answered come in
  ascending buckets of 50 ms, and those that did not answer come last.
\<close>

theorem orderRelays_nearest_first:
  assumes "distinct (map fst rs)" and "\<forall>xs. mset (shuffle xs) = mset xs"
  shows "mset (orderRelays shuffle False rs) = mset (map fst rs) \<and>
    sorted_wrt (no_later rs) (orderRelays shuffle False rs)"
proof -
  from assms(2) have sh: "\<And>xs. mset (shuffle xs) = mset xs" by blast
  then have "set (shuffle xs) = set xs" for xs by (metis set_mset_mset)
  moreover have "sorted_wrt (no_later rs) (shuffle (silent rs))"
    by (rule sorted_wrt_all) (auto simp: no_later_def calculation silent_iff [OF assms(1)])
  ultimately show ?thesis
    using orderRelays_all [OF sh] sorted_wrt_buckets [OF assms(1) sh, of "bucket_ids rs"] silent_iff [OF assms(1)]
    by (auto simp: orderRelays_def sorted_wrt_append bucket_ids_def no_later_def)
qed

theorem orderRelays_nearest_first_witness:
  "sorted_wrt (no_later [(''far'', Inr 120), (''dead'', Inl (Err [])), (''near'', Inr 1)])
    (orderRelays rev False [(''far'', Inr 120), (''dead'', Inl (Err [])), (''near'', Inr 1)])"
  using orderRelays_nearest_first [of "[(''far'', Inr 120), (''dead'', Inl (Err [])), (''near'', Inr 1)]" rev]
  by simp

end
