(* ===== verification/LocalNet.thy ===== *)
theory LocalNet
  imports Relay Race
begin

text \<open>
  Finding the machine on the local network, \<open>mrcore/transport/local_discovery.go\<close>: the
  announcement and its reader, and the dial that keeps listening.  Datagrams, TCP connections and
  the network interfaces are inputs.
\<close>

section \<open>The announcement\<close>

definition defaultLocalGroupAddr :: string where "defaultLocalGroupAddr = ''239.255.42.99''"
definition defaultLocalPort :: int where "defaultLocalPort = 21076"
definition defaultLocalAnnounceInterval :: duration where "defaultLocalAnnounceInterval = 2 * Second"
definition localAnnounceMagic :: string where "localAnnounceMagic = ''synctang-local-discovery-v1''"

definition groupAddr :: "string \<Rightarrow> string" where
  "groupAddr configured = (if configured \<noteq> [] then configured else defaultLocalGroupAddr)"

definition local_port :: "int \<Rightarrow> int" where
  "local_port configured = (if configured \<noteq> 0 then configured else defaultLocalPort)"

definition localAnnounceInterval :: "duration \<Rightarrow> duration" where
  "localAnnounceInterval configured = (if configured \<noteq> 0 then configured else defaultLocalAnnounceInterval)"

record localAnnouncement =
  laMagic :: string
  laDeviceID :: string
  laPort :: int

definition announcement_to_json :: "localAnnouncement \<Rightarrow> json" where
  "announcement_to_json a = JObj
    [(''magic'', JStr (laMagic a)), (''device_id'', JStr (laDeviceID a)), (''port'', JNum (show_int (laPort a)))]"

definition announcement_put :: "string \<Rightarrow> json \<Rightarrow> localAnnouncement \<Rightarrow> localAnnouncement res" where
  "announcement_put f v a =
    (if f = ''magic'' then bind_res (to_string v (laMagic a)) (\<lambda>s. Inr (a\<lparr>laMagic := s\<rparr>))
     else if f = ''device_id'' then bind_res (to_string v (laDeviceID a)) (\<lambda>s. Inr (a\<lparr>laDeviceID := s\<rparr>))
     else bind_res (to_int v (laPort a)) (\<lambda>i. Inr (a\<lparr>laPort := i\<rparr>)))"

definition announcement_of_json :: "json \<Rightarrow> localAnnouncement res" where
  "announcement_of_json j =
    to_struct ''transport.localAnnouncement'' [''magic'', ''device_id'', ''port''] announcement_put j
      \<lparr>laMagic = [], laDeviceID = [], laPort = 0\<rparr>"

definition local_payload :: "string \<Rightarrow> nat \<Rightarrow> string" where
  "local_payload deviceID tcpPort =
    json_print (announcement_to_json
      \<lparr>laMagic = localAnnounceMagic, laDeviceID = deviceID, laPort = int tcpPort\<rparr>)"

definition usableAnnouncementPort :: "int \<Rightarrow> bool" where
  "usableAnnouncementPort port \<longleftrightarrow> port > 0 \<and> port \<le> 65535"

text \<open>\<open>net.JoinHostPort\<close>.\<close>

definition JoinHostPort :: "string \<Rightarrow> string \<Rightarrow> string" where
  "JoinHostPort host port =
    (if CHR '':'' \<in> set host then ''['' @ host @ '']:'' @ port else host @ '':'' @ port)"

text \<open>
  The datagrams of one socket, each with the address it came from, until its reads fail.  A read
  keeps the first 512 bytes.
\<close>

type_synonym datagram = "string \<times> string"

definition announced_at :: "string \<Rightarrow> datagram \<Rightarrow> string option" where
  "announced_at peerID d =
    (case bind_res (json_parse (take 512 (snd d))) announcement_of_json of
       Inl _ \<Rightarrow> None
     | Inr ann \<Rightarrow>
         if laMagic ann \<noteq> localAnnounceMagic \<or> laDeviceID ann \<noteq> peerID then None
         else if \<not> usableAnnouncementPort (laPort ann) then None
         else Some (JoinHostPort (fst d) (show_int (laPort ann))))"

fun readAnnouncementFor :: "string \<Rightarrow> datagram list \<Rightarrow> string option" where
  "readAnnouncementFor peerID [] = None"
| "readAnnouncementFor peerID (d # ds) =
    (case announced_at peerID d of Some a \<Rightarrow> Some a | None \<Rightarrow> readAnnouncementFor peerID ds)"

section \<open>Interfaces\<close>

text \<open>An interface's addresses: those that are IP networks, with their IPv4 form if they have one.\<close>

record netif =
  ifUp :: bool
  ifMulticast :: bool
  ifLoopback :: bool
  ifAddrs :: "(string option) option list res"

definition usable_v4 :: "string option option \<Rightarrow> bool" where
  "usable_v4 a = (case a of Some (Some v4) \<Rightarrow> v4 \<noteq> ''0.0.0.0'' | _ \<Rightarrow> False)"

definition interfaceIPv4 :: "netif \<Rightarrow> string option" where
  "interfaceIPv4 i =
    (case ifAddrs i of
       Inl _ \<Rightarrow> None
     | Inr as \<Rightarrow> (case find usable_v4 as of Some (Some v) \<Rightarrow> v | _ \<Rightarrow> None))"

definition multicastInterfaces :: "netif list res \<Rightarrow> netif list" where
  "multicastInterfaces all =
    (case all of
       Inl _ \<Rightarrow> []
     | Inr is \<Rightarrow>
         filter (\<lambda>i. \<not> (\<not> ifUp i \<or> \<not> ifMulticast i \<or> ifLoopback i) \<and> interfaceIPv4 i \<noteq> None) is)"

text \<open>One socket per interface on which it could be opened.\<close>

definition open_sockets :: "(netif \<Rightarrow> 's res) \<Rightarrow> netif list res \<Rightarrow> 's list" where
  "open_sockets open' all =
    List.map_filter (\<lambda>i. case open' i of Inl _ \<Rightarrow> None | Inr s \<Rightarrow> Some s) (multicastInterfaces all)"

text \<open>
  Announcing: once when the sockets are open, then on every tick until the listener is stopped or the
  context ends, which closes them.  The datagrams sent, by socket, and the sockets still open.
\<close>

datatype announce_event = Ticked | Stopped

fun announce_ticks :: "'s list \<Rightarrow> string \<Rightarrow> announce_event list \<Rightarrow> ('s \<times> string) list \<times> 's list" where
  "announce_ticks socks payload [] = ([], socks)"
| "announce_ticks socks payload (Stopped # es) = ([], [])"
| "announce_ticks socks payload (Ticked # es) =
    (case announce_ticks socks payload es of (sends, left) \<Rightarrow> (map (\<lambda>s. (s, payload)) socks @ sends, left))"

definition announceLocally ::
    "(netif \<Rightarrow> 's res) \<Rightarrow> netif list res \<Rightarrow> string \<Rightarrow> nat \<Rightarrow> announce_event list \<Rightarrow> ('s \<times> string) list \<times> 's list" where
  "announceLocally open' all deviceID tcpPort es =
    (let socks = open_sockets open' all; payload = local_payload deviceID tcpPort in
     if socks = [] then ([], []) else announce_ticks socks payload (Ticked # es))"

lemma announce_ticks_sent:
  "fst (announce_ticks socks payload es) =
    concat (replicate (length (takeWhile (\<lambda>e. e = Ticked) es)) (map (\<lambda>s. (s, payload)) socks))"
  by (induction socks payload es rule: announce_ticks.induct) (auto split: prod.splits)

text \<open>
  The sockets by what they will read, and the context's error if it is done before any of them
  found the peer: the one that does first is a choice.
\<close>

definition waitForAnnouncement :: "string \<Rightarrow> datagram list list \<Rightarrow> nat option \<Rightarrow> goerr \<Rightarrow> string res" where
  "waitForAnnouncement peerID socks first ctxErr =
    (if socks = [] then
       Inl (Err ''joining the local discovery group: no multicast-capable interface'')
     else
       (case first of
          None \<Rightarrow> Inl ctxErr
        | Some i \<Rightarrow> (case readAnnouncementFor peerID (socks ! i) of Some a \<Rightarrow> Inr a | None \<Rightarrow> Inl ctxErr)))"

section \<open>Listening and dialling\<close>

definition local_Listen :: "'r accepted res \<Rightarrow> 'r handshake \<Rightarrow> string list \<Rightarrow> ('r \<times> string) res" where
  "local_Listen listener hs authorizedPeers =
    (case listener of
       Inl e \<Rightarrow> Inl (wrap ''transport: local discovery: opening a listener'' e)
     | Inr a \<Rightarrow>
         (case acceptWithContext a of
            Inl e \<Rightarrow> Inl (wrap ''transport: local discovery'' e)
          | Inr raw \<Rightarrow> fst (doServerHandshake hs raw authorizedPeers)))"

text \<open>One turn of the dial: the context, what was announced, and what connecting came to.\<close>

record 'r local_turn =
  ltCtxErr :: "goerr option"
  ltAddr :: "string res"
  ltDial :: "string \<Rightarrow> 'r res"

definition local_err :: "goerr \<Rightarrow> goerr option \<Rightarrow> goerr" where
  "local_err e prev =
    (case prev of
       Some l \<Rightarrow> Wrap ''transport: local discovery: '' e ('' (last attempt: '' @ error_text l @ '')'')
     | None \<Rightarrow> wrap ''transport: local discovery'' e)"

fun local_Dial_loop :: "'r handshake \<Rightarrow> string \<Rightarrow> goerr option \<Rightarrow> 'r local_turn list \<Rightarrow> ('r \<times> string) res option" where
  "local_Dial_loop hs peerID prev [] = None"
| "local_Dial_loop hs peerID prev (t # ts) =
    (case ltCtxErr t of
       Some e \<Rightarrow> Some (Inl (local_err e prev))
     | None \<Rightarrow>
    (case ltAddr t of
       Inl e \<Rightarrow> Some (Inl (local_err e prev))
     | Inr addr \<Rightarrow>
    (case ltDial t addr of
       Inl e \<Rightarrow> local_Dial_loop hs peerID (Some e) ts
     | Inr raw \<Rightarrow>
    (case fst (doClientHandshake hs raw peerID) of
       Inl e \<Rightarrow> local_Dial_loop hs peerID (Some e) ts
     | Inr c \<Rightarrow> Some (Inr c)))))"

definition local_Dial :: "'r handshake \<Rightarrow> string \<Rightarrow> 'r local_turn list \<Rightarrow> ('r \<times> string) res option" where
  "local_Dial hs peerID ts =
    (if peerID = [] then Some (Inl ErrNoPeerID) else local_Dial_loop hs peerID None ts)"

section \<open>Lemmas\<close>

lemma local_Dial_pinned:
  assumes "local_Dial hs peerID ts = Some (Inr (raw, p))"
  shows "p = peerID \<and> (\<exists>rest. hs raw = Inr (p # rest))"
proof -
  have ne: "peerID \<noteq> []" using assms by (auto simp: local_Dial_def split: if_splits)
  have "p = peerID \<and> (\<exists>rest. hs raw = Inr (p # rest))" if "local_Dial_loop hs peerID l ts = Some (Inr (raw, p))" for l
    using that
  proof (induction ts arbitrary: l)
    case (Cons t ts)
    show ?case
    proof (cases "\<exists>addr c. ltCtxErr t = None \<and> ltAddr t = Inr addr \<and> ltDial t addr = Inr c \<and>
        fst (doClientHandshake hs c peerID) = Inr (raw, p)")
      case True
      then obtain c where "fst (doClientHandshake hs c peerID) = Inr (raw, p)" by blast
      from doClientHandshake_Inr [OF this] ne show ?thesis by auto
    next
      case False
      with Cons.prems obtain l' where "local_Dial_loop hs peerID l' ts = Some (Inr (raw, p))"
        by (auto split: option.splits sum.splits)
      then show ?thesis by (rule Cons.IH)
    qed
  qed simp
  with assms ne show ?thesis by (simp add: local_Dial_def)
qed

lemma show_nat_head: "hd (show_nat n) = CHR ''0'' \<Longrightarrow> length (show_nat n) = 1"
proof (induction n rule: show_nat.induct)
  case (1 n)
  show ?case
  proof (cases "n < 10")
    case True
    then show ?thesis by (subst show_nat.simps) simp
  next
    case False
    then have s: "show_nat n = show_nat (n div 10) @ [digit (n mod 10)]" by (subst show_nat.simps) simp
    with 1 False have len: "length (show_nat (n div 10)) = 1" and hd0: "hd (show_nat (n div 10)) = CHR ''0''"
      by simp_all
    then have "show_nat (n div 10) = ''0''" by (cases "show_nat (n div 10)") auto
    then have "digits_val 0 (show_nat (n div 10)) = Some 0" by (simp add: digit_val_def)
    with False show ?thesis by (simp add: digits_val_show_nat)
  qed
qed

lemma digit_facts:
  assumes "c \<in> digit ` {..<10}"
  shows "number_char c \<and> digit_val c \<noteq> None \<and> c \<noteq> CHR ''e'' \<and> c \<noteq> CHR ''E'' \<and> c \<noteq> CHR ''.'' \<and> c \<noteq> CHR ''-''"
proof -
  from assms obtain d where c: "c = digit d" "d < 10" by auto
  have "list_all (\<lambda>d. number_char (digit d)) [0..<10]" by code_simp
  with c have "number_char c" by (simp add: list_all_iff)
  moreover from c have v: "digit_val c = Some d" by simp
  moreover from v have "c \<noteq> CHR ''e'' \<and> c \<noteq> CHR ''E'' \<and> c \<noteq> CHR ''.'' \<and> c \<noteq> CHR ''-''"
    by (auto simp: digit_val_def)
  ultimately show ?thesis by simp
qed

lemma valid_number_show_nat: "valid_number (show_nat n) \<and> list_all number_char (show_nat n)"
proof -
  have d: "\<And>c. c \<in> set (show_nat n) \<Longrightarrow> c \<in> digit ` {..<10}" using show_nat_digits by blast
  note f = digit_facts [OF d]
  have "TrimPrefix (show_nat n) ''-'' = show_nat n"
    using f by (cases "show_nat n") (auto simp: TrimPrefix_def)
  moreover have "takeWhile (\<lambda>c. c \<noteq> CHR ''e'' \<and> c \<noteq> CHR ''E'') (show_nat n) = show_nat n"
    using f by (simp add: takeWhile_eq_all_conv)
  moreover have "cut_at CHR ''.'' (show_nat n) = None" using f by (auto simp: cut_at_None)
  moreover have "valid_int_part (show_nat n)"
    using f show_nat_head [of n] by (auto simp: valid_int_part_def digits1_def list_all_iff)
  ultimately have "valid_number (show_nat n)" by (simp add: valid_number_def Let_def del: takeWhile_eq_all_conv)
  with f show ?thesis by (simp add: list_all_iff)
qed

lemma announced_payload:
  assumes "valid_utf8 deviceID" and "length (local_payload deviceID port) \<le> 512"
    and "0 < port" and "port \<le> 65535"
  shows "announced_at peerID (ip, local_payload deviceID port) =
    (if deviceID = peerID then Some (JoinHostPort ip (show_nat port)) else None)"
proof -
  let ?a = "\<lparr>laMagic = localAnnounceMagic, laDeviceID = deviceID, laPort = int port\<rparr>"
  have num: "valid_number (show_int (int port)) \<and> list_all number_char (show_int (int port))" by (simp add: show_int_def valid_number_show_nat)
  have "json_wf (announcement_to_json ?a)"
    using assms(1) num by (simp add: announcement_to_json_def localAnnounceMagic_def valid_utf8_ascii is_ascii_def)
  then have p: "json_parse (take 512 (local_payload deviceID port)) = Inr (announcement_to_json ?a)"
    using assms(2) parse_print by (simp add: local_payload_def)
  have i: "to_int (JNum (show_int (int port))) old = Inr (int port)" for old
    unfolding Json.of_int_def [symmetric] using assms(4) by (intro to_int_of_int) simp_all
  have "announcement_of_json (announcement_to_json ?a) = Inr ?a"
    by (simp add: i announcement_of_json_def announcement_to_json_def to_struct_def match_field_def fold_key.simps
        announcement_put_def)
  with p assms(3,4) show ?thesis
    by (simp add: announced_at_def usableAnnouncementPort_def show_int_def)
qed

section \<open>Properties\<close>

text \<open>
  C26. A key holder on the same network finds the machine: whatever else is heard on the group, as
  long as no datagram before it passes for the machine's, the machine's own announcement yields
  the address it came from with the port it names; and it is ignored by a key holder that looks
  for another machine.
\<close>

theorem local_announcement_found:
  assumes "valid_utf8 deviceID" and "length (local_payload deviceID port) \<le> 512"
    and "0 < port" and "port \<le> 65535" and "\<forall>d \<in> set noise. announced_at peerID d = None"
  shows "readAnnouncementFor peerID (noise @ (ip, local_payload deviceID port) # rest) =
    (if deviceID = peerID then Some (JoinHostPort ip (show_nat port)) else readAnnouncementFor peerID rest)"
  using assms(5) announced_payload [OF assms(1-4), of peerID ip]
  by (induction noise) (simp_all split: if_split)

theorem local_announcement_found_witness:
  "readAnnouncementFor ''M'' ([(''10.0.0.9'', [])] @ (''10.0.0.7'', local_payload ''M'' 22000) # []) =
    Some (JoinHostPort ''10.0.0.7'' (show_nat 22000))"
proof -
  have l: "length (local_payload ''M'' 22000) \<le> 512"
    using length_quote [of localAnnounceMagic] length_quote [of "''M''"] length_quote [of "''magic''"]
      length_quote [of "''device_id''"] length_quote [of "''port''"]
    by (simp add: local_payload_def announcement_to_json_def show_int_def show_nat.simps localAnnounceMagic_def)
  have n: "announced_at ''M'' (''10.0.0.9'', []) = None" by (simp add: announced_at_def json_parse_def parse_value.simps skip_ws_def)
  show ?thesis
    using local_announcement_found [of "''M''" 22000 "[(''10.0.0.9'', [])]" "''M''" "''10.0.0.7''" "[]"] l n
    by (simp add: valid_utf8_ascii is_ascii_def)
qed

end
