(* ===== verification/Phone.thy ===== *)
theory Phone
  imports Network Relay
begin

text \<open>
  What a phone keeps about a call: the kind of its last failure, \<open>mobile/failure.go\<close>, and how far
  it has got, \<open>mobile/progress.go\<close>.
\<close>

section \<open>Kinds of failure\<close>

definition FailureNone :: nat where "FailureNone = 0"
definition FailureOther :: nat where "FailureOther = 1"
definition FailureCancelled :: nat where "FailureCancelled = 2"
definition FailureUnreachable :: nat where "FailureUnreachable = 3"
definition FailureHungUp :: nat where "FailureHungUp = 4"
definition FailureNoReply :: nat where "FailureNoReply = 5"
definition FailureOutcomeUnknown :: nat where "FailureOutcomeUnknown = 6"
definition FailureAnswerRejected :: nat where "FailureAnswerRejected = 7"
definition FailureBadPairingCode :: nat where "FailureBadPairingCode = 8"
definition FailurePairCodeMismatch :: nat where "FailurePairCodeMismatch = 9"
definition FailurePairDeclined :: nat where "FailurePairDeclined = 10"
definition FailurePairRefused :: nat where "FailurePairRefused = 11"
definition FailureProtocol :: nat where "FailureProtocol = 12"
definition FailureKeyMismatch :: nat where "FailureKeyMismatch = 13"
definition FailurePairNotConfirmed :: nat where "FailurePairNotConfirmed = 14"

lemmas failure_kinds =
  FailureNone_def FailureOther_def FailureCancelled_def FailureUnreachable_def FailureHungUp_def
  FailureNoReply_def FailureOutcomeUnknown_def FailureAnswerRejected_def FailureBadPairingCode_def
  FailurePairCodeMismatch_def FailurePairDeclined_def FailurePairRefused_def FailureProtocol_def
  FailureKeyMismatch_def FailurePairNotConfirmed_def

definition withKind :: "nat \<Rightarrow> goerr \<Rightarrow> goerr" where
  "withKind kind err = KindErr kind [] err"

definition withKindDetail :: "nat \<Rightarrow> string \<Rightarrow> goerr \<Rightarrow> goerr" where
  "withKindDetail kind detail err = KindErr kind detail err"

text \<open>\<open>errors.As(err, &k)\<close> for a \<open>*kindError\<close>.\<close>

fun as_kind :: "goerr \<Rightarrow> (nat \<times> string) option" where
  "as_kind (KindErr k d _) = Some (k, d)"
| "as_kind (Wrap _ e _) = as_kind e"
| "as_kind (Joined es) =
    (case filter (\<lambda>x. x \<noteq> None) (map as_kind es) of [] \<Rightarrow> None | x # _ \<Rightarrow> x)"
| "as_kind (DialErr e) = as_kind e"
| "as_kind _ = None"

definition kindOf :: "unit res \<Rightarrow> nat \<times> string" where
  "kindOf err =
    (case err of
       Inr _ \<Rightarrow> (FailureNone, [])
     | Inl e \<Rightarrow> (case as_kind e of Some kd \<Rightarrow> kd | None \<Rightarrow> (FailureOther, [])))"

record lastFailure =
  lfKind :: nat
  lfDetail :: string

definition failure_record :: "unit res \<Rightarrow> lastFailure \<Rightarrow> lastFailure" where
  "failure_record err l = (case kindOf err of (k, d) \<Rightarrow> l\<lparr>lfKind := k, lfDetail := d\<rparr>)"

section \<open>Stages and routes\<close>

definition StageNone :: nat where "StageNone = 0"
definition StageStarting :: nat where "StageStarting = 1"
definition StageLookingUp :: nat where "StageLookingUp = 2"
definition StageConnecting :: nat where "StageConnecting = 3"
definition StageCheckingIdentity :: nat where "StageCheckingIdentity = 4"
definition StageWaitingForRequest :: nat where "StageWaitingForRequest = 5"
definition StageRequestReady :: nat where "StageRequestReady = 6"
definition StageSendingAnswer :: nat where "StageSendingAnswer = 7"
definition StageWaitingForVerdict :: nat where "StageWaitingForVerdict = 8"
definition StageUnlocked :: nat where "StageUnlocked = 9"
definition StageSendingProof :: nat where "StageSendingProof = 10"
definition StageWaitingForOperator :: nat where "StageWaitingForOperator = 11"
definition StageEnrolled :: nat where "StageEnrolled = 12"

lemmas stage_defs =
  StageNone_def StageStarting_def StageLookingUp_def StageConnecting_def StageCheckingIdentity_def
  StageWaitingForRequest_def StageRequestReady_def StageSendingAnswer_def StageWaitingForVerdict_def
  StageUnlocked_def StageSendingProof_def StageWaitingForOperator_def StageEnrolled_def

definition mobile_RouteUnknown :: nat where "mobile_RouteUnknown = 0"
definition mobile_RouteRelay :: nat where "mobile_RouteRelay = 1"
definition mobile_RouteLocal :: nat where "mobile_RouteLocal = 2"
definition mobile_RouteDirect :: nat where "mobile_RouteDirect = 3"

text \<open>The instant of the connection is kept; the instants that only the log prints are not.\<close>

record progress =
  pgStage :: nat
  pgAttempt :: nat
  pgRoute :: nat
  pgLegRoute :: "nat \<rightharpoonup> Route"
  pgStages :: "nat list"
  pgConnectedAt :: "int option"

definition zero_progress :: progress where
  "zero_progress = \<lparr>pgStage = 0, pgAttempt = 0, pgRoute = 0, pgLegRoute = Map.empty, pgStages = [],
     pgConnectedAt = None\<rparr>"

definition markConnected :: "int \<Rightarrow> progress \<Rightarrow> progress" where
  "markConnected now p = p\<lparr>pgConnectedAt := Some now\<rparr>"

definition connectedForMillis :: "int \<Rightarrow> progress \<Rightarrow> int" where
  "connectedForMillis now p =
    (case pgConnectedAt p of None \<Rightarrow> 0 | Some t \<Rightarrow> time_Sub now t div Millisecond)"

definition setLocked :: "nat \<Rightarrow> progress \<Rightarrow> progress" where
  "setLocked stage p =
    (if stage = pgStage p then p else p\<lparr>pgStage := stage, pgStages := pgStages p @ [stage]\<rparr>)"

definition advance :: "nat \<Rightarrow> progress \<Rightarrow> progress" where
  "advance stage p = (if stage > pgStage p then setLocked stage p else p)"

definition beginAttempt :: "nat \<Rightarrow> progress \<Rightarrow> progress" where
  "beginAttempt first p =
    setLocked first (p\<lparr>pgAttempt := pgAttempt p + 1, pgLegRoute := Map.empty\<rparr>)"

definition snapshot :: "progress \<Rightarrow> nat \<times> nat \<times> nat" where
  "snapshot p = (pgStage p, pgAttempt p, pgRoute p)"

definition phase_stage :: "DialPhase \<Rightarrow> nat" where
  "phase_stage phase =
    (case phase of
       PhaseLookup \<Rightarrow> StageLookingUp
     | PhaseConnect \<Rightarrow> StageConnecting
     | PhaseHandshake \<Rightarrow> StageCheckingIdentity)"

definition dialHook :: "nat \<Rightarrow> Route \<Rightarrow> DialPhase \<Rightarrow> progress \<Rightarrow> progress" where
  "dialHook leg route phase p = advance (phase_stage phase) (p\<lparr>pgLegRoute := (pgLegRoute p)(leg \<mapsto> route)\<rparr>)"

definition won :: "nat \<Rightarrow> progress \<Rightarrow> progress" where
  "won leg p =
    (case pgLegRoute p leg of
       Some RouteRelay \<Rightarrow> p\<lparr>pgRoute := mobile_RouteRelay\<rparr>
     | Some RouteLocal \<Rightarrow> p\<lparr>pgRoute := mobile_RouteLocal\<rparr>
     | Some RouteDirect \<Rightarrow> p\<lparr>pgRoute := mobile_RouteDirect\<rparr>
     | None \<Rightarrow> p)"

definition firstStage :: "string \<Rightarrow> nat" where
  "firstStage directAddr = (if directAddr \<noteq> [] then StageConnecting else StageLookingUp)"

text \<open>
  What happens to a progress, in whatever order the legs of a race report: the steps of the
  record under its own lock.
\<close>

datatype progress_event =
    Begun nat
  | Advanced nat
  | Hooked nat Route DialPhase
  | LegWon nat
  | Connected int

definition progress_step :: "progress_event \<Rightarrow> progress \<Rightarrow> progress" where
  "progress_step ev p =
    (case ev of
       Begun first \<Rightarrow> beginAttempt first p
     | Advanced s \<Rightarrow> advance s p
     | Hooked leg route phase \<Rightarrow> dialHook leg route phase p
     | LegWon leg \<Rightarrow> won leg p
     | Connected now \<Rightarrow> markConnected now p)"

definition progress_run :: "progress_event list \<Rightarrow> progress \<Rightarrow> progress" where
  "progress_run evs p = fold progress_step evs p"

section \<open>Lemmas\<close>

text \<open>Within one attempt nothing pulls the stage back or rewrites what was shown.\<close>

definition begins :: "progress_event \<Rightarrow> bool" where
  "begins ev = (case ev of Begun _ \<Rightarrow> True | _ \<Rightarrow> False)"

definition descents :: "nat list \<Rightarrow> nat" where
  "descents xs = length (filter (\<lambda>(a, b). b < a) (zip xs (tl xs)))"

lemma descents_snoc:
  "descents (xs @ [x]) = descents xs + (if xs \<noteq> [] \<and> x < last xs then 1 else 0)"
proof (cases "xs = []")
  case False
  then have "zip (xs @ [x]) (tl (xs @ [x])) = zip xs (tl xs) @ [(last xs, x)]"
  proof (induction xs)
    case (Cons a xs)
    then show ?case by (cases xs) simp_all
  qed simp
  with False show ?thesis by (simp add: descents_def)
qed (simp add: descents_def)

definition progress_inv :: "nat \<Rightarrow> progress \<Rightarrow> bool" where
  "progress_inv n p \<longleftrightarrow>
    pgStage p = last (0 # pgStages p) \<and> distinct_adj (0 # pgStages p) \<and>
    pgAttempt p = n \<and> descents (0 # pgStages p) \<le> n \<and> pgRoute p \<le> 3"

lemma setLocked_inv:
  assumes "progress_inv n p" and "m = n \<and> pgStage p \<le> stage \<or> m = Suc n"
  shows "progress_inv m (setLocked stage p\<lparr>pgAttempt := m, pgLegRoute := r\<rparr>)"
proof -
  have "descents ((0 # pgStages p) @ [stage]) \<le> m" if "stage \<noteq> pgStage p"
    using assms that unfolding descents_snoc progress_inv_def by auto
  moreover have "distinct_adj ((0 # pgStages p) @ [stage])" if "stage \<noteq> pgStage p"
    using assms that unfolding distinct_adj_append_iff progress_inv_def by auto
  ultimately show ?thesis using assms by (auto simp: progress_inv_def setLocked_def)
qed

lemma advance_inv:
  assumes "progress_inv n p"
  shows "progress_inv n (advance stage p) \<and> pgStage p \<le> pgStage (advance stage p) \<and>
    prefix (pgStages p) (pgStages (advance stage p))"
proof (cases "stage > pgStage p")
  case True
  have s: "setLocked stage p\<lparr>pgAttempt := n, pgLegRoute := pgLegRoute p\<rparr> = setLocked stage p"
    using assms by (simp add: setLocked_def progress_inv_def)
  from setLocked_inv [OF assms, of n stage "pgLegRoute p"] True show ?thesis
    unfolding s by (auto simp: advance_def setLocked_def)
qed (use assms in \<open>simp add: advance_def\<close>)

lemma progress_step_inv:
  assumes "progress_inv n p"
  shows "progress_inv (if begins ev then Suc n else n) (progress_step ev p) \<and>
    (\<not> begins ev \<longrightarrow> pgStage p \<le> pgStage (progress_step ev p)) \<and>
    prefix (pgStages p) (pgStages (progress_step ev p))"
proof (cases ev)
  case (Begun first)
  have b: "beginAttempt first p = setLocked first p\<lparr>pgAttempt := Suc n, pgLegRoute := Map.empty\<rparr>"
    using assms by (simp add: beginAttempt_def setLocked_def progress_inv_def)
  from setLocked_inv [OF assms, of "Suc n" first Map.empty] Begun show ?thesis
    by (auto simp: progress_step_def begins_def b setLocked_def)
next
  case (Hooked leg route phase)
  have "progress_inv n (p\<lparr>pgLegRoute := (pgLegRoute p)(leg \<mapsto> route)\<rparr>)"
    using assms by (simp add: progress_inv_def)
  from advance_inv [OF this] Hooked show ?thesis by (simp add: progress_step_def begins_def dialHook_def)
next
  case (LegWon leg)
  with assms show ?thesis
    by (auto simp: progress_step_def begins_def won_def progress_inv_def mobile_RouteRelay_def
        mobile_RouteLocal_def mobile_RouteDirect_def split: option.splits Route.splits)
next
  case (Advanced stage)
  with advance_inv [OF assms, of stage] show ?thesis by (simp add: progress_step_def begins_def)
next
  case (Connected now)
  with assms show ?thesis by (simp add: progress_step_def begins_def markConnected_def progress_inv_def)
qed

lemma progress_run_inv:
  assumes "progress_inv n p"
  shows "progress_inv (n + length (filter begins evs)) (progress_run evs p) \<and>
    (\<not> list_ex begins evs \<longrightarrow> pgStage p \<le> pgStage (progress_run evs p)) \<and>
    prefix (pgStages p) (pgStages (progress_run evs p))"
  using assms
proof (induction evs arbitrary: n p)
  case (Cons ev evs)
  from progress_step_inv [OF Cons.prems, of ev] Cons.IH [of "if begins ev then Suc n else n" "progress_step ev p"]
  show ?case by (auto simp: progress_run_def intro: prefix_order.trans)
qed (simp add: progress_run_def)

lemma zero_progress_inv: "progress_inv 0 zero_progress"
  by (simp add: progress_inv_def zero_progress_def descents_def)

section \<open>Properties\<close>

text \<open>
  What the phone shows never runs backwards: in whatever order the legs of the dial report,
  the stage shown is the last of the stages passed, no two successive stages are the same, the
  stage falls at most once for each attempt begun, and from one attempt's beginning to the next it
  only rises; the count of attempts is the number begun.
\<close>

theorem stage_never_runs_back:
  "let p = progress_run before zero_progress; p' = progress_run after p in
    pgStage p = last (0 # pgStages p) \<and> distinct_adj (0 # pgStages p) \<and>
    pgAttempt p = length (filter begins before) \<and> descents (0 # pgStages p) \<le> pgAttempt p \<and>
    prefix (pgStages p) (pgStages p') \<and> (list_ex begins after \<or> pgStage p \<le> pgStage p')"
proof -
  note b = progress_run_inv [OF zero_progress_inv, of "before"]
  with progress_run_inv [of "length (filter begins before)" "progress_run before zero_progress" after]
  show ?thesis by (auto simp: Let_def progress_inv_def)
qed

end
