(* ===== verification/PhoneSession.thy ===== *)
theory PhoneSession
  imports Phone Recovery
begin

text \<open>
  A phone's side of a recovery, \<open>mobile/mobile.go\<close>: the key it makes, the session that connects,
  takes the machine's request and answers it, and the operations on a session, in any order.
\<close>

section \<open>Keys\<close>

definition uncompressedPointLen :: nat where "uncompressedPointLen = 65"
definition coordLen :: nat where "coordLen = 32"
definition defaultTimeoutSeconds :: int where "defaultTimeoutSeconds = 60"

text \<open>\<open>Gen\<close> is \<open>identity.GenerateDeterministicCert\<close>, \<open>DevID\<close> the Device ID of a certificate.\<close>

definition certForSeed :: "(string \<Rightarrow> 'c res) \<Rightarrow> string \<Rightarrow> 'c res" where
  "certForSeed Gen seed =
    (if TrimSpace seed = [] then Inl (Err ''mobile: empty identity seed'')
     else map_err (wrap ''mobile: deriving identity'') (Gen seed))"

definition DeviceIDForSeed :: "(string \<Rightarrow> 'c res) \<Rightarrow> ('c \<Rightarrow> string) \<Rightarrow> string \<Rightarrow> string res" where
  "DeviceIDForSeed Gen DevID seed =
    (case certForSeed Gen seed of Inl e \<Rightarrow> Inl e | Inr cert \<Rightarrow> Inr (DevID cert))"

definition PublicPointOf :: "group_ops \<Rightarrow> bytes \<Rightarrow> bytes res" where
  "PublicPointOf g k =
    (case ValidatePrivateScalar k of
       Inl e \<Rightarrow> Inl (wrap ''mobile'' e)
     | Inr _ \<Rightarrow> map_err (wrap ''mobile: not a valid scalar'') (ScalarBaseMult g k))"

definition NewKeyPair :: "group_ops \<Rightarrow> bytes \<Rightarrow> ((bytes \<times> bytes) \<times> bytes) res" where
  "NewKeyPair g rng =
    (case RandomScalar g rng of
       Inl e \<Rightarrow> Inl e
     | Inr (k, rng') \<Rightarrow>
         (case PublicPointOf g k of Inl e \<Rightarrow> Inl e | Inr pub \<Rightarrow> Inr ((k, pub), rng')))"

definition checkKeyPair :: "group_ops \<Rightarrow> bytes \<Rightarrow> bytes \<Rightarrow> unit res" where
  "checkKeyPair g k expectedPublic =
    (case PublicPointOf g k of
       Inl e \<Rightarrow> Inl e
     | Inr got \<Rightarrow>
         if got \<noteq> expectedPublic then
           Inl (Err (''mobile: this phone'' @ [CHR 0x27] @ ''s saved key does not belong to its public point''))
         else Inr ())"

definition refusing :: string where
  "refusing = ''mobile: refusing the machine'' @ [CHR 0x27] @ ''s challenge''"

definition xOnlyAnswer :: "group_ops \<Rightarrow> bytes \<Rightarrow> bytes \<Rightarrow> bytes res" where
  "xOnlyAnswer g point k =
    (case ValidateChallengePoint g point of
       Inl e \<Rightarrow> Inl (withKind FailureProtocol (wrap refusing e))
     | Inr _ \<Rightarrow>
    (case ValidatePrivateScalar k of
       Inl e \<Rightarrow> Inl (wrap ''mobile'' e)
     | Inr _ \<Rightarrow>
    (case ScalarMult g point k of
       Inl e \<Rightarrow> Inl (wrap ''mobile: key agreement'' e)
     | Inr product \<Rightarrow>
         if length product \<noteq> uncompressedPointLen \<or> product ! 0 \<noteq> 4 then
           Inl (Err (''mobile: key agreement gave '' @ show_nat (length product) @ '' bytes, not a point''))
         else Inr (take coordLen (drop 1 product)))))"

section \<open>A challenge of its own, for the phone's test of its key\<close>

record phone_challenge =
  chRec :: recipient
  chE :: bytes
  chX :: bytes
  chSecret :: bytes

definition EnrolAndChallenge :: "group_ops \<Rightarrow> crypto \<Rightarrow> bytes \<Rightarrow> bytes \<Rightarrow> (phone_challenge \<times> bytes) res" where
  "EnrolAndChallenge g C S rng =
    (case Enrol g C S rng of
       Inl e \<Rightarrow> Inl (wrap ''mobile: enrol'' e)
     | Inr (secret, rec, rng1) \<Rightarrow>
         (case ChallengeStart g (rC rec) rng1 of
            Inl e \<Rightarrow> Inl (wrap ''mobile: challenge'' e)
          | Inr (e, x, rng2) \<Rightarrow> Inr (\<lparr>chRec = rec, chE = e, chX = x, chSecret = secret\<rparr>, rng2)))"

definition challenge_Finish :: "group_ops \<Rightarrow> crypto \<Rightarrow> phone_challenge \<Rightarrow> bytes \<Rightarrow> bytes res" where
  "challenge_Finish g C c xOnly = FinishXOnly g C (chE c) (chRec c) xOnly"

definition FinishWithScalar :: "group_ops \<Rightarrow> crypto \<Rightarrow> phone_challenge \<Rightarrow> bytes \<Rightarrow> bytes res" where
  "FinishWithScalar g C c k =
    (case xOnlyAnswer g (chX c) k of Inl e \<Rightarrow> Inl e | Inr xOnly \<Rightarrow> challenge_Finish g C c xOnly)"

text \<open>\<open>Recipient.FinishXOnly\<close>: the scalar and the recipient are the caller's.\<close>

definition mobile_FinishXOnly :: "group_ops \<Rightarrow> crypto \<Rightarrow> recipient \<Rightarrow> bytes \<Rightarrow> bytes \<Rightarrow> bytes res" where
  "mobile_FinishXOnly g C r e xOnly =
    FinishXOnly g C e \<lparr>Kid = Kid r, rS = rS r, rC = rC r, Ciphertext = Ciphertext r, Nonce = Nonce r, Transport = None\<rparr> xOnly"

section \<open>The session\<close>

definition machineNameMaxRunes :: int where "machineNameMaxRunes = 64"
definition machineErrorMaxRunes :: int where "machineErrorMaxRunes = 200"

text \<open>\<open>seArmed\<close> is whether there is a \<open>cancel\<close> function to call.\<close>

record session =
  seCancelled :: bool
  seArmed :: bool
  seFailure :: lastFailure
  seProgress :: progress
  seSeed :: string
  seMachineID :: string
  seDirectAddr :: string
  seTimeout :: int
  seNetwork :: NetworkConfig
  seConn :: "conn option"
  seMachineName :: string
  seKid :: bytes
  seX :: bytes
  seAnswered :: bool

definition NewSession :: "string \<Rightarrow> string \<Rightarrow> session" where
  "NewSession machineDeviceID seed =
    \<lparr>seCancelled = False, seArmed = False, seFailure = \<lparr>lfKind = 0, lfDetail = []\<rparr>,
     seProgress = zero_progress, seSeed = seed, seMachineID = TrimSpace machineDeviceID,
     seDirectAddr = [], seTimeout = defaultTimeoutSeconds,
     seNetwork = NetworkConfig0,
     seConn = None, seMachineName = [], seKid = [], seX = [], seAnswered = False\<rparr>"

definition SetDirectAddr :: "string \<Rightarrow> session \<Rightarrow> session" where
  "SetDirectAddr addr s = s\<lparr>seDirectAddr := addr\<rparr>"

definition SetDiscovery :: "'a netlib_scheme \<Rightarrow> string \<Rightarrow> session \<Rightarrow> unit res \<times> session" where
  "SetDiscovery L disc s =
    (case ParseDialerNetworkConfig L disc [] of
       Inl e \<Rightarrow> (Inl (wrap ''mobile'' e), s)
     | Inr network \<Rightarrow> (Inr (), s\<lparr>seNetwork := network\<rparr>))"

definition SetTimeoutSeconds :: "int \<Rightarrow> session \<Rightarrow> session" where
  "SetTimeoutSeconds n s = s\<lparr>seTimeout := (if n \<le> 0 then defaultTimeoutSeconds else n)\<rparr>"

abbreviation on_progress :: "(progress \<Rightarrow> progress) \<Rightarrow> session \<Rightarrow> session" where
  "on_progress f s \<equiv> s\<lparr>seProgress := f (seProgress s)\<rparr>"

text \<open>The transports of a dial, each with the leg number its progress is reported under.\<close>

datatype leg = LocalLeg | RelayLeg

definition newProgressDialTransport :: "string \<Rightarrow> (leg \<times> nat) list" where
  "newProgressDialTransport directAddr =
    (if directAddr \<noteq> [] then [(RelayLeg, 0)] else [(LocalLeg, 0), (RelayLeg, 1)])"

text \<open>
  One attempt: what the dial reported and came to, when it was made, and whether \<open>Cancel\<close> was called
  while it ran, the context was done when it had failed, or \<open>Cancel\<close> was called during that wait.
\<close>

record attempt =
  caHooks :: "(nat \<times> Route \<times> DialPhase) list"
  caWinner :: "nat option"
  caDialled :: "conn res"
  caConnectedAt :: int
  caCancel :: bool
  caCtxDone :: bool
  caCancelLate :: bool

definition dial_progress :: "attempt \<Rightarrow> progress \<Rightarrow> progress" where
  "dial_progress a p =
    (let p1 = fold (\<lambda>(leg, route, phase). dialHook leg route phase) (caHooks a) p in
     case caWinner a of None \<Rightarrow> p1 | Some leg \<Rightarrow> won leg p1)"

definition closeLocked :: "session \<Rightarrow> session" where
  "closeLocked s = s\<lparr>seConn := None\<rparr>"

definition readRecoverRequestLocked :: "group_ops \<Rightarrow> conn \<Rightarrow> session \<Rightarrow> unit res \<times> session" where
  "readRecoverRequestLocked g c s =
    (case ReadMessage request_of_json c of
       (Inl e, c1) \<Rightarrow>
         (Inl (withKind FailureHungUp (wrap ''mobile: reading recovery request'' e)), closeLocked s)
     | (Inr req, c1) \<Rightarrow>
         if reqX req = [] then
           (Inl (withKind FailureProtocol
              (Err ''mobile: machine sent a recovery request with no challenge point'')), closeLocked s)
         else
           (case ValidateChallengePoint g (reqX req) of
              Inl e \<Rightarrow> (Inl (wrap refusing e), closeLocked s)
            | Inr _ \<Rightarrow>
                (Inr (), on_progress (advance StageRequestReady)
                   (s\<lparr>seConn := Some c1, seKid := reqKid req, seX := reqX req\<rparr>))))"

definition connectOnceLocked :: "group_ops \<Rightarrow> attempt \<Rightarrow> session \<Rightarrow> unit res \<times> session" where
  "connectOnceLocked g a s =
    (let s1 = on_progress (dial_progress a \<circ> beginAttempt (firstStage (seDirectAddr s))) s in
     case caDialled a of
       Inl e \<Rightarrow> (Inl (wrap (''mobile: dialling '' @ seMachineID s) e), s1)
     | Inr c \<Rightarrow>
         (let s2 = (if seDirectAddr s \<noteq> [] then on_progress (won 0) s1 else s1);
              s3 = on_progress (markConnected (caConnectedAt a) \<circ> advance StageWaitingForRequest) s2 in
          case ReadMessage hello_of_json c of
            (Inl e, c1) \<Rightarrow> (Inl (wrap ''mobile: reading hello'' e), closeLocked s3)
          | (Inr hello, c1) \<Rightarrow>
              readRecoverRequestLocked g c1
                (s3\<lparr>seConn := Some c1, seMachineName := SafeLabel (helloName hello) machineNameMaxRunes\<rparr>)))"

definition errCancelled :: goerr where
  "errCancelled = withKind FailureCancelled (Err ''mobile: cancelled'')"

definition cancelled_by :: "bool \<Rightarrow> session \<Rightarrow> session" where
  "cancelled_by c s = s\<lparr>seCancelled := seCancelled s \<or> c\<rparr>"

text \<open>The attempts until the loop returns; \<open>None\<close> while it is still trying.\<close>

fun connect_loop :: "group_ops \<Rightarrow> attempt list \<Rightarrow> session \<Rightarrow> unit res option \<times> session" where
  "connect_loop g [] s = (None, s)"
| "connect_loop g (a # as) s =
    (case connectOnceLocked g a s of
       (Inr u, s1) \<Rightarrow> (Some (Inr u), cancelled_by (caCancel a) s1)
     | (Inl e, s1) \<Rightarrow>
         (let s2 = cancelled_by (caCancel a) s1; s3 = cancelled_by (caCancelLate a) s2 in
          if seCancelled s2 then (Some (Inl errCancelled), s2)
          else if caCtxDone a then
            (if seCancelled s3 then (Some (Inl errCancelled), s3)
             else
               (Some (Inl (withKind FailureUnreachable
                  (Wrap (''mobile: gave up dialling '' @ seMachineID s @ '' after '' @ show_int (seTimeout s) @
                     ''s (last attempt: '') e '')''))), s3))
          else connect_loop g as s3))"

definition armCancel :: "bool \<Rightarrow> session \<Rightarrow> bool \<times> session" where
  "armCancel arm s = (if arm \<and> seCancelled s then (False, s) else (True, s\<lparr>seArmed := arm\<rparr>))"

definition recorded :: "unit res \<Rightarrow> session \<Rightarrow> session" where
  "recorded r s = s\<lparr>seFailure := failure_record r (seFailure s)\<rparr>"

definition connect_body :: "group_ops \<Rightarrow> (string \<Rightarrow> 'c res) \<Rightarrow> attempt list \<Rightarrow> session \<Rightarrow> unit res option \<times> session" where
  "connect_body g Gen as s =
    (if seConn s \<noteq> None then (Some (Inl (Err ''mobile: session already connected'')), s)
     else if seMachineID s = [] then (Some (Inl (Err ''mobile: no machine device ID to dial'')), s)
     else
       (case certForSeed Gen (seSeed s) of
          Inl e \<Rightarrow> (Some (Inl e), s)
        | Inr _ \<Rightarrow>
            (case armCancel True (on_progress (advance StageStarting) s) of
               (False, s1) \<Rightarrow> (Some (Inl errCancelled), s1)
             | (True, s1) \<Rightarrow>
                 (case connect_loop g as s1 of
                    (None, s2) \<Rightarrow> (None, s2)
                  | (Some r, s2) \<Rightarrow> (Some r, snd (armCancel False s2))))))"

definition session_Connect :: "group_ops \<Rightarrow> (string \<Rightarrow> 'c res) \<Rightarrow> attempt list \<Rightarrow> session \<Rightarrow> unit res option \<times> session" where
  "session_Connect g Gen as s =
    (case connect_body g Gen as s of
       (None, s1) \<Rightarrow> (None, s1)
     | (Some r, s1) \<Rightarrow> (Some r, recorded r s1))"

section \<open>Answering\<close>

definition replyTimeout :: duration where "replyTimeout = 60 * Second"

definition errNoReply :: goerr where
  "errNoReply = withKind FailureNoReply (Err ''the machine did not answer'')"

text \<open>The verdict that was read, and whether the timer had fired by then.\<close>

definition withReplyTimeoutLocked :: "bool \<Rightarrow> 'm res \<times> conn \<Rightarrow> 'm res \<times> conn" where
  "withReplyTimeoutLocked fired x =
    (case x of
       (Inl e, c) \<Rightarrow>
         (Inl (if fired then withKind FailureNoReply (Wrap [] errNoReply ('' within '' @ duration_string replyTimeout))
               else e), c)
     | (Inr m, c) \<Rightarrow> (Inr m, c))"

definition verdict :: "recover_result res \<Rightarrow> unit res" where
  "verdict q =
    (case q of
       Inl e \<Rightarrow> Inl (withKind FailureOutcomeUnknown
         (wrap ''mobile: answer sent, but the machine did not report the outcome, so it may or may not have unlocked'' e))
     | Inr result \<Rightarrow>
         if \<not> resOK result then
           (let reason = SafeLabel (resError result) machineErrorMaxRunes in
            Inl (withKindDetail FailureAnswerRejected reason
              (Err (''mobile: the machine could not use the answer: '' @ reason))))
         else Inr ())"

definition answer_body :: "group_ops \<Rightarrow> bool \<Rightarrow> bytes \<Rightarrow> session \<Rightarrow> unit res \<times> session" where
  "answer_body g fired xOnly s =
    (case seConn s of
       None \<Rightarrow> (Inl (Err ''mobile: not connected''), s)
     | Some c \<Rightarrow>
         if seX s = [] then (Inl (Err ''mobile: no recovery request to answer''), s)
         else
           (case ValidateChallengePoint g (seX s) of
              Inl e \<Rightarrow> (Inl (withKind FailureProtocol (wrap refusing e)), s)
            | Inr _ \<Rightarrow>
                if seAnswered s then (Inl (Err ''mobile: this request has already been answered''), s)
                else if length xOnly \<noteq> coordLen then
                  (Inl (Err (''mobile: expected a '' @ show_nat coordLen @ ''-byte x-coordinate, got '' @
                     show_nat (length xOnly) @ '' bytes'')), s)
                else
                  (let s1 = on_progress (advance StageSendingAnswer) s in
                   case WriteMessage (response_to_json \<lparr>respY = [], respXOnly = xOnly, respError = []\<rparr>) c of
                     (Inl e, c1) \<Rightarrow>
                       (Inl (withKind FailureHungUp (wrap ''mobile: sending answer'' e)), s1\<lparr>seConn := Some c1\<rparr>)
                   | (Inr _, c1) \<Rightarrow>
                       (let s2 = on_progress (advance StageWaitingForVerdict) (s1\<lparr>seAnswered := True\<rparr>) in
                        case withReplyTimeoutLocked fired (ReadMessage result_of_json c1) of
                          (q, c2) \<Rightarrow>
                            (verdict q,
                             (if verdict q = Inr () then on_progress (advance StageUnlocked) else (\<lambda>s. s))
                               (s2\<lparr>seConn := Some c2\<rparr>))))))"

definition answerXOnly :: "group_ops \<Rightarrow> bool \<Rightarrow> bytes \<Rightarrow> session \<Rightarrow> unit res \<times> session" where
  "answerXOnly g fired xOnly s = (case answer_body g fired xOnly s of (r, s1) \<Rightarrow> (r, recorded r s1))"

definition AnswerWithScalar :: "group_ops \<Rightarrow> bool \<Rightarrow> bytes \<Rightarrow> bytes \<Rightarrow> session \<Rightarrow> unit res \<times> session" where
  "AnswerWithScalar g fired k expectedPublic s =
    (case (case checkKeyPair g k expectedPublic of
             Inl e \<Rightarrow> (Inl (withKind FailureKeyMismatch e), s)
           | Inr _ \<Rightarrow>
               if seX s = [] then (Inl (Err ''mobile: no recovery request to answer''), s)
               else
                 (case xOnlyAnswer g (seX s) k of
                    Inl e \<Rightarrow> (Inl e, s)
                  | Inr xOnly \<Rightarrow> answerXOnly g fired xOnly s)) of
       (r, s1) \<Rightarrow> (r, recorded r s1))"

definition Decline :: "string \<Rightarrow> session \<Rightarrow> unit res \<times> session" where
  "Decline reason s =
    (case seConn s of
       None \<Rightarrow> (Inl (Err ''mobile: not connected''), s)
     | Some c \<Rightarrow>
         (let said = (if reason = [] then ''declined by the key holder'' else reason) in
          case WriteMessage (response_to_json \<lparr>respY = [], respXOnly = [], respError = said\<rparr>) c of
            (Inl e, c1) \<Rightarrow> (Inl (wrap ''mobile: sending decline'' e), s\<lparr>seConn := Some c1\<rparr>)
          | (Inr _, c1) \<Rightarrow> (Inr (), s\<lparr>seConn := Some c1, seAnswered := True\<rparr>)))"

text \<open>A cancel or close that finds no call in progress; those that do are part of the attempts.\<close>

definition session_Cancel :: "session \<Rightarrow> session" where
  "session_Cancel s = s\<lparr>seCancelled := True\<rparr>"

definition session_Close :: "unit res \<Rightarrow> session \<Rightarrow> unit res \<times> session" where
  "session_Close closeErr s =
    (let s1 = session_Cancel s in
     case seConn s1 of None \<Rightarrow> (Inr (), s1) | Some _ \<Rightarrow> (closeErr, closeLocked s1))"

definition session_LastFailure :: "session \<Rightarrow> nat" where
  "session_LastFailure s = lfKind (seFailure s)"

definition HasRequest :: "session \<Rightarrow> bool" where
  "HasRequest s \<longleftrightarrow> length (seX s) > 0"

definition session_LastFailureDetail :: "session \<Rightarrow> string" where
  "session_LastFailureDetail s = lfDetail (seFailure s)"

definition session_Stage :: "session \<Rightarrow> nat" where
  "session_Stage s = fst (snapshot (seProgress s))"

definition session_Attempt :: "session \<Rightarrow> nat" where
  "session_Attempt s = fst (snd (snapshot (seProgress s)))"

definition session_Route :: "session \<Rightarrow> nat" where
  "session_Route s = snd (snd (snapshot (seProgress s)))"

definition MachineName :: "session \<Rightarrow> string" where
  "MachineName s = seMachineName s"

definition RequestKid :: "session \<Rightarrow> bytes" where
  "RequestKid s = seKid s"

definition RequestPoint :: "session \<Rightarrow> bytes" where
  "RequestPoint s = seX s"

definition session_PeerID :: "session \<Rightarrow> string" where
  "session_PeerID s = (case seConn s of None \<Rightarrow> [] | Some c \<Rightarrow> PeerID c)"

end
