(* ===== verification/PhoneSpec.thy ===== *)
theory PhoneSpec
  imports PhoneSession
begin

text \<open>
  What a session promises, as a machine of four states, and the proof that the session of theory
  \<open>PhoneSession\<close> keeps to it under every sequence of calls.
\<close>

section \<open>The calls\<close>

datatype session_op =
    DoSetDirectAddr string
  | DoSetDiscovery string
  | DoSetTimeout int
  | DoConnect "attempt list"
  | DoAnswer bool bytes bytes
  | DoDecline string
  | DoCancel
  | DoClose "unit res"

definition session_do ::
    "'a netlib_scheme \<Rightarrow> group_ops \<Rightarrow> (string \<Rightarrow> 'c res) \<Rightarrow> session_op \<Rightarrow> session \<Rightarrow> unit res option \<times> session" where
  "session_do L g Gen op s =
    (case op of
       DoSetDirectAddr a \<Rightarrow> (Some (Inr ()), SetDirectAddr a s)
     | DoSetDiscovery d \<Rightarrow> apfst Some (SetDiscovery L d s)
     | DoSetTimeout n \<Rightarrow> (Some (Inr ()), SetTimeoutSeconds n s)
     | DoConnect as \<Rightarrow> session_Connect g Gen as s
     | DoAnswer fired k pub \<Rightarrow> apfst Some (AnswerWithScalar g fired k pub s)
     | DoDecline reason \<Rightarrow> apfst Some (Decline reason s)
     | DoCancel \<Rightarrow> (Some (Inr ()), session_Cancel s)
     | DoClose e \<Rightarrow> apfst Some (session_Close e s))"

inductive session_reachable ::
    "'a netlib_scheme \<Rightarrow> group_ops \<Rightarrow> (string \<Rightarrow> 'c res) \<Rightarrow> session \<Rightarrow> bool"
    for L :: "'a netlib_scheme" and g :: group_ops and Gen :: "string \<Rightarrow> 'c res" where
  new: "session_reachable L g Gen (NewSession machineID seed)"
| call: "session_reachable L g Gen s \<Longrightarrow> session_do L g Gen op s = (Some r, s') \<Longrightarrow>
    session_reachable L g Gen s'"

section \<open>The contract\<close>

text \<open>
  Nothing asked yet; asked for an answer to a point; answered (or declined); closed or cancelled.
  A step is labelled with the bytes put on the connection.
\<close>

datatype phone = Idle | Asked bytes | Done | Gone

abbreviation x_answer :: "bytes \<Rightarrow> json" where
  "x_answer a \<equiv> response_to_json \<lparr>respY = [], respXOnly = a, respError = []\<rparr>"

abbreviation refusal :: "string \<Rightarrow> json" where
  "refusal reason \<equiv> response_to_json \<lparr>respY = [], respXOnly = [], respError = reason\<rparr>"

inductive phone_step :: "group_ops \<Rightarrow> phone \<Rightarrow> bytes \<Rightarrow> phone \<Rightarrow> bool" for g :: group_ops where
  quiet: "phone_step g p [] p"
| is_asked: "ValidateChallengePoint g X = Inr () \<Longrightarrow> phone_step g Idle [] (Asked X)"
| answers: "xOnlyAnswer g X k = Inr a \<Longrightarrow> phone_step g (Asked X) (frame (x_answer a)) Done"
| answer_breaks: "xOnlyAnswer g X k = Inr a \<Longrightarrow> strict_prefix w (frame (x_answer a)) \<Longrightarrow>
    phone_step g (Asked X) w (Asked X)"
| declines: "p = Asked X \<or> p = Done \<Longrightarrow> reason \<noteq> [] \<Longrightarrow> phone_step g p (frame (refusal reason)) Done"
| decline_breaks: "p = Asked X \<or> p = Done \<Longrightarrow> reason \<noteq> [] \<Longrightarrow> strict_prefix w (frame (refusal reason)) \<Longrightarrow>
    phone_step g p w p"
| leaves: "phone_step g p [] Gone"

inductive_cases phone_step_DoneE: "phone_step g Done w p"
inductive_cases phone_step_GoneE: "phone_step g Gone w p"

definition abs_session :: "session \<Rightarrow> phone" where
  "abs_session s =
    (case seConn s of
       None \<Rightarrow> if seCancelled s then Gone else Idle
     | Some _ \<Rightarrow> if seAnswered s then Done else Asked (seX s))"

definition written :: "session \<Rightarrow> session \<Rightarrow> bytes" where
  "written s s' =
    (case (seConn s, seConn s') of
       (Some c, Some c') \<Rightarrow> drop (length (tx c)) (tx c')
     | _ \<Rightarrow> [])"

section \<open>Lemmas\<close>

definition session_inv :: "group_ops \<Rightarrow> session \<Rightarrow> bool" where
  "session_inv g s \<longleftrightarrow>
    (seConn s \<noteq> None \<longrightarrow> seX s \<noteq> [] \<and> ValidateChallengePoint g (seX s) = Inr ()) \<and>
    (seX s \<noteq> [] \<or> seAnswered s \<longrightarrow> seConn s \<noteq> None \<or> seCancelled s) \<and> \<not> seArmed s"

lemma ReadMessage_tx: "ReadMessage dec c = (r, c') \<Longrightarrow> tx c' = tx c \<and> PeerID c' = PeerID c"
  by (auto simp: ReadMessage_def conn_read_full_def Let_def split: if_splits sum.splits)

lemma json_print_obj: "json_print (JObj m) \<noteq> []"
  by simp

lemma WriteMessage_Inl:
  assumes "WriteMessage v c = (Inl e, c')" and "json_print v \<noteq> []"
  shows "\<exists>w. strict_prefix w (frame v) \<and> tx c' = tx c @ w"
proof -
  have "tx c' = tx c \<or> tx c' = tx c @ be_bytes 4 (length (json_print v))"
    using assms(1) by (auto simp: WriteMessage_def conn_write_def Let_def split: if_splits option.splits nat.splits)
  moreover have "strict_prefix [] (frame v)" "strict_prefix (be_bytes 4 (length (json_print v))) (frame v)"
    using assms(2) by (auto simp: frame_def strict_prefix_def bytes_of_def)
  ultimately show ?thesis by fastforce
qed

text \<open>One attempt on a session without a connection.\<close>

lemma connectOnceLocked_cases:
  assumes "connectOnceLocked g a s = (r, s')" and "seConn s = None"
  shows "seAnswered s' = seAnswered s \<and> seArmed s' = seArmed s \<and> seCancelled s' = seCancelled s \<and>
    (case r of
       Inl _ \<Rightarrow> seConn s' = None \<and> seX s' = seX s
     | Inr _ \<Rightarrow> seConn s' \<noteq> None \<and> seX s' \<noteq> [] \<and> ValidateChallengePoint g (seX s') = Inr ())"
  using assms
  by (auto simp: connectOnceLocked_def readRecoverRequestLocked_def closeLocked_def Let_def
      split: sum.splits prod.splits if_splits)

lemma connect_loop_cases:
  assumes "connect_loop g as s = (Some r, s')" and "seConn s = None"
  shows "seAnswered s' = seAnswered s \<and> seArmed s' = seArmed s \<and> (seCancelled s \<longrightarrow> seCancelled s') \<and>
    (case r of
       Inl _ \<Rightarrow> seConn s' = None \<and> seX s' = seX s
     | Inr _ \<Rightarrow> seConn s' \<noteq> None \<and> seX s' \<noteq> [] \<and> ValidateChallengePoint g (seX s') = Inr ())"
  using assms
proof (induction as arbitrary: s)
  case (Cons a as)
  obtain q s1 where o: "connectOnceLocked g a s = (q, s1)" by fastforce
  note c = connectOnceLocked_cases [OF o Cons.prems(2)]
  show ?case
  proof (cases q)
    case (Inr u)
    with Cons.prems(1) o c show ?thesis by (auto simp: cancelled_by_def)
  next
    case (Inl e)
    let ?s3 = "cancelled_by (caCancelLate a) (cancelled_by (caCancel a) s1)"
    show ?thesis
    proof (cases "seCancelled (cancelled_by (caCancel a) s1) \<or> caCtxDone a")
      case True
      with Cons.prems(1) o c Inl show ?thesis by (auto simp: cancelled_by_def Let_def split: if_splits)
    next
      case False
      with Cons.prems(1) o Inl have "connect_loop g as ?s3 = (Some r, s')" by (simp add: Let_def)
      moreover from c Inl have "seConn ?s3 = None" by (simp add: cancelled_by_def)
      ultimately show ?thesis using Cons.IH [of ?s3] c Inl by (cases r) (simp_all add: cancelled_by_def)
    qed
  qed
qed simp

lemma session_Connect_cases:
  assumes "session_Connect g Gen as s = (Some r, s')" and "session_inv g s"
  shows "seAnswered s' = seAnswered s \<and> \<not> seArmed s' \<and> (seCancelled s \<longrightarrow> seCancelled s') \<and>
    (if seConn s = None \<and> r = Inr () then
       \<not> seCancelled s \<and> seConn s' \<noteq> None \<and> seX s' \<noteq> [] \<and> ValidateChallengePoint g (seX s') = Inr ()
     else seConn s' = seConn s \<and> seX s' = seX s)"
proof -
  from assms(1) obtain s1 where b: "connect_body g Gen as s = (Some r, s1)" and s': "s' = recorded r s1"
    by (auto simp: session_Connect_def split: prod.splits option.splits)
  let ?s0 = "on_progress (advance StageStarting) s\<lparr>seArmed := True\<rparr>"
  show ?thesis
  proof (cases "(\<exists>e. r = Inl e) \<and> (s1 = s \<or> s1 = on_progress (advance StageStarting) s)")
    case True
    with s' assms(2) show ?thesis by (auto simp: recorded_def session_inv_def)
  next
    case False
    with b obtain s2 where l: "connect_loop g as ?s0 = (Some r, s2)" "s1 = snd (armCancel False s2)"
      "seConn s = None" "\<not> seCancelled s"
      by (auto simp: connect_body_def armCancel_def split: if_splits sum.splits prod.splits option.splits bool.splits)
    from l(3) have n: "seConn ?s0 = None" by simp
    from connect_loop_cases [OF l(1) n] l s' show ?thesis
      by (auto simp: recorded_def armCancel_def split: sum.splits)
  qed
qed

text \<open>What an answer does: nothing to the connection, or one answer to it, whole or broken off.\<close>

definition answer_effect :: "bytes \<Rightarrow> session \<Rightarrow> unit res \<Rightarrow> session \<Rightarrow> bool" where
  "answer_effect a s r s' \<longleftrightarrow>
    seConn s' = seConn s \<and> seAnswered s' = seAnswered s \<and> r \<noteq> Inr () \<or>
    (\<exists>c c' w. seConn s = Some c \<and> seConn s' = Some c' \<and> \<not> seAnswered s \<and> tx c' = tx c @ w \<and>
       (if seAnswered s' then w = frame (x_answer a) else strict_prefix w (frame (x_answer a)) \<and> r \<noteq> Inr ()))"

lemma answer_effect_recorded: "answer_effect a s r (recorded q s') = answer_effect a s r s'"
  by (simp add: answer_effect_def recorded_def)

lemma answer_body_cases:
  assumes "answer_body g fired a s = (r, s')"
  shows "seX s' = seX s \<and> seArmed s' = seArmed s \<and> seCancelled s' = seCancelled s \<and>
    answer_effect a s r s'"
proof (cases "\<exists>c. seConn s = Some c \<and> seX s \<noteq> [] \<and> ValidateChallengePoint g (seX s) = Inr () \<and>
    \<not> seAnswered s \<and> length a = coordLen")
  case False
  with assms show ?thesis by (auto simp: answer_body_def answer_effect_def split: option.splits sum.splits if_splits)
next
  case True
  then obtain c where c: "seConn s = Some c" "seX s \<noteq> []" "ValidateChallengePoint g (seX s) = Inr ()"
    "\<not> seAnswered s" "length a = coordLen" by blast
  obtain q c1 where w: "WriteMessage (x_answer a) c = (q, c1)" by fastforce
  obtain v c2 where v: "withReplyTimeoutLocked fired (ReadMessage result_of_json c1) = (v, c2)" by fastforce
  then have tx: "tx c2 = tx c1"
    by (auto simp: withReplyTimeoutLocked_def dest: ReadMessage_tx split: prod.splits sum.splits)
  show ?thesis
  proof (cases q)
    case (Inl e)
    from WriteMessage_Inl [OF w [unfolded Inl]] assms c w Inl show ?thesis
      by (auto simp: answer_body_def answer_effect_def response_to_json_def Let_def)
  next
    case (Inr u)
    from assms [symmetric] c w v Inr tx WriteMessage_Inr [OF w [unfolded Inr]] show ?thesis
      by (auto simp: answer_body_def answer_effect_def Let_def)
  qed
qed

lemma AnswerWithScalar_cases:
  assumes "AnswerWithScalar g fired k pub s = (r, s')"
  shows "seX s' = seX s \<and> seArmed s' = seArmed s \<and> seCancelled s' = seCancelled s \<and>
    (seConn s' = seConn s \<and> seAnswered s' = seAnswered s \<and> r \<noteq> Inr () \<or>
     (\<exists>a. xOnlyAnswer g (seX s) k = Inr a \<and> answer_effect a s r s'))"
proof (cases "checkKeyPair g k pub = Inr () \<and> seX s \<noteq> [] \<and> (\<exists>a. xOnlyAnswer g (seX s) k = Inr a)")
  case False
  with assms show ?thesis
    by (auto simp: AnswerWithScalar_def recorded_def split: sum.splits if_splits)
next
  case True
  then obtain a where a: "checkKeyPair g k pub = Inr ()" "seX s \<noteq> []" "xOnlyAnswer g (seX s) k = Inr a" by blast
  obtain q s1 where b: "answer_body g fired a s = (q, s1)" by fastforce
  from assms a b have "r = q" "s' = recorded q (recorded q s1)"
    by (auto simp: AnswerWithScalar_def answerXOnly_def)
  with answer_body_cases [OF b] a(3) show ?thesis
    by (simp add: answer_effect_recorded) (simp add: recorded_def)
qed

lemma Decline_cases:
  assumes "Decline reason s = (r, s')"
  shows "seX s' = seX s \<and> seArmed s' = seArmed s \<and> seCancelled s' = seCancelled s \<and>
    (s' = s \<or> (\<exists>c c' w said. said \<noteq> [] \<and> seConn s = Some c \<and> seConn s' = Some c' \<and> tx c' = tx c @ w \<and>
      (w = frame (refusal said) \<and> seAnswered s' \<or> strict_prefix w (frame (refusal said)) \<and> seAnswered s' = seAnswered s)))"
proof (cases "seConn s")
  case None
  with assms show ?thesis by (simp add: Decline_def)
next
  case (Some c)
  define said where "said = (if reason = [] then ''declined by the key holder'' else reason)"
  have ne: "said \<noteq> []" by (simp add: said_def)
  obtain q c1 where w: "WriteMessage (refusal said) c = (q, c1)" by fastforce
  have d: "(r, s') = (case q of Inl e \<Rightarrow> (Inl (wrap ''mobile: sending decline'' e), s\<lparr>seConn := Some c1\<rparr>)
      | Inr _ \<Rightarrow> (Inr (), s\<lparr>seConn := Some c1, seAnswered := True\<rparr>))"
    using assms Some w by (simp add: Decline_def said_def [symmetric] Let_def)
  show ?thesis
  proof (cases q)
    case (Inl e)
    from WriteMessage_Inl [OF w [unfolded Inl]] d Inl Some ne show ?thesis
      by (fastforce simp: response_to_json_def)
  next
    case (Inr u)
    from WriteMessage_Inr [OF w [unfolded Inr]] d Inr Some ne show ?thesis by auto
  qed
qed

lemma session_inv_new: "session_inv g (NewSession machineID seed)"
  by (simp add: session_inv_def NewSession_def)

lemma session_do_inv:
  assumes "session_inv g s" and "session_do L g Gen op s = (Some r, s')"
  shows "session_inv g s'"
proof (cases op)
  case (DoConnect as)
  with assms(2) have "session_Connect g Gen as s = (Some r, s')" by (simp add: session_do_def)
  from session_Connect_cases [OF this assms(1)] assms(1) show ?thesis
    by (auto simp: session_inv_def split: if_splits)
next
  case (DoAnswer fired k pub)
  with assms(2) have "AnswerWithScalar g fired k pub s = (r, s')"
    by (cases "AnswerWithScalar g fired k pub s") (simp add: session_do_def)
  from AnswerWithScalar_cases [OF this] assms(1) show ?thesis
    by (auto simp: session_inv_def answer_effect_def)
next
  case (DoDecline reason)
  with assms(2) have "Decline reason s = (r, s')" by (cases "Decline reason s") (simp add: session_do_def)
  from Decline_cases [OF this] assms(1) show ?thesis by (auto simp: session_inv_def)
qed (use assms in \<open>auto simp: session_inv_def session_do_def SetDirectAddr_def SetDiscovery_def SetTimeoutSeconds_def
    session_Cancel_def session_Close_def closeLocked_def Let_def split: sum.splits option.splits\<close>)

lemma session_reachable_inv: "session_reachable L g Gen s \<Longrightarrow> session_inv g s"
  by (induction rule: session_reachable.induct) (auto intro: session_inv_new session_do_inv)

lemma written_append: "seConn s = Some c \<Longrightarrow> seConn s' = Some c' \<Longrightarrow> tx c' = tx c @ w \<Longrightarrow> written s s' = w"
  by (simp add: written_def)

lemma refines_quietly:
  "seConn s' = seConn s \<Longrightarrow> seAnswered s' = seAnswered s \<Longrightarrow> seX s' = seX s \<Longrightarrow>
    seCancelled s' = seCancelled s \<or> seConn s' \<noteq> None \<or> seCancelled s' \<Longrightarrow>
    phone_step g (abs_session s) (written s s') (abs_session s')"
  by (cases "seConn s") (auto simp: abs_session_def written_def intro: phone_step.quiet phone_step.leaves)

lemma connect_refines:
  assumes "session_inv g s" and "session_Connect g Gen as s = (Some r, s')"
  shows "phone_step g (abs_session s) (written s s') (abs_session s')"
proof (cases "seConn s = None \<and> r = Inr ()")
  case True
  with session_Connect_cases [OF assms(2,1)] assms(1) have
    "seAnswered s' = seAnswered s" "\<not> seCancelled s" "seConn s' \<noteq> None" "\<not> seAnswered s"
    "ValidateChallengePoint g (seX s') = Inr ()"
    by (auto simp: session_inv_def)
  with True show ?thesis by (auto simp: abs_session_def written_def intro: phone_step.is_asked)
next
  case False
  with session_Connect_cases [OF assms(2,1)] show ?thesis by (intro refines_quietly) auto
qed

lemma answer_refines:
  assumes "AnswerWithScalar g fired k pub s = (r, s')"
  shows "phone_step g (abs_session s) (written s s') (abs_session s')"
proof -
  note c = AnswerWithScalar_cases [OF assms]
  show ?thesis
  proof (cases "seConn s' = seConn s \<and> seAnswered s' = seAnswered s")
    case True
    with c show ?thesis by (intro refines_quietly) auto
  next
    case False
    with c obtain a where a: "xOnlyAnswer g (seX s) k = Inr a" "answer_effect a s r s'" by blast
    from a(2) False obtain c c' w where e: "seConn s = Some c" "seConn s' = Some c'" "\<not> seAnswered s"
      "tx c' = tx c @ w"
      "if seAnswered s' then w = frame (x_answer a) else strict_prefix w (frame (x_answer a)) \<and> r \<noteq> Inr ()"
      unfolding answer_effect_def by blast
    have w: "written s s' = w" by (rule written_append [OF e(1,2,4)])
    show ?thesis
    proof (cases "seAnswered s'")
      case True
      with e w phone_step.answers [OF a(1)] show ?thesis by (simp add: abs_session_def)
    next
      case False
      with e w c phone_step.answer_breaks [OF a(1), of w] show ?thesis by (simp add: abs_session_def)
    qed
  qed
qed

lemma decline_refines:
  assumes "Decline reason s = (r, s')"
  shows "phone_step g (abs_session s) (written s s') (abs_session s')"
proof -
  note c = Decline_cases [OF assms]
  show ?thesis
  proof (cases "s' = s")
    case True
    then show ?thesis by (intro refines_quietly) auto
  next
    case False
    with c obtain c1 c2 w said where e: "said \<noteq> []" "seConn s = Some c1" "seConn s' = Some c2" "tx c2 = tx c1 @ w"
      "w = frame (refusal said) \<and> seAnswered s' \<or> strict_prefix w (frame (refusal said)) \<and> seAnswered s' = seAnswered s"
      by blast
    have w: "written s s' = w" by (rule written_append [OF e(2-4)])
    have p: "abs_session s = Asked (seX s) \<or> abs_session s = Done" using e(2) by (simp add: abs_session_def)
    from e(5) show ?thesis
    proof
      assume "w = frame (refusal said) \<and> seAnswered s'"
      with phone_step.declines [OF p e(1)] e(3) w show ?thesis by (simp add: abs_session_def)
    next
      assume b: "strict_prefix w (frame (refusal said)) \<and> seAnswered s' = seAnswered s"
      with c e(2,3) have "abs_session s' = abs_session s" by (simp add: abs_session_def)
      with phone_step.decline_breaks [OF p e(1)] b w show ?thesis by simp
    qed
  qed
qed

text \<open>What the contract rules out.\<close>

lemma asked_at_most_once: "phone_step g p w q \<Longrightarrow> p \<noteq> Idle \<Longrightarrow> q \<noteq> Idle \<and> (p = Done \<or> p = Gone \<longrightarrow> q = p \<or> q = Gone)"
  by (auto elim: phone_step.cases)

lemma answered_at_most_once: "phone_step g Done w q \<Longrightarrow> w = [] \<or> (\<exists>reason. reason \<noteq> [] \<and> prefix w (frame (refusal reason)))"
  by (erule phone_step_DoneE) auto

lemma gone_is_silent: "phone_step g Gone w q \<Longrightarrow> w = [] \<and> q = Gone"
  by (erule phone_step_GoneE) auto

section \<open>Properties\<close>

text \<open>
  C28. A phone session keeps its contract: whatever was called before, every call is a step of the
  four-state machine.  So it is asked at most once in its life, only by a machine that sent a valid
  challenge point; while asked it puts one answer on the connection, and that is the x-coordinate
  of a multiple of the point it was asked for; after an answer it only ever declines again, and
  once closed or cancelled it stays silent and cannot connect again.
\<close>

theorem session_refines:
  assumes "session_reachable L g Gen s" and "session_do L g Gen op s = (Some r, s')"
  shows "phone_step g (abs_session s) (written s s') (abs_session s')"
proof -
  note inv = session_reachable_inv [OF assms(1)]
  show ?thesis
  proof (cases op)
    case (DoConnect as)
    with assms(2) show ?thesis by (intro connect_refines [OF inv]) (simp add: session_do_def)
  next
    case (DoAnswer fired k pub)
    with assms(2) show ?thesis
      by (intro answer_refines [of g fired k pub s r]) (cases "AnswerWithScalar g fired k pub s", simp add: session_do_def)
  next
    case (DoDecline reason)
    with assms(2) show ?thesis
      by (intro decline_refines [of reason s r]) (cases "Decline reason s", simp add: session_do_def)
  next
    case (DoClose e)
    with assms(2) show ?thesis
      by (auto simp: session_do_def session_Close_def session_Cancel_def closeLocked_def Let_def abs_session_def
          written_def intro: phone_step.quiet phone_step.leaves split: option.splits)
  qed (use assms(2) in \<open>auto simp: session_do_def SetDirectAddr_def SetDiscovery_def SetTimeoutSeconds_def
      session_Cancel_def intro!: refines_quietly split: sum.splits\<close>)
qed

end
