(* ===== verification/PhoneRecovery.thy ===== *)
theory PhoneRecovery
  imports PhoneSpec
begin

text \<open>
  A phone session against the machine of theory \<open>Exchange\<close>, and what the phone says about an
  answer that failed.
\<close>

section \<open>Connecting to a machine that asks\<close>

lemma phase_stage_bound: "phase_stage ph \<le> 4"
  by (cases ph) (simp_all add: phase_stage_def stage_defs)

lemma pgStage_advance: "pgStage (advance st p) = max (pgStage p) st"
  by (simp add: advance_def setLocked_def)

lemma pgStage_won: "pgStage (won leg p) = pgStage p"
  by (auto simp: won_def split: option.splits Route.splits)

lemma pgStage_dial: "pgStage (dial_progress a p) \<le> max (pgStage p) 4"
proof -
  have "pgStage (fold (\<lambda>(leg, route, phase). dialHook leg route phase) hs p) \<le> max (pgStage p) 4" for hs
  proof (induction hs arbitrary: p)
    case (Cons h hs)
    obtain leg route ph where h: "h = (leg, route, ph)" by (cases h)
    have "pgStage (dialHook leg route ph p) \<le> max (pgStage p) 4"
      using phase_stage_bound [of ph] by (simp add: dialHook_def pgStage_advance)
    with Cons.IH [of "dialHook leg route ph p"] show ?case by (simp add: h)
  qed simp
  then show ?thesis by (auto simp: dial_progress_def Let_def pgStage_won split: option.splits)
qed

lemma pgStage_begin: "pgStage (beginAttempt first p) = first"
  by (simp add: beginAttempt_def setLocked_def)

text \<open>Greeted and asked, the session connects and keeps the machine's point.\<close>

lemma Connect_on:
  assumes rx: "rx c = frame (hello_to_json g0) @ frame (request_to_json q) @ rest"
    and ok: "valid_utf8 (helloName g0)" "length (json_print (hello_to_json g0)) \<le> maxMessageSize"
      "length (json_print (request_to_json q)) \<le> maxMessageSize"
    and X: "reqX q \<noteq> []" "ValidateChallengePoint g (reqX q) = Inr ()"
    and s: "seConn s = None" "seMachineID s \<noteq> []" "\<not> seCancelled s" "TrimSpace (seSeed s) \<noteq> []"
      "Gen (seSeed s) = Inr cert" "caDialled a = Inr c"
  shows "\<exists>s'. session_Connect g Gen (a # as) s = (Some (Inr ()), s') \<and>
    seConn s' = Some (c\<lparr>rx := rest\<rparr>) \<and> seX s' = reqX q \<and> seKid s' = reqKid q \<and>
    seAnswered s' = seAnswered s \<and> pgStage (seProgress s') = StageRequestReady"
proof -
  have 1: "ReadMessage hello_of_json c = (Inr g0, c\<lparr>rx := frame (request_to_json q) @ rest\<rparr>)"
    by (rule hello.read_written [OF ok(1,2) rx])
  have 2: "ReadMessage request_of_json (c\<lparr>rx := frame (request_to_json q) @ rest\<rparr>) = (Inr q, c\<lparr>rx := rest\<rparr>)"
    using request.read_written [OF TrueI ok(3), of "c\<lparr>rx := frame (request_to_json q) @ rest\<rparr>"] by simp
  let ?s0 = "on_progress (advance StageStarting) s\<lparr>seArmed := True\<rparr>"
  let ?p = "(if seDirectAddr s \<noteq> [] then won 0 else (\<lambda>p. p))
      (dial_progress a (beginAttempt (firstStage (seDirectAddr s)) (seProgress ?s0)))"
  have "pgStage ?p \<le> 4"
    using pgStage_dial [of a "beginAttempt (firstStage (seDirectAddr s)) (seProgress ?s0)"]
    by (simp add: pgStage_won pgStage_begin firstStage_def stage_defs split: if_splits)
  then have stage: "pgStage (advance StageRequestReady (markConnected (caConnectedAt a) (advance StageWaitingForRequest ?p))) =
      StageRequestReady"
    by (simp add: pgStage_advance markConnected_def stage_defs)
  obtain s1 where s1: "connectOnceLocked g a ?s0 = (Inr (), s1)" "seConn s1 = Some (c\<lparr>rx := rest\<rparr>)"
    "seX s1 = reqX q" "seKid s1 = reqKid q" "seAnswered s1 = seAnswered s"
    "seProgress s1 = advance StageRequestReady (markConnected (caConnectedAt a) (advance StageWaitingForRequest ?p))"
    using s(6) X by (simp add: connectOnceLocked_def readRecoverRequestLocked_def Let_def 1 2)
  show ?thesis
    using s s1 stage
    by (simp add: session_Connect_def connect_body_def certForSeed_def armCancel_def cancelled_by_def recorded_def)
qed

text \<open>With the key the machine enrolled, the session puts its answer out and reads the verdict.\<close>

lemma Answer_on:
  assumes s: "seConn s = Some c" "rx c = rest" "seX s \<noteq> []" "\<not> seAnswered s"
      "pgStage (seProgress s) = StageRequestReady"
    and key: "checkKeyPair g k pub = Inr ()" and a: "xOnlyAnswer g (seX s) k = Inr a" "length a = coordLen"
    and w: "writes_left c = None" "length (json_print (x_answer a)) \<le> maxMessageSize"
    and run: "AnswerWithScalar g False k pub s = (r, s')"
  shows "\<exists>c'. seConn s' = Some c' \<and> tx c' = tx c @ frame (x_answer a) \<and>
    (\<forall>m. valid_utf8 (resError m) \<longrightarrow> length (json_print (result_to_json m)) \<le> maxMessageSize \<longrightarrow>
       rest = frame (result_to_json m) \<longrightarrow> resOK m \<longrightarrow>
       r = Inr () \<and> session_LastFailure s' = FailureNone \<and> pgStage (seProgress s') = StageUnlocked)"
proof -
  from a(1) have X: "ValidateChallengePoint g (seX s) = Inr ()" by (auto simp: xOnlyAnswer_def split: sum.splits)
  let ?c1 = "c\<lparr>tx := tx c @ frame (x_answer a)\<rparr>"
  have 1: "WriteMessage (x_answer a) c = (Inr (), ?c1)" by (rule WriteMessage_ok [OF w(2,1)])
  obtain q c2 where 2: "ReadMessage result_of_json ?c1 = (q, c2)" by fastforce
  from ReadMessage_tx [OF 2] have tx: "tx c2 = tx c @ frame (x_answer a)" by simp
  have v: "withReplyTimeoutLocked False (q, c2) = (q, c2)"
    by (cases q) (simp_all add: withReplyTimeoutLocked_def)
  let ?s2 = "on_progress (advance StageWaitingForVerdict \<circ> advance StageSendingAnswer) s\<lparr>seAnswered := True, seConn := Some c2\<rparr>"
  let ?s3 = "(if verdict q = Inr () then on_progress (advance StageUnlocked) else (\<lambda>s. s)) ?s2"
  have "answer_body g False a s = (verdict q, ?s3)"
    using s X a(2) by (simp add: answer_body_def Let_def 1 2 v)
  with run key a(1) s(3) have rs: "r = verdict q" "s' = recorded (verdict q) (recorded (verdict q) ?s3)"
    by (auto simp: AnswerWithScalar_def answerXOnly_def)
  have "r = Inr () \<and> session_LastFailure s' = FailureNone \<and> pgStage (seProgress s') = StageUnlocked"
    if "valid_utf8 (resError m)" "length (json_print (result_to_json m)) \<le> maxMessageSize"
      "rest = frame (result_to_json m)" "resOK m" for m
  proof -
    have "q = Inr m" using result.read_written [OF that(1,2), of ?c1 "[]"] that(3) s(2) 2 by simp
    with that(4) rs s(5) show ?thesis
      by (simp add: verdict_def recorded_def failure_record_def kindOf_def session_LastFailure_def pgStage_advance
          stage_defs)
  qed
  with rs(2) tx show ?thesis by (auto simp: recorded_def)
qed

section \<open>The phone's answer\<close>

text \<open>
  The uncompressed encoding of a point starts with its prefix byte and its x-coordinate (SEC 1),
  which is how the phone takes the x-coordinate out of the product.
\<close>

definition sec1_x :: "'p nistec \<Rightarrow> (nat \<Rightarrow> 'p) \<Rightarrow> bool" where
  "sec1_x N pt \<longleftrightarrow>
    (\<forall>k. k mod p256N \<noteq> 0 \<longrightarrow> ptBytesX N (pt k) = Inr (take 32 (drop 1 (ptBytes N (pt k)))))"

lemma xOnlyAnswer_x:
  assumes N: "nistec_ok N pt" "sec1_x N pt" and k: "length k = 32" and X: "X = ptBytes N (pt j)"
    and a: "xOnlyAnswer (p256Group N) X k = Inr a"
  shows "PointToX (p256Group N) (ptBytes N (pt (be_nat k * j))) = Inr a \<and> length a = 32"
proof -
  have m: "ScalarMult (p256Group N) X k = Inr (ptBytes N (pt (be_nat k * j)))"
    using k by (simp add: X p256_ScalarMult_def nistec_SetBytes_Bytes [OF N(1)] nistec_ScalarMult [OF N(1)] mult.commute)
  with a have l: "length (ptBytes N (pt (be_nat k * j))) = 65"
    and av: "a = take 32 (drop 1 (ptBytes N (pt (be_nat k * j))))"
    by (auto simp: xOnlyAnswer_def uncompressedPointLen_def coordLen_def split: sum.splits if_splits)
  have "(be_nat k * j) mod p256N \<noteq> 0"
  proof
    assume "(be_nat k * j) mod p256N = 0"
    then have "pt (be_nat k * j) = pt 0" using nistec_pt_eq [OF N(1)] by simp
    with l nistec_Bytes_0 [OF N(1)] show False by simp
  qed
  with N(2) have "ptBytesX N (pt (be_nat k * j)) = Inr a" by (simp add: sec1_x_def av)
  with l av show ?thesis by (simp add: p256_PointToX_def nistec_SetBytes_Bytes [OF N(1)])
qed

lemma length_x_answer: "length (json_print (x_answer a)) \<le> 24 * length a + 64"
  using length_of_bytes [of a] length_quote [of "''xOnly''"] by (simp add: response_to_json_def omitempty_def)

lemma FinishXOnly_Transport:
  "FinishXOnly g P e (rec\<lparr>Transport := t\<rparr>) x = FinishXOnly g P e rec x"
  by (simp add: FinishXOnly_def finishWithY_def split: sum.split prod.split)

section \<open>What the phone says of a failure\<close>

lemma kindOf_simps [simp]:
  "kindOf (Inr u) = (FailureNone, [])" "kindOf (Inl (withKind n e)) = (n, [])"
  "kindOf (Inl (withKindDetail n d e)) = (n, d)" "kindOf (Inl (Err m)) = (FailureOther, [])"
  by (simp_all add: kindOf_def withKind_def withKindDetail_def)

definition kind_of :: "unit res \<Rightarrow> nat" where
  "kind_of r = fst (kindOf r)"

text \<open>
  What came back for an answer that went out on the session's connection: the machine's result, or
  the error of reading one; and what the phone is to tell of it.
\<close>

definition replied :: "bytes \<Rightarrow> session \<Rightarrow> recover_result res \<Rightarrow> bool" where
  "replied a s q \<longleftrightarrow>
    (\<exists>c c1 c2. seConn s = Some c \<and> WriteMessage (x_answer a) c = (Inr (), c1) \<and> ReadMessage result_of_json c1 = (q, c2))"

fun told :: "recover_result res \<Rightarrow> nat \<times> string" where
  "told (Inl e) = (FailureOutcomeUnknown, [])"
| "told (Inr m) = (if resOK m then (FailureNone, []) else (FailureAnswerRejected, SafeLabel (resError m) 200))"

lemma verdict_told:
  assumes "withReplyTimeoutLocked fired (q, c) = (q', c')"
  shows "kindOf (verdict q') = told q \<and> (verdict q' = Inr () \<longleftrightarrow> (\<exists>m. q = Inr m \<and> resOK m))"
  using assms
  by (cases q) (auto simp: withReplyTimeoutLocked_def verdict_def Let_def machineErrorMaxRunes_def split: if_splits)

text \<open>An outcome that put an answer out, one that broke off, and one that did nothing.\<close>

definition answer_outcome :: "(bytes \<Rightarrow> bool) \<Rightarrow> session \<Rightarrow> unit res \<Rightarrow> session \<Rightarrow> bool" where
  "answer_outcome P s r s' \<longleftrightarrow>
    (seAnswered s' \<and> \<not> seAnswered s \<and>
      (\<exists>a q. P a \<and> replied a s q \<and> kindOf r = told q \<and> (r = Inr () \<longleftrightarrow> (\<exists>m. q = Inr m \<and> resOK m)))) \<or>
    (kind_of r = FailureHungUp \<and> seAnswered s' = seAnswered s) \<or>
    (kind_of r \<in> {FailureOther, FailureProtocol, FailureKeyMismatch} \<and> seConn s' = seConn s \<and> seAnswered s' = seAnswered s)"

lemma answer_outcome_recorded: "answer_outcome P s r (recorded q s') = answer_outcome P s r s'"
  by (simp add: answer_outcome_def recorded_def)

lemma told_kinds: "fst (told q) \<in> {FailureNone, FailureOutcomeUnknown, FailureAnswerRejected}"
  by (cases q) auto

lemma answer_body_outcome:
  assumes "answer_body g fired a s = (r, s')"
  shows "answer_outcome ((=) a) s r s' \<and> kind_of r \<noteq> FailureKeyMismatch"
proof (cases "\<exists>c c1. seConn s = Some c \<and> seX s \<noteq> [] \<and> ValidateChallengePoint g (seX s) = Inr () \<and>
    \<not> seAnswered s \<and> length a = coordLen \<and> WriteMessage (x_answer a) c = (Inr (), c1)")
  case True
  then obtain c c1 where c: "seConn s = Some c" "seX s \<noteq> []" "ValidateChallengePoint g (seX s) = Inr ()"
    "\<not> seAnswered s" "length a = coordLen" "WriteMessage (x_answer a) c = (Inr (), c1)" by blast
  obtain q c2 where q: "ReadMessage result_of_json c1 = (q, c2)" by fastforce
  obtain q' c3 where v: "withReplyTimeoutLocked fired (q, c2) = (q', c3)" by fastforce
  have "replied a s q" using c(1,6) q by (auto simp: replied_def)
  moreover from assms c q v have "r = verdict q'" "seAnswered s'" by (auto simp: answer_body_def Let_def)
  moreover have "kind_of r \<noteq> FailureKeyMismatch"
    using told_kinds [of q] verdict_told [OF v] calculation(2) by (auto simp: kind_of_def failure_kinds)
  ultimately show ?thesis using c(4) verdict_told [OF v] unfolding answer_outcome_def by blast
next
  case False
  with assms show ?thesis
    by (auto simp: answer_body_def answer_outcome_def kind_of_def failure_kinds Let_def
        split: option.splits sum.splits if_splits prod.splits)
qed

lemma AnswerWithScalar_outcome:
  assumes "AnswerWithScalar g fired k pub s = (r, s')"
    and "\<forall>X e. ScalarMult g X k = Inl e \<longrightarrow> as_kind e = None"
  shows "answer_outcome (\<lambda>a. xOnlyAnswer g (seX s) k = Inr a) s r s' \<and> (kind_of r = FailureKeyMismatch \<longleftrightarrow> checkKeyPair g k pub \<noteq> Inr ()) \<and>
    lfKind (seFailure s') = kind_of r \<and> lfDetail (seFailure s') = snd (kindOf r)"
proof (cases "checkKeyPair g k pub = Inr () \<and> seX s \<noteq> [] \<and> (\<exists>a. xOnlyAnswer g (seX s) k = Inr a)")
  case True
  then obtain a where a: "checkKeyPair g k pub = Inr ()" "seX s \<noteq> []" "xOnlyAnswer g (seX s) k = Inr a" by blast
  obtain q s1 where b: "answer_body g fired a s = (q, s1)" by fastforce
  from assms a b have rs: "r = q" "s' = recorded q (recorded q s1)"
    by (auto simp: AnswerWithScalar_def answerXOnly_def)
  moreover have "answer_outcome (\<lambda>a. xOnlyAnswer g (seX s) k = Inr a) s q s1" "kind_of q \<noteq> FailureKeyMismatch"
    using answer_body_outcome [OF b] a(3) unfolding answer_outcome_def by blast+
  ultimately show ?thesis using a(1)
    by (simp add: answer_outcome_recorded)
      (auto simp: recorded_def failure_record_def kind_of_def split: prod.splits)
next
  case False
  have "kind_of (Inl e) \<in> {FailureOther, FailureProtocol}" if "xOnlyAnswer g (seX s) k = Inl e" for e
    using that assms(2)
    by (auto simp: xOnlyAnswer_def kind_of_def kindOf_def withKind_def ValidatePrivateScalar_def split: sum.splits if_splits)
  with False assms(1) show ?thesis
    by (auto simp: AnswerWithScalar_def answer_outcome_def recorded_def failure_record_def kind_of_def failure_kinds
        split: sum.splits if_splits prod.splits)
qed

section \<open>Properties\<close>

text \<open>
  C27. A phone unlocks the machine: when the machine's exchange and a phone's session run over one
  connection, each reading what the other wrote, the phone is new, its key is the one the machine
  enrolled and the answer is not the point at infinity, then the session connects, its answer makes
  the machine recover the enrolled secret and deliver it, and the phone reads that and says so.
\<close>

theorem phone_unlocks:
  assumes "nistec_ok N pt" and "sec1_x N pt" and "crypto_ok (cr U)" and "aead_auth (cr U)" and "gr U = p256Group N"
    and "length k = 32" and "PublicPointOf (p256Group N) k = Inr S" and "SetBytes N S = Inr (pt (be_nat k))"
    and "Enrol (p256Group N) (cr U) S rng1 = Inr (P, rec, rng2)"
    and "matchRecipient U tok (PeerID ca) = Inr (rec\<lparr>Transport := tr\<rparr>)"
    and "testPassphrase (cs U) (luksKeyMaterial P) h = Inr ()"
    and "ChallengeStart (gr U) (rC rec) rng = Inr (e, X, rng3)"
    and "xOnlyAnswer (gr U) X k = Inr x"
    and "deliver (luksKeyMaterial P) w = (Inr (), w1)"
    and "valid_utf8 name" and "length name \<le> 10000" and "length (Kid rec) \<le> 1000"
    and "runExchange U ca tok device name deliver h w rng = (r, ca', w', rng')"
    and "TrimSpace machineID \<noteq> []" and "TrimSpace seed \<noteq> []" and "Gen seed = Inr cert"
    and "caDialled a = Inr ck"
    and "session_Connect (gr U) Gen [a] (NewSession machineID seed) = (rc, s1)"
    and "AnswerWithScalar (gr U) False k S s1 = (r2, s2)" and "seConn s2 = Some ck'"
    and "rx ca = tx ck'" and "rx ck = tx ca'" and "tx ca = []" and "tx ck = []"
    and "writes_left ca = None" and "writes_left ck = None"
  shows "rc = Some (Inr ()) \<and> r = Inr () \<and> w' = w1 \<and> r2 = Inr () \<and>
    session_LastFailure s2 = FailureNone \<and> pgStage (seProgress s2) = StageUnlocked"
proof -
  let ?rec = "rec\<lparr>Transport := tr\<rparr>"
  obtain c where c: "SetBytes N (rC rec) = Inr (pt c)" "length P = 32"
    using Enrol_p256 [OF assms(1,3,8,9)] by metis
  note ch = assms(12) [unfolded assms(5)]
  note ap = answer_p256 [OF assms(1) c(1) assms(6) ch]
  note x = xOnlyAnswer_x [OF assms(1,2,6) ap(2) assms(13) [unfolded assms(5)]]
  have fin: "FinishXOnly (gr U) (cr U) e rec x = Inr P"
    using recover_x_only_p256 [OF assms(1,3,4,6,8,9) ch ap(3)] x assms(5) by simp
  have X: "ValidateChallengePoint (gr U) X = Inr ()" "X \<noteq> []"
    using assms(13) point_bytes [OF assms(1)] ap(2) by (auto simp: xOnlyAnswer_def split: sum.splits)
  let ?q = "\<lparr>reqKid = Kid rec, reqX = X\<rparr>" and ?g = "\<lparr>helloName = name\<rparr>"
  let ?resp = "\<lparr>respY = [], respXOnly = x, respError = []\<rparr>"
  have size: "length (json_print (hello_to_json ?g)) \<le> maxMessageSize"
    "length (json_print (request_to_json ?q)) \<le> maxMessageSize" "length (json_print (x_answer x)) \<le> maxMessageSize"
    using length_hello [of ?g] length_request [of ?q] length_x_answer [of x] assms(16,17) x
      point_bytes [OF assms(1), of "c + be_nat e"] ap(2)
    by (simp_all add: maxMessageSize_def)
  have ch': "ChallengeStart (gr U) (rC ?rec) rng = Inr (e, X, rng3)" using assms(12) by simp
  have size': "length (json_print (request_to_json \<lparr>reqKid = Kid ?rec, reqX = X\<rparr>)) \<le> maxMessageSize"
    using size(2) by simp
  from runExchange_greets(1) [OF assms(10) ch' size(1) size' assms(30,18)] assms(27,28) obtain rest where
    rest: "rx ck = frame (hello_to_json ?g) @ frame (request_to_json ?q) @ rest" by auto
  from Connect_on [OF rest _ size(1,2), of "gr U" "NewSession machineID seed" Gen cert a "[]"] X assms(15,19-22)
  obtain s1' where s1: "session_Connect (gr U) Gen [a] (NewSession machineID seed) = (Some (Inr ()), s1')"
    "seConn s1' = Some (ck\<lparr>rx := rest\<rparr>)" "seX s1' = X" "\<not> seAnswered s1'"
    "pgStage (seProgress s1') = StageRequestReady"
    by (auto simp: NewSession_def)
  with assms(23) have rc: "rc = Some (Inr ())" "s1' = s1" by auto
  have key: "checkKeyPair (gr U) k S = Inr ()" using assms(5,7) by (simp add: checkKeyPair_def)
  from Answer_on [OF s1(2) [unfolded rc] _ _ s1(4,5) [unfolded rc] key _ _ _ size(3) assms(24), of rest]
    s1(3) rc(2) X(2) assms(13,25,29,31) x have k: "tx ck' = frame (x_answer x)"
    "\<forall>m. valid_utf8 (resError m) \<longrightarrow> length (json_print (result_to_json m)) \<le> maxMessageSize \<longrightarrow>
       rest = frame (result_to_json m) \<longrightarrow> resOK m \<longrightarrow>
       r2 = Inr () \<and> session_LastFailure s2 = FailureNone \<and> pgStage (seProgress s2) = StageUnlocked"
    by (auto simp: coordLen_def)
  have "finishAnswer U ?rec e ?resp = Inr P"
    using fin x c(2) by (auto simp: finishAnswer_def FinishXOnly_Transport checkSecretLength_def volumeSecretLen_def)
  from machine_accepts [OF assms(10) ch' size(1) size' size(3) assms(30,28) _ _ this assms(11,14,18)] k(1) assms(26)
  have m: "r = Inr ()" "w' = w1" "tx ca' = (frame (hello_to_json ?g) @ frame (request_to_json ?q)) @
      frame (result_to_json \<lparr>resOK = True, resError = []\<rparr>)" by simp_all
  with rest assms(27) have "rest = frame (result_to_json \<lparr>resOK = True, resError = []\<rparr>)" by simp
  with spec [OF k(2), of "\<lparr>resOK = True, resError = []\<rparr>"] length_result_ok rc(1) m(1,2) show ?thesis
    by (simp add: maxMessageSize_def)
qed

text \<open>
  C30. The kind of failure the phone reports after an answer tells what became of it.  When the
  answer went out on the session's connection, it is decided by the result that was then read from
  that connection: none exactly when the machine said it used the answer, rejected, with the
  machine's reason made safe to show, when it said it did not, and outcome unknown when no result
  could be read; and only an answer that went out is reported so.  Key mismatch is reported exactly
  when the scalar is not the enrolled one, and then, as for a refusal of the machine's point and for
  any other failure, nothing was put on the connection.
\<close>

theorem answer_failure_tells:
  assumes "AnswerWithScalar g fired k pub s = (r, s')"
    and "\<forall>X e. ScalarMult g X k = Inl e \<longrightarrow> as_kind e = None"
  shows "(session_LastFailure s' \<in> {FailureNone, FailureOutcomeUnknown, FailureAnswerRejected} \<longleftrightarrow>
      seAnswered s' \<and> \<not> seAnswered s) \<and>
    (seAnswered s' \<and> \<not> seAnswered s \<longrightarrow>
      (\<exists>a q. xOnlyAnswer g (seX s) k = Inr a \<and> replied a s q \<and>
        (r = Inr () \<longleftrightarrow> (\<exists>m. q = Inr m \<and> resOK m)) \<and>
        (case q of
           Inl e \<Rightarrow> session_LastFailure s' = FailureOutcomeUnknown
         | Inr m \<Rightarrow>
             if resOK m then session_LastFailure s' = FailureNone
             else session_LastFailure s' = FailureAnswerRejected \<and>
               session_LastFailureDetail s' = SafeLabel (resError m) 200 \<and> safe_text (session_LastFailureDetail s')))) \<and>
    (r = Inr () \<longleftrightarrow> session_LastFailure s' = FailureNone) \<and>
    (session_LastFailure s' = FailureKeyMismatch \<longleftrightarrow> checkKeyPair g k pub \<noteq> Inr ()) \<and>
    (session_LastFailure s' \<in> {FailureOther, FailureProtocol, FailureKeyMismatch} \<longrightarrow> seConn s' = seConn s) \<and>
    session_LastFailure s' \<noteq> FailureNoReply"
proof -
  note o = AnswerWithScalar_outcome [OF assms]
  have f: "session_LastFailure s' = kind_of r" "session_LastFailureDetail s' = snd (kindOf r)"
    using o by (simp_all add: session_LastFailure_def session_LastFailureDetail_def)
  have ok: "r = Inr () \<Longrightarrow> kind_of r = FailureNone" by (simp add: kind_of_def)
  have safe: "safe_text (SafeLabel m 200)" for m
    using SafeLabel_loop_safe by (simp add: SafeLabel_def)
  from o consider (out) a q where "seAnswered s'" "\<not> seAnswered s" "xOnlyAnswer g (seX s) k = Inr a" "replied a s q"
        "kindOf r = told q" "r = Inr () \<longleftrightarrow> (\<exists>m. q = Inr m \<and> resOK m)"
    | (broke) "kind_of r = FailureHungUp" "seAnswered s' = seAnswered s"
    | (kept) "kind_of r \<in> {FailureOther, FailureProtocol, FailureKeyMismatch}" "seConn s' = seConn s"
        "seAnswered s' = seAnswered s"
    unfolding answer_outcome_def by blast
  then show ?thesis
  proof cases
    case (out a q)
    have k: "kind_of r = fst (told q)" "snd (kindOf r) = snd (told q)" using out(5) by (simp_all add: kind_of_def)
    have "kind_of r \<in> {FailureNone, FailureOutcomeUnknown, FailureAnswerRejected}" using told_kinds k(1) by simp
    moreover have "kind_of r = FailureNone \<longleftrightarrow> r = Inr ()"
      using out(6) k(1) by (cases q) (auto simp: failure_kinds)
    moreover have "case q of
        Inl e \<Rightarrow> kind_of r = FailureOutcomeUnknown
      | Inr m \<Rightarrow> if resOK m then kind_of r = FailureNone
          else kind_of r = FailureAnswerRejected \<and> snd (kindOf r) = SafeLabel (resError m) 200 \<and> safe_text (snd (kindOf r))"
      using k safe by (cases q) auto
    moreover from this out(3,4,6) have "\<exists>a q. xOnlyAnswer g (seX s) k = Inr a \<and> replied a s q \<and>
        (r = Inr () \<longleftrightarrow> (\<exists>m. q = Inr m \<and> resOK m)) \<and>
        (case q of
           Inl e \<Rightarrow> kind_of r = FailureOutcomeUnknown
         | Inr m \<Rightarrow>
             if resOK m then kind_of r = FailureNone
             else kind_of r = FailureAnswerRejected \<and> snd (kindOf r) = SafeLabel (resError m) 200 \<and>
               safe_text (snd (kindOf r)))" by blast
    moreover have "kind_of r = FailureKeyMismatch \<longleftrightarrow> checkKeyPair g k pub \<noteq> Inr ()" using o by blast
    ultimately show ?thesis unfolding f using out(1,2) by (simp only: failure_kinds) auto
  qed (use o ok in \<open>auto simp: f failure_kinds\<close>)
qed

section \<open>A phone that unlocks\<close>

lemma zn_sec1: "sec1_x zn_nistec zn_pt"
  by (simp add: sec1_x_def zn_nistec_def zn_pt_def)

lemma scalar_2: "length (scalar 2) = 32" "be_nat (scalar 2) = 2" "ValidatePrivateScalar (scalar 2) = Inr ()"
proof -
  show l: "length (scalar 2) = 32" and b: "be_nat (scalar 2) = 2" by (simp_all only: length_be_bytes be_nat_scalar)
  have "scalarInRange (scalar 2) p256Order"
    using scalarInRange_iff [of "scalar 2" p256Order] l b be_nat_p256Order by (simp add: p256N_def)
  with l show "ValidatePrivateScalar (scalar 2) = Inr ()" by (simp add: ValidatePrivateScalar_def)
qed

lemma demo_public: "PublicPointOf (p256Group zn_nistec) (scalar 2) = Inr (ptBytes zn_nistec 2)"
  using scalar_2 by (simp add: PublicPointOf_def p256_ScalarBaseMult_def nistec_ScalarBaseMult [OF zn_nistec_ok])
    (simp add: zn_pt_def p256N_def)

lemma demo_x_answer:
  obtains rec X x where
    "Enrol (p256Group zn_nistec) plain_crypto (ptBytes zn_nistec 2) demo_rng = Inr (demo_secret, rec, [])"
    "ChallengeStart (p256Group zn_nistec) (rC rec) (scalar 5) = Inr (scalar 5, X, [])"
    "xOnlyAnswer (p256Group zn_nistec) X (scalar 2) = Inr x" "length x = 32"
proof -
  obtain rec X y x where r: "Enrol (p256Group zn_nistec) plain_crypto (ptBytes zn_nistec 2) demo_rng =
      Inr (demo_secret, rec, [])"
    "ChallengeStart (p256Group zn_nistec) (rC rec) (scalar 5) = Inr (scalar 5, X, [])"
    "ScalarMult (p256Group zn_nistec) X (scalar 2) = Inr y"
    by (rule demo_run)
  have valid: "ValidateChallengePoint (p256Group zn_nistec) X = Inr ()"
    using demo_challenge(2,3) [OF r(1)] r(2) by simp
  have X: "X = ptBytes zn_nistec (zn_pt 8)" using demo_challenge(2) [OF r(1)] r(2) by simp
  have "y = ptBytes zn_nistec (zn_pt 16)"
    using r(3) scalar_2 by (simp add: X p256_ScalarMult_def nistec_SetBytes_Bytes [OF zn_nistec_ok]
        nistec_ScalarMult [OF zn_nistec_ok])
  with nistec_Bytes_pt [OF zn_nistec_ok, of 16] have y: "length y = 65" "y ! 0 = 4" by (simp_all add: p256N_def)
  have "xOnlyAnswer (p256Group zn_nistec) X (scalar 2) = Inr (take coordLen (drop 1 y))"
    using valid r(3) y scalar_2(3) by (simp add: xOnlyAnswer_def uncompressedPointLen_def)
  with that [OF r(1,2)] y(1) show thesis by (simp add: coordLen_def)
qed

definition demo_attempt :: "conn \<Rightarrow> attempt" where
  "demo_attempt c = \<lparr>caHooks = [(0, RouteLocal, PhaseLookup), (1, RouteRelay, PhaseLookup), (1, RouteRelay, PhaseConnect)],
     caWinner = Some 1, caDialled = Inr c, caConnectedAt = 0, caCancel = False, caCtxDone = False, caCancelLate = False\<rparr>"

lemma demo_trim_M: "TrimSpace ''M'' = ''M''"
  by (rule TrimSpace_printable) (simp_all add: printable_def)

theorem phone_unlocks_witness:
  "\<exists>rec ca ca' ck ck' s1 s2. rx ca = tx ck' \<and> rx ck = tx ca' \<and>
    runExchange demo_U ca (demo_tok rec) ''/dev/sda'' ''host'' demo_deliver (demo_h1 rec) [] (scalar 5) =
      (Inr (), ca', [luksKeyMaterial demo_secret], []) \<and>
    session_Connect (p256Group zn_nistec) (\<lambda>_. Inr ()) [demo_attempt ck] (NewSession ''M'' ''M'') = (Some (Inr ()), s1) \<and>
    AnswerWithScalar (p256Group zn_nistec) False (scalar 2) (ptBytes zn_nistec 2) s1 = (Inr (), s2) \<and>
    seConn s2 = Some ck' \<and> pgStage (seProgress s2) = StageUnlocked"
proof -
  obtain rec X x where r: "Enrol (p256Group zn_nistec) plain_crypto (ptBytes zn_nistec 2) demo_rng = Inr (demo_secret, rec, [])"
    "ChallengeStart (p256Group zn_nistec) (rC rec) (scalar 5) = Inr (scalar 5, X, [])"
    "xOnlyAnswer (p256Group zn_nistec) X (scalar 2) = Inr x" "length x = 32"
    by (rule demo_x_answer)
  have kid: "length (Kid rec) \<le> 1000" using r(1) by (auto simp: Enrol_Inr plain_crypto_def)
  have S: "SetBytes zn_nistec (ptBytes zn_nistec 2) = Inr (zn_pt (be_nat (scalar 2)))"
    by (simp only: scalar_2 demo_point demo_small)
  have X: "X = ptBytes zn_nistec (zn_pt 8)" using demo_challenge(2) [OF r(1)] r(2) by simp
  have valid: "ValidateChallengePoint (p256Group zn_nistec) X = Inr ()" "X \<noteq> []" "length X \<le> 65"
    using r(3) point_bytes [OF zn_nistec_ok, of 8] by (auto simp: xOnlyAnswer_def X split: sum.splits)
  let ?q = "\<lparr>reqKid = Kid rec, reqX = X\<rparr>" and ?g = "\<lparr>helloName = ''host''\<rparr>"
  have size: "length (json_print (hello_to_json ?g)) \<le> maxMessageSize"
    "length (json_print (request_to_json ?q)) \<le> maxMessageSize" "length (json_print (x_answer x)) \<le> maxMessageSize"
    using length_hello [of ?g] length_request [of ?q] length_x_answer [of x] kid valid(3) r(4)
    by (simp_all add: maxMessageSize_def)
  let ?ca = "demo_conn (frame (x_answer x))"
  obtain ra ca' wa ga where ag: "runExchange demo_U ?ca (demo_tok rec) ''/dev/sda'' ''host'' demo_deliver
      (demo_h1 rec) [] (scalar 5) = (ra, ca', wa, ga)" by (cases rule: prod_cases4)
  have m: "matchRecipient demo_U (demo_tok rec) (PeerID ?ca) = Inr (demo_rec rec)"
    by (simp add: demo_conn_def demo_match)
  have ch: "ChallengeStart (gr demo_U) (rC (demo_rec rec)) (scalar 5) = Inr (scalar 5, X, [])"
    using r(2) by (simp add: demo_rec_def)
  have size': "length (json_print (request_to_json \<lparr>reqKid = Kid (demo_rec rec), reqX = X\<rparr>)) \<le> maxMessageSize"
    using size(2) by (simp add: demo_rec_def)
  have wl: "writes_left ?ca = None" by (simp add: demo_conn_def)
  from runExchange_greets(1) [OF m ch size(1) size' wl ag] obtain rest where
    tx: "tx ca' = frame (hello_to_json ?g) @ frame (request_to_json ?q) @ rest"
    by (auto simp: demo_conn_def demo_rec_def)
  let ?ck = "demo_conn (tx ca')"
  from Connect_on [of ?ck ?g ?q rest "p256Group zn_nistec" "NewSession ''M'' ''M''" "\<lambda>_. Inr ()" "()" "demo_attempt ?ck" "[]"]
    tx size valid obtain s1 where s1: "session_Connect (p256Group zn_nistec) (\<lambda>_. Inr ()) [demo_attempt ?ck]
      (NewSession ''M'' ''M'') = (Some (Inr ()), s1)" "seConn s1 = Some (?ck\<lparr>rx := rest\<rparr>)" "seX s1 = X" "\<not> seAnswered s1"
      "pgStage (seProgress s1) = StageRequestReady"
    by (auto simp: demo_conn_def NewSession_def demo_trim_M demo_attempt_def valid_utf8_ascii is_ascii_def)
  obtain r2 s2 where s2: "AnswerWithScalar (p256Group zn_nistec) False (scalar 2) (ptBytes zn_nistec 2) s1 = (r2, s2)"
    by fastforce
  from Answer_on [OF s1(2) _ _ s1(4,5) _ _ _ _ size(3) s2, of rest] s1(3) valid(2) r(3,4) demo_public obtain ck' where
    ck': "seConn s2 = Some ck'" "tx ck' = frame (x_answer x)"
    by (auto simp: demo_conn_def checkKeyPair_def coordLen_def)
  have rec: "demo_rec rec = rec\<lparr>Transport := Some (JObj [(''device_id'', JStr demo_phone)])\<rparr>"
    by (simp add: demo_rec_def)
  have test: "testPassphrase (cs demo_U) (luksKeyMaterial demo_secret) (demo_h1 rec) = Inr ()"
    using demo_h_ok(2) [of rec] by (simp add: mem_cs_def demo_h1_def)
  have s2': "AnswerWithScalar (gr demo_U) False (scalar 2) demo_pub s1 = (r2, s2)" using s2 by simp
  have s1': "session_Connect (gr demo_U) (\<lambda>_. Inr ()) [demo_attempt ?ck] (NewSession ''M'' ''M'') = (Some (Inr ()), s1)"
    using s1(1) by simp
  have d: "caDialled (demo_attempt ?ck) = Inr ?ck" by (simp add: demo_attempt_def)
  have "(Some (Inr ()) :: unit res option) = Some (Inr ()) \<and> ra = Inr () \<and> wa = [luksKeyMaterial demo_secret] \<and> r2 = Inr () \<and>
      session_LastFailure s2 = FailureNone \<and> pgStage (seProgress s2) = StageUnlocked"
    by (rule phone_unlocks [OF zn_nistec_ok zn_sec1 _ _ _ scalar_2(1) demo_public S _ m [unfolded rec] test _ _ _ _ _ kid ag
        _ _ _ d s1' s2' ck'(1)])
      (use r ck'(2) demo_trim_M in \<open>simp_all add: plain_crypto_ok plain_crypto_auth demo_conn_def demo_deliver_def
        valid_utf8_ascii is_ascii_def\<close>)
  moreover from ag this have "ga = []"
    using runExchange_steps [OF ag] m ch by (metis Inr_inject Inr_not_Inl Pair_inject)
  moreover have "rx ?ca = tx ck'" "rx ?ck = tx ca'" using ck'(2) by (simp_all add: demo_conn_def)
  ultimately show ?thesis using ag s1(1) s2 ck'(1) by blast
qed

theorem answer_failure_tells_witness:
  "session_LastFailure (snd (AnswerWithScalar (p256Group zn_nistec) False (scalar 2) [] (NewSession ''M'' ''M''))) =
    FailureKeyMismatch"
proof -
  obtain r s' where a: "AnswerWithScalar (p256Group zn_nistec) False (scalar 2) [] (NewSession ''M'' ''M'') = (r, s')"
    by fastforce
  have "\<forall>X e. ScalarMult (p256Group zn_nistec) X (scalar 2) = Inl e \<longrightarrow> as_kind e = None"
    by (auto simp: p256_ScalarMult_def zn_nistec_def zn_xy_def split: sum.splits if_splits)
  from answer_failure_tells [OF a this] have
    "session_LastFailure s' = FailureKeyMismatch \<longleftrightarrow> checkKeyPair (p256Group zn_nistec) (scalar 2) [] \<noteq> Inr ()"
    by blast
  moreover have "demo_pub \<noteq> []" using point_bytes [OF zn_nistec_ok, of 2] by (simp add: zn_pt_def p256N_def)
  ultimately show ?thesis using a demo_public by (simp add: checkKeyPair_def)
qed

text \<open>Asked once, the session answers once: the machine hangs up without a verdict.\<close>

theorem session_refines_witness:
  "\<exists>X x s1 s2. abs_session s1 = Asked X \<and> written s1 s2 = frame (x_answer x) \<and> abs_session s2 = Done \<and>
    phone_step (p256Group zn_nistec) (Asked X) (frame (x_answer x)) Done"
proof -
  let ?g = "p256Group zn_nistec" and ?Gen = "\<lambda>_. Inr () :: unit res" and ?h = "\<lparr>helloName = ''host''\<rparr>"
  obtain rec X x where r: "Enrol ?g plain_crypto (ptBytes zn_nistec 2) demo_rng = Inr (demo_secret, rec, [])"
    "ChallengeStart ?g (rC rec) (scalar 5) = Inr (scalar 5, X, [])"
    "xOnlyAnswer ?g X (scalar 2) = Inr x" "length x = 32"
    by (rule demo_x_answer)
  have X: "X = ptBytes zn_nistec (zn_pt 8)" using demo_challenge(2) [OF r(1)] r(2) by simp
  have valid: "ValidateChallengePoint ?g X = Inr ()" "X \<noteq> []" "length X \<le> 65"
    using r(3) point_bytes [OF zn_nistec_ok, of 8] by (auto simp: xOnlyAnswer_def X split: sum.splits)
  let ?q = "\<lparr>reqKid = [], reqX = X\<rparr>"
  let ?ck = "demo_conn (frame (hello_to_json ?h) @ frame (request_to_json ?q) @ [])"
  have size: "length (json_print (hello_to_json ?h)) \<le> maxMessageSize"
    "length (json_print (request_to_json ?q)) \<le> maxMessageSize" "length (json_print (x_answer x)) \<le> maxMessageSize"
    using length_hello [of ?h] length_request [of ?q] length_x_answer [of x] valid(3) r(4)
    by (simp_all add: maxMessageSize_def)
  from Connect_on [of ?ck ?h ?q "[]" ?g "NewSession ''M'' ''M''" ?Gen "()" "demo_attempt ?ck" "[]"] size valid
  obtain s1 where s1: "session_Connect ?g ?Gen [demo_attempt ?ck] (NewSession ''M'' ''M'') = (Some (Inr ()), s1)"
    "seConn s1 = Some (?ck\<lparr>rx := []\<rparr>)" "seX s1 = X" "\<not> seAnswered s1" "pgStage (seProgress s1) = StageRequestReady"
    by (auto simp: demo_conn_def NewSession_def demo_trim_M demo_attempt_def valid_utf8_ascii is_ascii_def)
  obtain r2 s2 where s2: "AnswerWithScalar ?g False (scalar 2) demo_pub s1 = (r2, s2)" by fastforce
  have key: "checkKeyPair ?g (scalar 2) demo_pub = Inr ()" by (simp add: checkKeyPair_def demo_public)
  from Answer_on [OF s1(2) _ _ s1(4,5) key _ _ _ size(3) s2, of "[]"] s1(3) valid(2) r(3,4) obtain c where
    c: "seConn s2 = Some c" "tx c = [] @ frame (x_answer x)" by (auto simp: demo_conn_def coordLen_def)
  have w: "written s1 s2 = frame (x_answer x)"
    using s1(2) c by (simp add: written_def demo_conn_def)
  have a1: "abs_session s1 = Asked X" using s1 by (simp add: abs_session_def)
  have "length (frame (x_answer x)) \<noteq> 0" by (simp add: frame_def)
  then have "seAnswered s2"
    using AnswerWithScalar_cases [OF s2] s1(2,3) c r(3) w
    by (auto simp: answer_effect_def demo_conn_def split: if_splits)
  then have a2: "abs_session s2 = Done" using c(1) by (simp add: abs_session_def)
  let ?L = "demo_tcp"
  have "session_reachable ?L ?g ?Gen s1"
    by (rule session_reachable.call [OF session_reachable.new, of _ _ _ "DoConnect [demo_attempt ?ck]"])
      (use s1(1) in \<open>simp add: session_do_def\<close>)
  from session_refines [OF this, of "DoAnswer False (scalar 2) demo_pub" r2 s2] s2 a1 a2 w
  have "phone_step ?g (Asked X) (frame (x_answer x)) Done" by (simp add: session_do_def)
  with a1 a2 w show ?thesis by blast
qed

end
