(* ===== verification/PhonePair.thy ===== *)
theory PhonePair
  imports PhoneRecovery PairDemo
begin

text \<open>
  A phone's side of a pairing, \<open>mobile/pair.go\<close>, alone and against the machine of theory
  \<open>PairFlow\<close>.
\<close>

section \<open>The pairer\<close>

definition defaultPairOperatorWait :: duration where
  "defaultPairOperatorWait = 5 * Minute"

definition errOperatorTimeout :: goerr where
  "errOperatorTimeout = withKind FailurePairNotConfirmed (Err ''mobile: the machine did not confirm the pairing in time'')"

record pairer =
  paCancelled :: bool
  paArmed :: bool
  paFailure :: lastFailure
  paProgress :: progress
  paNetwork :: NetworkConfig

definition NewPairer :: pairer where
  "NewPairer = \<lparr>paCancelled = False, paArmed = False, paFailure = \<lparr>lfKind = 0, lfDetail = []\<rparr>,
     paProgress = zero_progress, paNetwork = NetworkConfig0\<rparr>"

definition pairer_SetDiscovery :: "'a netlib_scheme \<Rightarrow> string \<Rightarrow> pairer \<Rightarrow> unit res \<times> pairer" where
  "pairer_SetDiscovery L disc p =
    (case ParseDialerNetworkConfig L disc [] of
       Inl e \<Rightarrow> (Inl (wrap ''mobile'' e), p)
     | Inr network \<Rightarrow> (Inr (), p\<lparr>paNetwork := network\<rparr>))"

definition pairer_Cancel :: "pairer \<Rightarrow> pairer" where
  "pairer_Cancel p = p\<lparr>paCancelled := True\<rparr>"

definition pairer_arm :: "bool \<Rightarrow> pairer \<Rightarrow> bool \<times> pairer" where
  "pairer_arm cancel p = (if cancel \<and> paCancelled p then (False, p) else (True, p\<lparr>paArmed := cancel\<rparr>))"

section \<open>Refusals\<close>

definition refused_withKind :: "string \<Rightarrow> goerr" where
  "refused_withKind reason =
    (if reason = PairRefusedCodeMismatch then withKind FailurePairCodeMismatch (PairRefusedErr reason)
     else if reason = PairRefusedDeclined then withKind FailurePairDeclined (PairRefusedErr reason)
     else withKindDetail FailurePairRefused reason (PairRefusedErr reason))"

text \<open>\<open>errors.As(lastErr, &refused)\<close>.\<close>

fun as_pairRefused :: "goerr \<Rightarrow> string option" where
  "as_pairRefused (PairRefusedErr reason) = Some reason"
| "as_pairRefused (Wrap _ e _) = as_pairRefused e"
| "as_pairRefused (Joined es) =
    (case filter (\<lambda>x. x \<noteq> None) (map as_pairRefused es) of [] \<Rightarrow> None | x # _ \<Rightarrow> x)"
| "as_pairRefused (DialErr e) = as_pairRefused e"
| "as_pairRefused (KindErr _ _ e) = as_pairRefused e"
| "as_pairRefused _ = None"

section \<open>One attempt\<close>

text \<open>
  Whom and with what: the machine, this phone's own Device ID, the code's secret, the key, the
  name, and the address if one was given.
\<close>

record pair_with =
  pwMachineID :: string
  pwSelfID :: string
  pwSecret :: bytes
  pwPublicKey :: bytes
  pwName :: string
  pwDirectAddr :: string

text \<open>\<open>confirmTimeout\<close> says that the wait for the operator was over, and \<open>Cancel\<close> not called.\<close>

definition pair_exchange ::
    "crypto \<Rightarrow> pair_with \<Rightarrow> bool \<Rightarrow> conn \<Rightarrow> progress \<Rightarrow> unit res \<times> conn \<times> progress" where
  "pair_exchange P pw confirmTimeout c p =
    (case ReadMessage challenge_of_json c of
       (Inl e, c1) \<Rightarrow> (Inl (wrap ''mobile: reading the pairing challenge'' e), c1, p)
     | (Inr challenge, c1) \<Rightarrow>
         (let proof = PairProof P (pwSecret pw) (pwMachineID pw) (pwSelfID pw) (pwPublicKey pw) (pcNonce challenge);
              req = \<lparr>prPubKey = pwPublicKey pw, prName = pwName pw, prProof = proof\<rparr>;
              p1 = advance StageSendingProof p in
          case WriteMessage (pair_request_to_json req) c1 of
            (Inl e, c2) \<Rightarrow> (Inl (wrap ''mobile: sending the pairing request'' e), c2, p1)
          | (Inr _, c2) \<Rightarrow>
              (let p2 = advance StageWaitingForOperator p1 in
               case ReadMessage result_of_json c2 of
                 (Inl e, c3) \<Rightarrow>
                   (Inl (if confirmTimeout then errOperatorTimeout
                         else wrap ''mobile: reading the pairing result'' e), c3, p2)
               | (Inr result, c3) \<Rightarrow>
                   if \<not> resOK result then (Inl (PairRefusedErr (resError result)), c3, p2)
                   else (Inr (), c3, advance StageEnrolled p2))))"

definition pairOnce ::
    "crypto \<Rightarrow> pair_with \<Rightarrow> bool \<Rightarrow> attempt \<Rightarrow> progress \<Rightarrow> unit res \<times> conn option \<times> progress" where
  "pairOnce P pw confirmTimeout a p =
    (let p1 = dial_progress a (beginAttempt (firstStage (pwDirectAddr pw)) p) in
     case caDialled a of
       Inl e \<Rightarrow> (Inl (wrap (''mobile: dialling '' @ pwMachineID pw) e), None, p1)
     | Inr c \<Rightarrow>
         (case pair_exchange P pw confirmTimeout c (if pwDirectAddr pw \<noteq> [] then won 0 p1 else p1) of
            (r, c', p') \<Rightarrow> (r, Some c', p')))"

section \<open>Pairing\<close>

definition paired_cancelled :: "bool \<Rightarrow> pairer \<Rightarrow> pairer" where
  "paired_cancelled c p = p\<lparr>paCancelled := paCancelled p \<or> c\<rparr>"

text \<open>The attempts, each with whether its wait for the operator ran out.\<close>

fun pair_loop :: "crypto \<Rightarrow> pair_with \<Rightarrow> int \<Rightarrow> (attempt \<times> bool) list \<Rightarrow> pairer \<Rightarrow> unit res option \<times> pairer" where
  "pair_loop P pw timeoutSeconds [] p = (None, p)"
| "pair_loop P pw timeoutSeconds ((a, confirmTimeout) # as) p =
    (case pairOnce P pw confirmTimeout a (paProgress p) of
       (Inr u, _, pg) \<Rightarrow> (Some (Inr u), paired_cancelled (caCancel a) (p\<lparr>paProgress := pg\<rparr>))
     | (Inl e, _, pg) \<Rightarrow>
         (let p1 = paired_cancelled (caCancel a) (p\<lparr>paProgress := pg\<rparr>);
              p2 = paired_cancelled (caCancelLate a) p1 in
          if paCancelled p1 then (Some (Inl errCancelled), p1)
          else
            (case as_pairRefused e of
               Some reason \<Rightarrow> (Some (Inl (refused_withKind reason)), p1)
             | None \<Rightarrow>
                 if e = errOperatorTimeout then (Some (Inl e), p1)
                 else if caCtxDone a then
                   (if paCancelled p2 then (Some (Inl errCancelled), p2)
                    else
                      (Some (Inl (withKind FailureUnreachable
                         (Wrap (''mobile: gave up pairing with '' @ pwMachineID pw @ '' after '' @
                            show_int timeoutSeconds @ ''s (last attempt: '') e '')''))), p2))
                 else pair_loop P pw timeoutSeconds as p2)))"

definition pair_body ::
    "crypto \<Rightarrow> (string \<Rightarrow> 'c res) \<Rightarrow> ('c \<Rightarrow> string) \<Rightarrow> string \<Rightarrow> string \<Rightarrow> string \<Rightarrow> string \<Rightarrow> string \<Rightarrow> string \<Rightarrow> int \<Rightarrow>
      (attempt \<times> bool) list \<Rightarrow> pairer \<Rightarrow> unit res option \<times> pairer" where
  "pair_body P Gen DevID machineID pairingCode seed keyHex name directAddr timeoutSeconds as p =
    (case DecodePairingSecret pairingCode of
       Inl e \<Rightarrow> (Some (Inl (withKind FailureBadPairingCode (wrap ''mobile'' e))), p)
     | Inr secret \<Rightarrow>
    (case hex_DecodeString keyHex of
       None \<Rightarrow> (Some (Inl (wrap ''mobile: the public key is not valid hex'' (Err ''encoding/hex: invalid input''))), p)
     | Some publicKey \<Rightarrow>
    (case Gen seed of
       Inl e \<Rightarrow> (Some (Inl (Wrap (''mobile: deriving this key holder'' @ [CHR 0x27] @ ''s identity: '') e [])), p)
     | Inr _ \<Rightarrow>
    (case DeviceIDForSeed Gen DevID seed of
       Inl e \<Rightarrow> (Some (Inl (wrap ''mobile'' e)), p)
     | Inr selfID \<Rightarrow>
    (case pairer_arm True p of
       (False, p1) \<Rightarrow> (Some (Inl errCancelled), p1)
     | (True, p1) \<Rightarrow>
         (case pair_loop P \<lparr>pwMachineID = machineID, pwSelfID = selfID, pwSecret = secret, pwPublicKey = publicKey,
                 pwName = name, pwDirectAddr = directAddr\<rparr> timeoutSeconds as
                 (p1\<lparr>paProgress := advance StageStarting (paProgress p1)\<rparr>) of
            (None, p2) \<Rightarrow> (None, p2)
          | (Some r, p2) \<Rightarrow> (Some r, snd (pairer_arm False p2))))))))"

definition pairer_Pair ::
    "crypto \<Rightarrow> (string \<Rightarrow> 'c res) \<Rightarrow> ('c \<Rightarrow> string) \<Rightarrow> string \<Rightarrow> string \<Rightarrow> string \<Rightarrow> string \<Rightarrow> string \<Rightarrow> string \<Rightarrow> int \<Rightarrow>
      (attempt \<times> bool) list \<Rightarrow> pairer \<Rightarrow> unit res option \<times> pairer" where
  "pairer_Pair P Gen DevID machineID pairingCode seed keyHex name directAddr timeoutSeconds as p =
    (case pair_body P Gen DevID machineID pairingCode seed keyHex name directAddr timeoutSeconds as p of
       (None, p1) \<Rightarrow> (None, p1)
     | (Some r, p1) \<Rightarrow> (Some r, p1\<lparr>paFailure := failure_record r (paFailure p1)\<rparr>))"

definition pairer_LastFailure :: "pairer \<Rightarrow> nat" where
  "pairer_LastFailure p = lfKind (paFailure p)"

definition pairer_LastFailureDetail :: "pairer \<Rightarrow> string" where
  "pairer_LastFailureDetail p = lfDetail (paFailure p)"

definition pairer_Stage :: "pairer \<Rightarrow> nat" where
  "pairer_Stage p = fst (snapshot (paProgress p))"

definition pairer_Attempt :: "pairer \<Rightarrow> nat" where
  "pairer_Attempt p = fst (snd (snapshot (paProgress p)))"

definition pairer_Route :: "pairer \<Rightarrow> nat" where
  "pairer_Route p = snd (snd (snapshot (paProgress p)))"

section \<open>What the machine tells\<close>

text \<open>Over a connection that takes what is written, the machine's last word is true.\<close>

definition pair_reasons :: "string set" where
  "pair_reasons = {PairRefusedCodeMismatch, PairRefusedInvalidKey, PairRefusedDeclined, PairRefusedEnrolFailed}"

definition last_word :: "string set \<Rightarrow> unit res \<Rightarrow> conn \<Rightarrow> conn \<Rightarrow> bool" where
  "last_word R r c c' \<longleftrightarrow>
    (\<exists>m. tx c' = tx c @ frame (result_to_json m) \<and> (resOK m \<longleftrightarrow> r = Inr ()) \<and> resError m \<in> insert [] (R \<inter> pair_reasons))"

lemmas pair_reason_defs = pair_reasons_def
  PairRefusedCodeMismatch_def PairRefusedInvalidKey_def PairRefusedDeclined_def PairRefusedEnrolFailed_def

lemma reason_result:
  assumes "resError m \<in> insert [] pair_reasons"
  shows "valid_utf8 (resError m) \<and> length (json_print (result_to_json m)) \<le> maxMessageSize"
proof -
  have "is_ascii (resError m) \<and> length (resError m) \<le> 100"
    using assms by (auto simp: pair_reason_defs is_ascii_def)
  with length_quote [of "resError m"] length_quote [of "''error''"] length_quote [of "''ok''"] show ?thesis
    by (simp add: valid_utf8_ascii result_to_json_def omitempty_def maxMessageSize_def)
qed

lemma tellPeer_tx:
  assumes "writes_left c = None" and "reason \<in> pair_reasons"
  shows "tx (tellPeer reason c) = tx c @ frame (result_to_json \<lparr>resOK = False, resError = reason\<rparr>)"
proof -
  have "length (json_print (result_to_json \<lparr>resOK = False, resError = reason\<rparr>)) \<le> maxMessageSize"
    using reason_result [of "\<lparr>resOK = False, resError = reason\<rparr>"] assms(2) by auto
  from WriteMessage_ok [OF this assms(1)] show ?thesis by (simp add: tellPeer_def waitForPeerClose_def)
qed

lemma acknowledge_tx:
  assumes "writes_left c = None"
  shows "fst (acknowledge pre c) = Inr () \<and>
    tx (snd (acknowledge pre c)) = tx c @ frame (result_to_json \<lparr>resOK = True, resError = []\<rparr>)"
proof -
  have "length (json_print (result_to_json \<lparr>resOK = True, resError = []\<rparr>)) \<le> maxMessageSize"
    using length_result_ok by (simp add: maxMessageSize_def)
  from WriteMessage_ok [OF this assms] show ?thesis by (simp add: acknowledge_def waitForPeerClose_def)
qed

lemma last_word_told:
  assumes "writes_left c = None" and "r = Inl e"
    and "reason \<in> R" "R \<subseteq> pair_reasons"
  shows "last_word R r c (tellPeer reason c)"
  using tellPeer_tx [OF assms(1) subsetD [OF assms(4,3)]] assms(2-4)
  by (auto simp: last_word_def intro!: exI [of _ "\<lparr>resOK = False, resError = reason\<rparr>"])

lemma last_word_refused:
  assumes "writes_left c = None" and "refusePairing c reason = (r, c')"
    and "reason \<in> R" "R \<subseteq> pair_reasons"
  shows "last_word R r c c'"
  using last_word_told [OF assms(1) _ assms(3,4)] assms(2) by (auto simp: refusePairing_def)

lemma last_word_acknowledged:
  assumes "writes_left c = None" and "acknowledge pre c = (r, c')"
  shows "last_word R r c c'"
  using acknowledge_tx [OF assms(1), of pre] assms(2)
  by (auto simp: last_word_def intro!: exI [of _ "\<lparr>resOK = True, resError = []\<rparr>"])

lemma last_word_mono: "last_word R r c c' \<Longrightarrow> R \<subseteq> R' \<Longrightarrow> last_word R' r c c'"
  by (auto simp: last_word_def)

lemma reason_sets:
  "{PairRefusedDeclined, PairRefusedEnrolFailed} \<subseteq> pair_reasons"
  "{PairRefusedInvalidKey, PairRefusedDeclined, PairRefusedEnrolFailed} \<subseteq> pair_reasons"
  by (auto simp: pair_reasons_def)

lemma pair_reasons_in:
  "PairRefusedCodeMismatch \<in> pair_reasons" "PairRefusedInvalidKey \<in> pair_reasons"
  by (simp_all add: pair_reasons_def)

lemmas enrol_words = insertI1 insertI2 last_word_acknowledged
  last_word_told [OF _ _ _ reason_sets(1)] last_word_refused [OF _ _ _ reason_sets(1)]

lemmas pair_words = pair_reasons_in insertI1 insertI2
  last_word_refused [OF _ _ _ reason_sets(2)] last_word_refused [OF _ _ _ subset_refl]

lemma enrolPaired_last_word:
  assumes "enrolPaired U o' peerID pubKey c h rng = (r, c', h', rng', notes)" and "writes_left c = None"
  shows "last_word {PairRefusedDeclined, PairRefusedEnrolFailed} r c c'"
proof (cases "planEnrolment U pubKey peerID h")
  case (Inl e)
  with assms show ?thesis by (auto simp: enrolPaired_def intro: enrol_words)
next
  case (Inr plan)
  note run = assms(1) [unfolded enrolPaired_def Inr sum.case]
  show ?thesis
  proof (cases plan)
    case PlanAdd
    with run assms(2) show ?thesis
      by (auto simp: Let_def intro: enrol_words split: if_splits sum.splits prod.splits)
  next
    case (PlanAlready ex)
    with run assms(2) show ?thesis by (auto intro: enrol_words split: prod.splits)
  next
    case (PlanReplace ex)
    with run assms(2) show ?thesis
      by (auto simp: Let_def intro: enrol_words split: if_splits sum.splits prod.splits)
  qed
qed

lemma enrolPaired_words:
  assumes "enrolPaired U o' peerID pubKey c h rng = (r, c', h', rng', notes)" and "writes_left c = None"
  shows "last_word pair_reasons r c c'"
    and "last_word {PairRefusedInvalidKey, PairRefusedDeclined, PairRefusedEnrolFailed} r c c'"
  using enrolPaired_last_word [OF assms] reason_sets(1) by (auto elim: last_word_mono)

text \<open>The machine against a request that proves the code.\<close>

lemma runPairOnce_on:
  assumes run: "runPairOnce U o' Listen h rng = (r, Some c', h', rng', notes)"
    and listen: "Listen ((poListenOpts o')\<lparr>AuthorizedPeers := []\<rparr>) = Inr c"
    and n: "rand_Read pairNonceLen rng = Inr (nonce, rng1)"
    and c: "writes_left c = None" "tx c = []"
    and size: "length (json_print (challenge_to_json \<lparr>pcNonce = nonce, pcName = poMachineName o'\<rparr>)) \<le> maxMessageSize"
  defines "ch \<equiv> frame (challenge_to_json \<lparr>pcNonce = nonce, pcName = poMachineName o'\<rparr>)"
  shows "\<exists>rest. tx c' = ch @ rest"
    and "rx c = frame (pair_request_to_json req) \<Longrightarrow> valid_utf8 (prName req) \<Longrightarrow>
      length (json_print (pair_request_to_json req)) \<le> maxMessageSize \<Longrightarrow>
      prProof req = PairProof (cr U) (poSecret o') (poMachineID o') (PeerID c) (prPubKey req) nonce \<Longrightarrow>
      last_word {PairRefusedInvalidKey, PairRefusedDeclined, PairRefusedEnrolFailed} r (c\<lparr>tx := ch\<rparr>) c'"
proof -
  let ?c1 = "c\<lparr>tx := ch\<rparr>"
  have w: "WriteMessage (challenge_to_json \<lparr>pcNonce = nonce, pcName = poMachineName o'\<rparr>) c = (Inr (), ?c1)"
    using WriteMessage_ok [OF size c(1)] c(2) by (simp add: ch_def)
  obtain q c2 where rd: "ReadMessage pair_request_of_json ?c1 = (q, c2)" by fastforce
  have c2: "tx c2 = ch" "writes_left c2 = None"
    using rd c(1) by (auto simp: ReadMessage_def conn_read_full_def Let_def split: if_splits sum.splits)
  note run' = run [unfolded runPairOnce_def listen n w rd sum.case prod.case]
  have told: "last_word pair_reasons r c2 c'" if "q = Inr req'" for req'
    using run' that c2(2)
    by (auto intro: pair_words enrolPaired_words split: if_splits sum.splits prod.splits)
  show "\<exists>rest. tx c' = ch @ rest"
  proof (cases q)
    case (Inl e)
    with run' c2 show ?thesis by auto
  next
    case (Inr req')
    with told c2 show ?thesis by (auto simp: last_word_def)
  qed
  assume req: "rx c = frame (pair_request_to_json req)" "valid_utf8 (prName req)"
    "length (json_print (pair_request_to_json req)) \<le> maxMessageSize"
    and pr: "prProof req = PairProof (cr U) (poSecret o') (poMachineID o') (PeerID c) (prPubKey req) nonce"
  have "q = Inr req" using pair_request.read_written [OF req(2,3), of ?c1 "[]"] req(1) rd by simp
  with run' pr c2(2) have "last_word {PairRefusedInvalidKey, PairRefusedDeclined, PairRefusedEnrolFailed} r c2 c'"
    by (auto intro: pair_words enrolPaired_words split: sum.splits prod.splits)
  with c2(1) show "last_word {PairRefusedInvalidKey, PairRefusedDeclined, PairRefusedEnrolFailed} r (c\<lparr>tx := ch\<rparr>) c'"
    by (simp add: last_word_def)
qed

text \<open>The phone against a challenge and a verdict.\<close>

lemma pair_exchange_on:
  assumes rx: "rx c = frame (challenge_to_json ch) @ rest"
    and ok: "valid_utf8 (pcName ch)" "length (json_print (challenge_to_json ch)) \<le> maxMessageSize"
    and w: "writes_left c = None"
    and req: "req = \<lparr>prPubKey = pwPublicKey pw, prName = pwName pw,
      prProof = PairProof P (pwSecret pw) (pwMachineID pw) (pwSelfID pw) (pwPublicKey pw) (pcNonce ch)\<rparr>"
      "length (json_print (pair_request_to_json req)) \<le> maxMessageSize"
    and run: "pair_exchange P pw ct c p = (r, c', p')"
  shows "tx c' = tx c @ frame (pair_request_to_json req)"
    and "rest = frame (result_to_json m) \<Longrightarrow> valid_utf8 (resError m) \<Longrightarrow>
      length (json_print (result_to_json m)) \<le> maxMessageSize \<Longrightarrow>
      r = (if resOK m then Inr () else Inl (PairRefusedErr (resError m))) \<and>
      pgStage p' = (if resOK m then max StageEnrolled (pgStage p) else max StageWaitingForOperator (pgStage p))"
proof -
  let ?c1 = "c\<lparr>rx := rest\<rparr>"
  let ?c2 = "?c1\<lparr>tx := tx c @ frame (pair_request_to_json req)\<rparr>"
  have 1: "ReadMessage challenge_of_json c = (Inr ch, ?c1)" by (rule challenge.read_written [OF ok rx])
  have 2: "WriteMessage (pair_request_to_json req) ?c1 = (Inr (), ?c2)"
    using WriteMessage_ok [OF req(2), of ?c1] w by simp
  obtain q c3 where 3: "ReadMessage result_of_json ?c2 = (q, c3)" by fastforce
  note run' = run [unfolded pair_exchange_def 1 sum.case prod.case Let_def req(1) [symmetric] 2 3]
  show "tx c' = tx c @ frame (pair_request_to_json req)"
    using run' ReadMessage_tx [OF 3] by (auto split: sum.splits if_splits)
  assume "rest = frame (result_to_json m)" "valid_utf8 (resError m)"
    "length (json_print (result_to_json m)) \<le> maxMessageSize"
  then have "q = Inr m" using result.read_written [of m ?c2 "[]"] 3 by simp
  with run' show "r = (if resOK m then Inr () else Inl (PairRefusedErr (resError m))) \<and>
      pgStage p' = (if resOK m then max StageEnrolled (pgStage p) else max StageWaitingForOperator (pgStage p))"
    by (auto simp: pgStage_advance stage_defs split: if_splits)
qed

section \<open>Properties\<close>

text \<open>
  C29. Machine and phone agree on a pairing: when both know the code, the phone's Device ID is the
  identity the machine verified, and each reads what the other wrote over a connection that takes
  it, the phone reports success exactly when the machine's attempt succeeded, and otherwise a
  refusal with the machine's reason, which is never that the code did not match.
\<close>

theorem phone_and_machine_agree:
  assumes "runPairOnce U o' Listen h rng = (rm, Some cm', h', rng', notes)"
    and "Listen ((poListenOpts o')\<lparr>AuthorizedPeers := []\<rparr>) = Inr cm"
    and "rand_Read pairNonceLen rng = Inr (nonce, rng1)"
    and "pairOnce (cr U) pw ct a p = (rp, Some cp', p')" and "caDialled a = Inr cp"
    and "pwSecret pw = poSecret o'" and "pwMachineID pw = poMachineID o'" and "pwSelfID pw = PeerID cm"
    and "\<forall>k d. length (hmacSha256 (cr U) k d) = 32" and "length (pwPublicKey pw) \<le> 1000"
    and "valid_utf8 (poMachineName o')" and "length (poMachineName o') \<le> 5000"
    and "valid_utf8 (pwName pw)" and "length (pwName pw) \<le> 5000"
    and "rx cm = tx cp'" and "rx cp = tx cm'" and "tx cm = []" and "tx cp = []"
    and "writes_left cm = None" and "writes_left cp = None"
  shows "(rp = Inr () \<longleftrightarrow> rm = Inr ()) \<and>
    (rm = Inr () \<and> pgStage p' = StageEnrolled \<or>
     (\<exists>reason. rp = Inl (PairRefusedErr reason) \<and> reason \<noteq> PairRefusedCodeMismatch \<and>
       pgStage p' = StageWaitingForOperator))"
proof -
  let ?ch = "\<lparr>pcNonce = nonce, pcName = poMachineName o'\<rparr>"
  let ?req = "\<lparr>prPubKey = pwPublicKey pw, prName = pwName pw,
    prProof = PairProof (cr U) (pwSecret pw) (pwMachineID pw) (pwSelfID pw) (pwPublicKey pw) nonce\<rparr>"
  have n: "length nonce = 32"
    using assms(3) by (auto simp: rand_Read_def ReadFull_Inr pairNonceLen_def split: sum.splits)
  have size: "length (json_print (challenge_to_json ?ch)) \<le> maxMessageSize"
    "length (json_print (pair_request_to_json ?req)) \<le> maxMessageSize"
    using length_challenge [of ?ch] length_pair_request [of ?req] n assms(9,10,12,14)
    by (simp_all add: PairProof_def maxMessageSize_def)
  note mach = runPairOnce_on [OF assms(1-3,19,17) size(1)]
  from mach(1) obtain rest where rest: "rx cp = frame (challenge_to_json ?ch) @ rest" using assms(16) by auto
  let ?p1 = "dial_progress a (beginAttempt (firstStage (pwDirectAddr pw)) p)"
  let ?p0 = "if pwDirectAddr pw \<noteq> [] then won 0 ?p1 else ?p1"
  have "pgStage ?p1 \<le> 4"
    using pgStage_dial [of a "beginAttempt (firstStage (pwDirectAddr pw)) p"]
    by (simp add: pgStage_begin firstStage_def stage_defs split: if_splits)
  then have p0: "pgStage ?p0 \<le> 4" by (cases "pwDirectAddr pw = []") (simp_all add: pgStage_won)
  have ex: "pair_exchange (cr U) pw ct cp ?p0 = (rp, cp', p')"
    using assms(4,5) by (cases "pwDirectAddr pw = []") (auto simp: pairOnce_def Let_def split: prod.splits)
  have u: "valid_utf8 (pcName ?ch)" using assms(11) by simp
  note phone = pair_exchange_on [OF rest u size(1) assms(20) _ size(2) ex, simplified]
  from phone(1) assms(15,18) have "rx cm = frame (pair_request_to_json ?req)" by simp
  from mach(2) [OF this _ size(2)] assms(6-8,13) obtain m where
    m: "tx cm' = frame (challenge_to_json ?ch) @ frame (result_to_json m)" "resOK m \<longleftrightarrow> rm = Inr ()"
      "resError m \<in> insert [] ({PairRefusedInvalidKey, PairRefusedDeclined, PairRefusedEnrolFailed} \<inter> pair_reasons)"
    by (auto simp: last_word_def)
  from m(1) rest assms(16) have r: "rest = frame (result_to_json m)" by simp
  have "resError m \<noteq> PairRefusedCodeMismatch" using m(3) by (auto simp: pair_reason_defs)
  moreover from reason_result [of m] m(3) have "valid_utf8 (resError m) \<and> length (json_print (result_to_json m)) \<le> maxMessageSize"
    by auto
  ultimately show ?thesis using phone(2) [OF r] m(2) p0 by (auto simp: stage_defs split: if_splits)
qed

section \<open>A pairing that runs\<close>

definition demo_pair_with :: pair_with where
  "demo_pair_with = \<lparr>pwMachineID = ''M'', pwSelfID = demo_phone, pwSecret = replicate 10 1, pwPublicKey = demo_pub,
     pwName = ''phone'', pwDirectAddr = []\<rparr>"

theorem phone_and_machine_agree_witness:
  "\<exists>cm' cp cp' h' pg. runPairOnce demo_U demo_pairOptions (\<lambda>_. Inr demo_pairConn) demo_h0 (demo_pairNonce @ demo_rng) =
      (Inr (), Some cm', h', [], []) \<and>
    rx demo_pairConn = tx cp' \<and> rx cp = tx cm' \<and>
    pairOnce plain_crypto demo_pair_with False (demo_attempt cp) zero_progress = (Inr (), Some cp', pg) \<and>
    pgStage pg = StageEnrolled"
proof -
  let ?ch = "\<lparr>pcNonce = demo_pairNonce, pcName = ''host''\<rparr>"
  obtain rec cm' where m: "runPairOnce demo_U demo_pairOptions (\<lambda>_. Inr demo_pairConn) demo_h0 (demo_pairNonce @ demo_rng) =
      (Inr (), Some cm', demo_h1 rec, [], [])" by (rule demo_pair_run)
  have o': "poMachineName demo_pairOptions = ''host''" "poSecret demo_pairOptions = replicate 10 1"
    "poMachineID demo_pairOptions = ''M''" by (simp_all add: demo_pairOptions_def)
  have n: "rand_Read pairNonceLen (demo_pairNonce @ demo_rng) = Inr (demo_pairNonce, demo_rng)"
    by (simp add: rand_Read_def ReadFull_def pairNonceLen_def demo_pairNonce_def)
  have c: "writes_left demo_pairConn = None" "tx demo_pairConn = []" "PeerID demo_pairConn = demo_phone"
    "rx demo_pairConn = frame (pair_request_to_json demo_request)"
    by (simp_all add: demo_pairConn_def demo_conn_def)
  have p: "length (prProof demo_request) = 32" "length demo_pub \<le> 65"
    "prPubKey demo_request = demo_pub" "prName demo_request = ''phone''"
    using demo_pub_point(1) by (simp_all add: demo_request_def PairProof_def plain_crypto_def)
  have size: "length (json_print (challenge_to_json \<lparr>pcNonce = demo_pairNonce, pcName = poMachineName demo_pairOptions\<rparr>)) \<le>
      maxMessageSize" "length (json_print (pair_request_to_json demo_request)) \<le> maxMessageSize"
    using length_challenge [of ?ch] length_pair_request [of demo_request] p
    by (simp_all add: o' demo_pairNonce_def maxMessageSize_def)
  from runPairOnce_on(1) [OF m refl n c(1,2) size(1)] obtain rest where
    rest: "tx cm' = frame (challenge_to_json ?ch) @ rest" unfolding o' by blast
  let ?cp = "demo_conn (tx cm')"
  obtain rp cp' pg where ph: "pairOnce (cr demo_U) demo_pair_with False (demo_attempt ?cp) zero_progress = (rp, Some cp', pg)"
    by (cases "pair_exchange plain_crypto demo_pair_with False ?cp
        (dial_progress (demo_attempt ?cp) (beginAttempt (firstStage []) zero_progress))")
      (simp add: pairOnce_def demo_attempt_def demo_pair_with_def Let_def)
  have w: "pwSecret demo_pair_with = replicate 10 1" "pwMachineID demo_pair_with = ''M''" "pwSelfID demo_pair_with = demo_phone"
    "pwPublicKey demo_pair_with = demo_pub" "pwName demo_pair_with = ''phone''" "pwDirectAddr demo_pair_with = []"
    by (simp_all add: demo_pair_with_def)
  have d: "caDialled (demo_attempt ?cp) = Inr ?cp" by (simp add: demo_attempt_def)
  have ex: "pair_exchange plain_crypto demo_pair_with False ?cp
      (dial_progress (demo_attempt ?cp) (beginAttempt (firstStage []) zero_progress)) = (rp, cp', pg)"
    using ph d by (simp add: pairOnce_def w Let_def split: prod.splits)
  have rxp: "rx ?cp = frame (challenge_to_json ?ch) @ rest" "writes_left ?cp = None" "tx ?cp = []"
    by (simp_all add: demo_conn_def rest)
  have req: "demo_request = \<lparr>prPubKey = pwPublicKey demo_pair_with, prName = pwName demo_pair_with,
      prProof = PairProof plain_crypto (pwSecret demo_pair_with) (pwMachineID demo_pair_with) (pwSelfID demo_pair_with)
        (pwPublicKey demo_pair_with) (pcNonce ?ch)\<rparr>"
    by (simp add: w demo_request_def)
  have u: "valid_utf8 (pcName ?ch)" by (simp add: valid_utf8_ascii is_ascii_def)
  have "tx cp' = frame (pair_request_to_json demo_request)"
    using pair_exchange_on(1) [OF rxp(1) u size(1) [unfolded o'] rxp(2) req size(2) ex] rxp(3) by simp
  then have rx: "rx demo_pairConn = tx cp'" using c(4) by simp
  have rxm: "rx ?cp = tx cm'" by (simp add: demo_conn_def)
  have hm: "\<forall>k d. length (hmacSha256 (cr demo_U) k d) = 32" by (simp add: plain_crypto_def)
  have v: "valid_utf8 ''host''" "valid_utf8 ''phone''" by (simp_all add: valid_utf8_ascii is_ascii_def)
  have "rp = Inr () \<and> pgStage pg = StageEnrolled"
    using phone_and_machine_agree [OF m refl n ph d _ _ _ hm _ _ _ _ _ rx rxm c(2) rxp(3) c(1) rxp(2)] v p(2)
    by (auto simp: w o' c(3))
  with m rx rxm ph show ?thesis by (auto simp: demo_U_sel)
qed

end
