(* ===== verification/Devices.thy ===== *)
theory Devices
  imports Exchange
begin

text \<open>
  Finding the volume, \<open>cmd/synctang-unlocker/devices.go\<close>, \<open>discover.go\<close> and \<open>machinename.go\<close>: the
  candidates among the machine's block devices, what their LUKS headers say, which of them is asking
  for a password, and the name a machine is shown under.  The header of a device is \<open>H device\<close>;
  sysfs and the hostname are parameters, and sizes are computed as Go's \<open>float64\<close> does.
\<close>

section \<open>Candidates\<close>

record candidate =
  cName :: string
  cPath :: string
  cSize :: int

text \<open>\<open>strconv.ParseInt(s, 10, 64)\<close> with its error ignored: the value it returns all the same.\<close>

fun scan_uint :: "int \<Rightarrow> string \<Rightarrow> int option" where
  "scan_uint acc [] = Some acc"
| "scan_uint acc (c # s) =
    (case digit_val c of
       None \<Rightarrow> None
     | Some d \<Rightarrow> if 10 * acc + int d \<ge> 2 ^ 64 then Some (2 ^ 64 - 1) else scan_uint (10 * acc + int d) s)"

definition ParseInt_value :: "string \<Rightarrow> int" where
  "ParseInt_value s =
    (let neg = prefix ''-'' s; ds = (if neg \<or> prefix ''+'' s then drop 1 s else s) in
     case (if ds = [] then None else scan_uint 0 ds) of
       None \<Rightarrow> 0
     | Some v \<Rightarrow> if neg then max (- v) (- (2 ^ 63)) else min v (2 ^ 63 - 1))"

definition int64 :: "int \<Rightarrow> int" where
  "int64 x = (x + 2 ^ 63) mod 2 ^ 64 - 2 ^ 63"

definition never_luks :: "string \<Rightarrow> bool" where
  "never_luks name \<longleftrightarrow>
    HasPrefix name ''ram'' \<or> HasPrefix name ''loop'' \<or> HasPrefix name ''zram'' \<or> HasPrefix name ''sr''"

definition candidate_of :: "string \<Rightarrow> candidate option" where
  "candidate_of line =
    (let fs = Fields line in
     if length fs \<noteq> 4 \<or> fs ! 0 = ''major'' then None
     else if never_luks (fs ! 3) then None
     else Some \<lparr>cName = fs ! 3, cPath = ''/dev/'' @ fs ! 3, cSize = int64 (ParseInt_value (fs ! 2) * 1024)\<rparr>)"

definition blockCandidates :: "string \<Rightarrow> candidate list" where
  "blockCandidates procPartitions = List.map_filter candidate_of (split_on newline procPartitions)"

definition blockDevices :: "string \<Rightarrow> string list" where
  "blockDevices procPartitions = map cPath (blockCandidates procPartitions)"

definition devicesSource :: "string res \<Rightarrow> candidate list res" where
  "devicesSource proc =
    (case proc of Inl e \<Rightarrow> Inl (wrap ''enumerating block devices'' e) | Inr text \<Rightarrow> Inr (blockCandidates text))"

section \<open>What a header says\<close>

record luksInfo =
  lxVersion :: string
  lxUUID :: string
  lxLabel :: string

definition blank :: "char \<Rightarrow> bool" where
  "blank c \<longleftrightarrow> c = CHR '' '' \<or> c = tab"

definition trim_blank :: "string \<Rightarrow> string" where
  "trim_blank s = rev (dropWhile blank (rev (dropWhile blank s)))"

text \<open>A match of \<open>luksHeaderLine\<close> on one line: which field, and its value.\<close>

definition header_line :: "string \<Rightarrow> (string \<times> string) option" where
  "header_line line =
    (case find (\<lambda>k. HasPrefix line (k @ '':'')) [''Version'', ''UUID'', ''Label''] of
       None \<Rightarrow> None
     | Some k \<Rightarrow> Some (k, trim_blank (drop (length k + 1) line)))"

definition note_header :: "string \<times> string \<Rightarrow> luksInfo \<Rightarrow> luksInfo" where
  "note_header m info =
    (case m of (k, v) \<Rightarrow>
      if k = ''Version'' then (if lxVersion info = [] then info\<lparr>lxVersion := v\<rparr> else info)
      else if k = ''UUID'' then (if lxUUID info = [] then info\<lparr>lxUUID := v\<rparr> else info)
      else if lxLabel info = [] \<and> v \<noteq> ''(no label)'' then info\<lparr>lxLabel := v\<rparr> else info)"

definition luksHeaderInfo :: "string \<Rightarrow> luksInfo" where
  "luksHeaderInfo dump =
    fold note_header (List.map_filter header_line (split_on newline dump))
      \<lparr>lxVersion = [], lxUUID = [], lxLabel = []\<rparr>"

section \<open>Sizes\<close>

text \<open>Rounding to the nearest, a tie to the even one; a \<open>float64\<close> has 53 bits.\<close>

definition round_even :: "nat \<Rightarrow> nat \<Rightarrow> nat" where
  "round_even a b =
    (let q = a div b; r = a mod b in
     if 2 * r < b then q else if 2 * r > b then q + 1 else if even q then q else q + 1)"

fun bit_length :: "nat \<Rightarrow> nat" where
  "bit_length n = (if n = 0 then 0 else bit_length (n div 2) + 1)"

declare bit_length.simps [simp del]

definition float64_of :: "nat \<Rightarrow> nat" where
  "float64_of n = (let e = bit_length n - 53 in round_even n (2 ^ e) * 2 ^ e)"

text \<open>The unit and its size, for the largest unit that keeps the number at one or more.\<close>

fun unit_for :: "nat \<Rightarrow> nat \<Rightarrow> string list \<Rightarrow> nat \<times> string" where
  "unit_for v s [] = (s, [])"
| "unit_for v s [u] = (s * 1024, u)"
| "unit_for v s (u # w # us) = (if v < s * 1024 * 1024 then (s * 1024, u) else unit_for v (s * 1024) (w # us))"

definition humanSize :: "int \<Rightarrow> string" where
  "humanSize n =
    (if n < 1024 then show_int n @ '' B''
     else
       (let v = float64_of (nat n) in
        case unit_for v 1 [''KiB'', ''MiB'', ''GiB'', ''TiB'', ''PiB''] of
          (s, suf) \<Rightarrow>
            if v \<ge> 100 * s then show_nat (round_even v s) @ '' '' @ suf
            else (let t = round_even (10 * v) s in show_nat (t div 10) @ ''.'' @ show_nat (t mod 10) @ '' '' @ suf)))"

section \<open>The volumes of a machine\<close>

text \<open>sysfs: the holders of a device, and the name of a device-mapper device.\<close>

record sysfs =
  sysHolders :: "string \<Rightarrow> string list res"
  sysDmName :: "string \<Rightarrow> string res"

definition mappedNames :: "sysfs \<Rightarrow> string \<Rightarrow> string list" where
  "mappedNames sys name =
    (case sysHolders sys name of
       Inl _ \<Rightarrow> []
     | Inr holders \<Rightarrow>
         List.map_filter (\<lambda>h. case sysDmName sys h of
             Inl _ \<Rightarrow> None
           | Inr raw \<Rightarrow> if TrimSpace raw \<noteq> [] then Some (TrimSpace raw) else None) holders)"

record luksDevice =
  ldPath :: string
  ldSize :: int
  ldVersion :: string
  ldUUID :: string
  ldLabel :: string
  ldOpenAs :: "string list"
  ldHasToken :: bool
  ldKeyHolders :: nat

definition synctang_words :: "luksDevice \<Rightarrow> string" where
  "synctang_words d =
    (if ldVersion d = ''1'' then ''LUKS1, not supported''
     else if \<not> ldHasToken d then ''no token''
     else if ldKeyHolders d = 0 then ''token, no key holders''
     else if ldKeyHolders d = 1 then ''1 key holder''
     else show_nat (ldKeyHolders d) @ '' key holders'')"

definition describeLUKS :: "'h unlocker \<Rightarrow> (string \<Rightarrow> 'h) \<Rightarrow> sysfs \<Rightarrow> candidate \<Rightarrow> luksDevice option" where
  "describeLUKS U H sys c =
    (case luksDump (cs U) (H (cPath c)) of
       Inl _ \<Rightarrow> None
     | Inr dump \<Rightarrow>
         (let info = luksHeaderInfo dump;
              d = \<lparr>ldPath = cPath c, ldSize = cSize c, ldVersion = lxVersion info, ldUUID = lxUUID info,
                   ldLabel = lxLabel info, ldOpenAs = mappedNames sys (cName c), ldHasToken = False, ldKeyHolders = 0\<rparr> in
          Some
            (case loadToken U (H (cPath c)) dump [] [] of
               Inl _ \<Rightarrow> d\<lparr>ldHasToken := length (tokenIDsOfType dump mrTokenType) > 0\<rparr>
             | Inr (tok, tid) \<Rightarrow>
                 if tid \<ge> 0 then d\<lparr>ldHasToken := True, ldKeyHolders := length (Recipients tok)\<rparr> else d)))"

definition listDevices :: "'h unlocker \<Rightarrow> (string \<Rightarrow> 'h) \<Rightarrow> sysfs \<Rightarrow> string res \<Rightarrow> luksDevice list res" where
  "listDevices U H sys proc =
    (case devicesSource proc of
       Inl e \<Rightarrow> Inl e
     | Inr candidates \<Rightarrow> Inr (List.map_filter (describeLUKS U H sys) candidates))"

definition device_line :: "luksDevice \<Rightarrow> string" where
  "device_line d = newline # ''  '' @ ldPath d @ ''  '' @ humanSize (ldSize d) @ '', uuid '' @ ldUUID d @ '', '' @ synctang_words d"

definition deviceHint :: "bool \<Rightarrow> 'h unlocker \<Rightarrow> (string \<Rightarrow> 'h) \<Rightarrow> sysfs \<Rightarrow> string res \<Rightarrow> string" where
  "deviceHint isRoot U H sys proc =
    (let hint = ''run '' @ [CHR 0x22] @ ''synctang-unlocker devices'' @ [CHR 0x22] @ '' to list the LUKS devices on this machine'' in
     if \<not> isRoot then hint @ '' (as root)''
     else
       (case listDevices U H sys proc of
          Inl _ \<Rightarrow> hint
        | Inr devs \<Rightarrow> if devs = [] then hint else hint @ ''; found:'' @ concat (map device_line devs)))"

text \<open>
  The table as \<open>tabwriter\<close> lays it out when no cell holds a tab, a line break or a form feed: a column
  is as wide as its widest cell and two blanks more, and the last one is not padded.
\<close>

definition device_cells :: "luksDevice \<Rightarrow> string list" where
  "device_cells d =
    [ldPath d, ldUUID d, humanSize (ldSize d), if ldOpenAs d = [] then ''-'' else join_with '','' (ldOpenAs d), synctang_words d]"

definition column_width :: "string list list \<Rightarrow> nat \<Rightarrow> nat" where
  "column_width rows j = foldr max (map (\<lambda>r. rune_count (r ! j)) rows) 0 + 2"

definition padded :: "nat \<Rightarrow> string \<Rightarrow> string" where
  "padded w cell = cell @ replicate (w - rune_count cell) CHR '' ''"

definition formatDevices :: "luksDevice list \<Rightarrow> string" where
  "formatDevices devs =
    (let rows = [''DEVICE'', ''UUID'', ''SIZE'', ''OPEN AS'', ''SYNCTANG''] # map device_cells devs in
     concat (map (\<lambda>r. concat (map (\<lambda>j. padded (column_width rows j) (r ! j)) [0..<4]) @ r ! 4 @ [newline]) rows))"

definition runDevices ::
    "bool \<Rightarrow> 'h unlocker \<Rightarrow> (string \<Rightarrow> 'h) \<Rightarrow> sysfs \<Rightarrow> string res \<Rightarrow> string list \<Rightarrow> nat \<times> string \<times> string list" where
  "runDevices isRoot U H sys proc args =
    (if args \<noteq> [] then (2, [], [''synctang-unlocker: devices takes no arguments, got '' @ Quote (args ! 0)])
     else if \<not> isRoot then (1, [], [''synctang-unlocker: devices reads LUKS headers, which takes root; run it as root''])
     else
       (case listDevices U H sys proc of
          Inl e \<Rightarrow> (1, [], [''synctang-unlocker: '' @ error_text e])
        | Inr devs \<Rightarrow>
            if devs = [] then (1, [], [''synctang-unlocker: no LUKS device found'']) else (0, formatDevices devs, [])))"

section \<open>The volume that is asking\<close>

definition has_mr1_token :: "'h unlocker \<Rightarrow> (string \<Rightarrow> 'h) \<Rightarrow> string \<Rightarrow> bool" where
  "has_mr1_token U H device =
    (case luksDump (cs U) (H device) of
       Inl _ \<Rightarrow> False
     | Inr dump \<Rightarrow> length (tokenIDsOfType dump mrTokenType) > 0)"

definition findMr1Devices :: "'h unlocker \<Rightarrow> (string \<Rightarrow> 'h) \<Rightarrow> string res \<Rightarrow> string list res" where
  "findMr1Devices U H proc =
    (case proc of
       Inl e \<Rightarrow> Inl (wrap ''enumerating block devices'' e)
     | Inr text \<Rightarrow>
         (let found = filter (has_mr1_token U H) (blockDevices text) in
          if found = [] then Inl (Err (''no block device carries an '' @ mrTokenType @ '' token'')) else Inr found))"

definition discoverAskingDevice ::
    "'h unlocker \<Rightarrow> (string \<Rightarrow> 'h) \<Rightarrow> (string \<Rightarrow> string res) \<Rightarrow> string \<Rightarrow> ask_dir \<Rightarrow> string res \<Rightarrow> string res" where
  "discoverAskingDevice U H EvalSymlinks askDir entries proc =
    (case findMr1Devices U H proc of
       Inl e \<Rightarrow> Inl e
     | Inr candidates \<Rightarrow>
         chooseMr1Device mrTokenType candidates
           (case pendingCryptsetupRequests askDir entries of Inl _ \<Rightarrow> [] | Inr reqs \<Rightarrow> map askId reqs)
           (resolvePath EvalSymlinks))"

section \<open>The machine's name\<close>

definition resolveMachineName :: "string res \<Rightarrow> string \<Rightarrow> string \<Rightarrow> string" where
  "resolveMachineName hostname given existing =
    (if given \<noteq> [] then given
     else if existing \<noteq> [] then existing
     else
       (case hostname of
          Inl _ \<Rightarrow> []
        | Inr raw \<Rightarrow>
            (let h = TrimSpace raw in
             if h \<in> set [''localhost'', ''localhost.localdomain'', ''(none)''] then [] else h)))"

definition existingMachineName :: "'h unlocker \<Rightarrow> (string \<Rightarrow> 'h) \<Rightarrow> string \<Rightarrow> string" where
  "existingMachineName U H device =
    (case luksDump (cs U) (H device) of
       Inl _ \<Rightarrow> []
     | Inr dump \<Rightarrow>
         (case loadToken U (H device) dump [] [] of
            Inl _ \<Rightarrow> []
          | Inr (tok, tid) \<Rightarrow> if tid < 0 then [] else mName (Machine tok)))"

section \<open>Lemmas\<close>

lemma findMr1Devices_Inr:
  "findMr1Devices U H proc = Inr found \<Longrightarrow>
    \<exists>text. proc = Inr text \<and> found \<noteq> [] \<and> found = filter (has_mr1_token U H) (blockDevices text)"
  by (auto simp: findMr1Devices_def Let_def split: sum.splits if_splits)

lemma candidate_path:
  "c \<in> set (blockCandidates text) \<Longrightarrow> cPath c = ''/dev/'' @ cName c \<and> \<not> never_luks (cName c)"
  by (auto simp: blockCandidates_def map_filter_def candidate_of_def Let_def split: if_splits)

lemma chosen:
  assumes "1 < length candidates"
  shows "chooseMr1Device ty candidates ids resolve = Inr d \<Longrightarrow> d \<in> set candidates \<and> (\<exists>q \<in> set ids. names_device resolve d q)"
    and "chooseMr1Device ty candidates ids resolve = Inl e \<Longrightarrow>
      \<forall>c \<in> set candidates. \<forall>q \<in> set ids. \<not> names_device resolve c q"
  using chooseMr1Device_asked [OF assms, where ty = ty and ids = ids and resolve = resolve] by auto

section \<open>Property\<close>

text \<open>
  C35. The agent works on a volume that can be meant: what it finds without being told is a block
  device that is no RAM disk, loop device or optical drive and whose header carries an mr-1 token;
  it is the only such device, or the first that a pending, unexpired cryptsetup request names; and it
  refuses only when there is none, or there are several and no request names one.
\<close>

theorem discovered_device_is_meant:
  assumes "proc = Inr partitions"
  shows "case discoverAskingDevice U H EvalSymlinks askDir entries proc of
      Inr d \<Rightarrow>
        (\<exists>c \<in> set (blockCandidates partitions). d = ''/dev/'' @ cName c \<and> \<not> never_luks (cName c)) \<and> has_mr1_token U H d \<and>
        (filter (has_mr1_token U H) (blockDevices partitions) = [d] \<or>
         (\<exists>ents. entries = Inr ents \<and> (\<exists>en \<in> set ents. \<exists>req. pending_entry en = Some req \<and>
            HasPrefix (askId req) cryptsetupAskIDPrefix \<and> (\<forall>now. entryNow en = Inr now \<longrightarrow> \<not> expired req now) \<and>
            names_device (resolvePath EvalSymlinks) d (askId req))))
    | Inl _ \<Rightarrow>
        (\<forall>d \<in> set (blockDevices partitions). has_mr1_token U H d \<longrightarrow>
          1 < length (filter (has_mr1_token U H) (blockDevices partitions)) \<and>
          (\<forall>ents. entries = Inr ents \<longrightarrow> (\<forall>en \<in> set ents. \<forall>req. pending_entry en = Some req \<longrightarrow>
            \<not> names_device (resolvePath EvalSymlinks) d (askId req))))"
proof -
  let ?found = "filter (has_mr1_token U H) (blockDevices partitions)"
  let ?ids = "case pendingCryptsetupRequests askDir entries of Inl _ \<Rightarrow> [] | Inr reqs \<Rightarrow> map askId reqs"
  let ?res = "resolvePath EvalSymlinks"
  have asked: "\<exists>ents. entries = Inr ents \<and> (\<exists>en \<in> set ents. \<exists>req. pending_entry en = Some req \<and> askId req = q)"
    if "q \<in> set ?ids" for q
  proof -
    from that obtain reqs req where "pendingCryptsetupRequests askDir entries = Inr reqs" "req \<in> set reqs" "askId req = q"
      by (cases "pendingCryptsetupRequests askDir entries") auto
    with pending_request [of askDir entries reqs req] show ?thesis by blast
  qed
  have pend: "askId req \<in> set ?ids" if "entries = Inr ents" "en \<in> set ents" "pending_entry en = Some req" for ents en req
  proof -
    have "req \<in> set (List.map_filter pending_entry ents)" using that(2,3) by (force simp: map_filter_def)
    then show ?thesis using that(1) by (auto simp: pendingCryptsetupRequests_def Let_def)
  qed
  have good: "(\<exists>c \<in> set (blockCandidates partitions). d = ''/dev/'' @ cName c \<and> \<not> never_luks (cName c)) \<and> has_mr1_token U H d"
    if "d \<in> set ?found" for d
    using that candidate_path [of _ partitions] by (auto simp: blockDevices_def)
  have run: "discoverAskingDevice U H EvalSymlinks askDir entries proc =
      (if ?found = [] then Inl (Err (''no block device carries an '' @ mrTokenType @ '' token''))
       else chooseMr1Device mrTokenType ?found ?ids ?res)"
    by (simp add: discoverAskingDevice_def findMr1Devices_def assms Let_def)
  consider "?found = []" | d where "?found = [d]" | "1 < length ?found"
    by (cases ?found; cases "tl ?found") auto
  then show ?thesis
  proof cases
    case 1
    then have "\<forall>d \<in> set (blockDevices partitions). \<not> has_mr1_token U H d" by (simp add: filter_empty_conv)
    with 1 show ?thesis by (simp add: run)
  next
    case (2 d)
    with good [of d] show ?thesis by (simp add: run chooseMr1Device_def)
  next
    case 3
    then have r: "discoverAskingDevice U H EvalSymlinks askDir entries proc = chooseMr1Device mrTokenType ?found ?ids ?res"
      using run by (auto simp del: filter_empty_conv)
    show ?thesis
    proof (cases "chooseMr1Device mrTokenType ?found ?ids ?res")
      case (Inl e)
      from chosen(2) [OF 3 Inl] have "\<forall>c \<in> set ?found. \<forall>q \<in> set ?ids. \<not> names_device ?res c q" .
      with 3 pend show ?thesis unfolding r Inl by (fastforce simp del: length_filter_le)
    next
      case (Inr d)
      from chosen(1) [OF 3 Inr] obtain q where
        d: "d \<in> set ?found" "q \<in> set ?ids" "names_device ?res d q" by blast
      from asked [OF d(2)] obtain ents en req where
        q: "entries = Inr ents" "en \<in> set ents" "pending_entry en = Some req" "askId req = q" by blast
      with pending_entry_Some [OF q(3)] good [OF d(1)] d(3) show ?thesis unfolding r Inr by auto
    qed
  qed
qed

end
