(* ===== verification/Open.thy ===== *)
theory Open
  imports Devices Recovery
begin

text \<open>
  Opening a volume when somebody asks for it, \<open>cmd/synctang-unlocker/open.go\<close>: the name the opened
  volume gets, the checks made before anything waits, and the attempts until a key holder approves.
  Device-mapper is the state \<open>'w\<close> with the function that opens a volume; parsing the flags has
  been done; an attempt is what \<open>Listen\<close> does, and whether the time was up when it had failed.
\<close>

section \<open>Names\<close>

definition alnum :: "char \<Rightarrow> bool" where
  "alnum c =
    (let n = of_char c :: nat in 48 \<le> n \<and> n \<le> 57 \<or> 65 \<le> n \<and> n \<le> 90 \<or> 97 \<le> n \<and> n \<le> 122)"

definition validMapperName :: "string \<Rightarrow> bool" where
  "validMapperName name =
    (case name of
       [] \<Rightarrow> False
     | c # rest \<Rightarrow> alnum c \<and> list_all (\<lambda>c. alnum c \<or> c \<in> set ''_.-'') rest \<and> length rest \<le> 62)"

fun mapper_name :: "string list \<Rightarrow> string" where
  "mapper_name [] = ''synctang-volume''"
| "mapper_name (line # ls) =
    (case cut_at CHR '':'' line of
       None \<Rightarrow> mapper_name ls
     | Some (key, val) \<Rightarrow>
         if TrimSpace key \<noteq> ''UUID'' then mapper_name ls
         else if length (TrimSpace val) \<ge> 8 then ''synctang-'' @ take 8 (TrimSpace val)
         else mapper_name ls)"

definition defaultMapperName :: "string \<Rightarrow> string" where
  "defaultMapperName dump = mapper_name (split_on newline dump)"

section \<open>Before anything waits\<close>

text \<open>The arguments left after the flags, and \<open>--device\<close>: the device, and the name if one is given.\<close>

definition open_arguments :: "string \<Rightarrow> string list \<Rightarrow> (string \<times> string) res" where
  "open_arguments deviceFlag args =
    (let ps = (if deviceFlag \<noteq> [] then deviceFlag # args else args) in
     if length ps < 1 \<or> length ps > 2 then Inl (Err ''usage: synctang-unlocker open [flags] <device> [name]'')
     else if length ps = 1 then Inr (ps ! 0, [])
     else if \<not> validMapperName (ps ! 1) then
       Inl (Err (''synctang-unlocker: '' @ Quote (ps ! 1) @ '' is not a usable name (letters, digits, '' @
         quoted ''_'' @ '', '' @ quoted ''.'' @ '' and '' @ quoted ''-'' @
         '', starting with a letter or digit, at most 63 characters)''))
     else Inr (ps ! 0, ps ! 1))"

definition open_name ::
    "'h unlocker \<Rightarrow> (string \<Rightarrow> 'h) \<Rightarrow> bool \<Rightarrow> (string \<Rightarrow> bool) \<Rightarrow> string \<Rightarrow> string \<Rightarrow> string res" where
  "open_name U H isRoot mapperExists device given =
    (if \<not> isRoot then Inl (Err ''synctang-unlocker: opening a volume needs root (try sudo)'')
     else
       (case luksDump (cs U) (H device) of
          Inl e \<Rightarrow> Inl (wrap (''synctang-unlocker: reading the LUKS header of '' @ device) e)
        | Inr dump \<Rightarrow>
       (case loadToken U (H device) dump [] [] of
          Inl e \<Rightarrow> Inl (wrap ''synctang-unlocker'' e)
        | Inr (_, tid) \<Rightarrow>
            if tid < 0 then
              Inl (Err (''synctang-unlocker: '' @ device @ '' has no key holder enrolled, so nobody could approve opening it; '' @
                ''enrol one first with: synctang-unlocker pair --device '' @ device @ '' --existing-passphrase-file ...''))
            else
              (let name = (if given = [] then defaultMapperName dump else given) in
               if mapperExists name then
                 Inl (Err (''synctang-unlocker: /dev/mapper/'' @ name @ '' already exists; close it first or choose another name''))
               else Inr name))))"

section \<open>Waiting for approval\<close>

type_synonym 'w opener = "string \<Rightarrow> string \<Rightarrow> bytes \<Rightarrow> 'w \<Rightarrow> unit res \<times> 'w"

definition open_deliver :: "'w opener \<Rightarrow> string \<Rightarrow> string \<Rightarrow> 'w deliverFunc" where
  "open_deliver openVolume device name key w =
    (case openVolume device name key w of
       (Inl e, w') \<Rightarrow> (Inl (wrap (''synctang-unlocker: opening '' @ device) e), w')
     | (Inr _, w') \<Rightarrow> (Inr (), w'))"

record open_job =
  ojDevice :: string
  ojName :: string
  ojMachineName :: string
  ojTimeout :: duration
  ojDirectAddr :: string

text \<open>The exit status (none while it still waits), what was said on standard error, and the state.\<close>

fun open_loop ::
    "'h unlocker \<Rightarrow> open_job \<Rightarrow> 'w opener \<Rightarrow> 'h \<Rightarrow> (transport_listen \<times> bool) list \<Rightarrow> 'w \<Rightarrow> bytes \<Rightarrow>
      nat option \<times> string list \<times> 'w" where
  "open_loop U j openVolume h [] w rng = (None, [], w)"
| "open_loop U j openVolume h ((Listen, timeUp) # as) w rng =
    (case serveOneExchange U (ojDevice j) (ojMachineName j) \<lparr>AuthorizedPeers = [], loDirectAddr = ojDirectAddr j\<rparr> Listen
        (open_deliver openVolume (ojDevice j) (ojName j)) h w rng of
       (Inr _, _, w', rng') \<Rightarrow> (Some 0, [], w')
     | (Inl e, _, w', rng') \<Rightarrow>
         if timeUp then
           (Some 1, [''synctang-unlocker: nobody approved within '' @ duration_string (ojTimeout j)], w')
         else
           apsnd (apfst ((#) (''synctang-unlocker: '' @ error_text e @ '' (still waiting)'')))
             (open_loop U j openVolume h as w' rng'))"

text \<open>\<open>cert\<close> and \<open>network\<close> say whether the identity and the network settings could be loaded.\<close>

definition runOpen ::
    "'h unlocker \<Rightarrow> (string \<Rightarrow> 'h) \<Rightarrow> bool \<Rightarrow> (string \<Rightarrow> 'w \<Rightarrow> bool) \<Rightarrow> 'w opener \<Rightarrow> unit res \<Rightarrow> bool \<Rightarrow>
      string \<Rightarrow> string list \<Rightarrow> open_job \<Rightarrow> (transport_listen \<times> bool) list \<Rightarrow> 'w \<Rightarrow> bytes \<Rightarrow>
      nat option \<times> string list \<times> 'w" where
  "runOpen U H isRoot mapperExists openVolume cert network deviceFlag args j as w rng =
    (case open_arguments deviceFlag args of
       Inl e \<Rightarrow> (Some 2, [error_text e], w)
     | Inr (device, given) \<Rightarrow>
    (case open_name U H isRoot (\<lambda>n. mapperExists n w) device given of
       Inl e \<Rightarrow> (Some 1, [error_text e], w)
     | Inr name \<Rightarrow>
    (case cert of
       Inl e \<Rightarrow> (Some 1, [''synctang-unlocker: '' @ error_text e], w)
     | Inr _ \<Rightarrow>
         if \<not> network then (Some 1, [], w)
         else open_loop U (j\<lparr>ojDevice := device, ojName := name\<rparr>) openVolume (H device) as w rng)))"

section \<open>Lemmas\<close>

text \<open>
  What it is for somebody who may to have approved: the machine listened for the key holders its
  token enrols, one of them connected, its answer on that connection recovered the secret, and the
  key made from it is that of a keyslot.
\<close>

definition approved ::
    "'h unlocker \<Rightarrow> 'h slots_view \<Rightarrow> 'h tokens_view \<Rightarrow> transport_listen \<Rightarrow> string \<Rightarrow> 'h \<Rightarrow> bytes \<Rightarrow> bool" where
  "approved U keys toks Listen addr h key \<longleftrightarrow>
    (\<exists>t tok c rng P slot. mr_token toks h t tok \<and>
      Listen \<lparr>AuthorizedPeers = map (canonicalOrRaw U) (List.map_filter TransportDeviceID (Recipients tok)),
        loDirectAddr = addr\<rparr> = Inr c \<and>
      answered U c tok h rng P \<and> key = luksKeyMaterial P \<and> keys h slot = Some key)"

lemma serve_approved:
  assumes "cryptsetup_ok (cs U) keys toks" "header_ok keys toks h"
    and "serveOneExchange U device name \<lparr>AuthorizedPeers = ps, loDirectAddr = addr\<rparr> Listen deliver h w rng = (r, c', w', rng')"
  shows "(w' = w \<and> r \<noteq> Inr ()) \<or>
    (\<exists>key. approved U keys toks Listen addr h key \<and> deliver key w = (r, w'))"
  using serve_delivery [OF assms] unfolding approved_def listen_options.simps by blast

lemma open_attempt:
  assumes "cryptsetup_ok (cs U) keys toks" "header_ok keys toks h"
    and law: "\<forall>d n k w e w'. openVolume d n k w = (Inl e, w') \<longrightarrow> w' = w"
    and run: "serveOneExchange U device mname \<lparr>AuthorizedPeers = ps, loDirectAddr = addr\<rparr> Listen (open_deliver openVolume device name) h w rng = (r, c', w', rng')"
  shows "(r \<noteq> Inr () \<and> w' = w) \<or>
    (r = Inr () \<and> (\<exists>key. approved U keys toks Listen addr h key \<and> openVolume device name key w = (Inr (), w')))"
  using serve_approved [OF assms(1,2) run]
proof
  assume "\<exists>key. approved U keys toks Listen addr h key \<and> open_deliver openVolume device name key w = (r, w')"
  then obtain key where k: "approved U keys toks Listen addr h key" "open_deliver openVolume device name key w = (r, w')"
    by blast
  obtain q w1 where q: "openVolume device name key w = (q, w1)" by fastforce
  with k law show ?thesis by (cases q) (auto simp: open_deliver_def)
qed auto

lemma open_loop_cases:
  assumes "cryptsetup_ok (cs U) keys toks" "header_ok keys toks h"
    and law: "\<forall>d n k w e w'. openVolume d n k w = (Inl e, w') \<longrightarrow> w' = w"
    and "open_loop U j openVolume h as w rng = (code, err, w')"
  shows "(code \<noteq> Some 0 \<and> w' = w) \<or>
    (code = Some 0 \<and> (\<exists>a \<in> set as. \<exists>key. approved U keys toks (fst a) (ojDirectAddr j) h key \<and>
      openVolume (ojDevice j) (ojName j) key w = (Inr (), w')))"
  using assms(4)
proof (induction as arbitrary: w rng err)
  case (Cons a as)
  obtain Listen timeUp where a: "a = (Listen, timeUp)" by fastforce
  obtain r c' w1 rng' where run: "serveOneExchange U (ojDevice j) (ojMachineName j)
      \<lparr>AuthorizedPeers = [], loDirectAddr = ojDirectAddr j\<rparr> Listen (open_deliver openVolume (ojDevice j) (ojName j)) h w rng =
      (r, c', w1, rng')" by (cases rule: prod_cases4)
  obtain code2 err2 w2 where rec: "open_loop U j openVolume h as w1 rng' = (code2, err2, w2)" by (cases rule: prod_cases3)
  show ?case
    using open_attempt [OF assms(1-3) run] Cons.prems Cons.IH [of w1 rng' err2] rec run a
    by (cases r; cases timeUp) auto
qed simp

section \<open>Property\<close>

text \<open>
  C36. Nothing is opened that was not approved: when \<open>open\<close> succeeds it has opened the named device,
  once, under a name that was not taken, with the key of one of the volume's own keyslots, recovered
  from the answer of the one enrolled key holder that connected in one of the attempts; however else
  it ends, and while it waits, nothing was opened.  A name that was given is a valid one; the name
  made from the header when none is given is used as it is, unchecked.
\<close>

theorem open_opens_only_approved:
  assumes "\<And>d. cryptsetup_ok (cs U) keys toks \<and> header_ok keys toks (H d)"
    and "\<forall>d n k w e w'. openVolume d n k w = (Inl e, w') \<longrightarrow> w' = w"
    and "runOpen U H isRoot mapperExists openVolume cert network deviceFlag args j as w rng = (code, err, w')"
  shows "(code \<noteq> Some 0 \<and> w' = w) \<or>
    (code = Some 0 \<and> isRoot \<and>
      (\<exists>device given dump name key. open_arguments deviceFlag args = Inr (device, given) \<and>
        luksDump (cs U) (H device) = Inr dump \<and> name = (if given = [] then defaultMapperName dump else given) \<and>
        (given = [] \<or> validMapperName given) \<and> \<not> mapperExists name w \<and>
        (\<exists>a \<in> set as. approved U keys toks (fst a) (ojDirectAddr j) (H device) key) \<and>
        openVolume device name key w = (Inr (), w')))"
proof (cases "open_arguments deviceFlag args")
  case (Inr p)
  obtain device given where p: "p = (device, given)" by fastforce
  have g: "given = [] \<or> validMapperName given"
    using Inr p by (auto simp: open_arguments_def Let_def split: if_splits)
  show ?thesis
  proof (cases "open_name U H isRoot (\<lambda>n. mapperExists n w) device given")
    case name: (Inr name)
    then obtain dump where n: "isRoot" "luksDump (cs U) (H device) = Inr dump"
      "name = (if given = [] then defaultMapperName dump else given)" "\<not> mapperExists name w"
      by (auto simp: open_name_def Let_def split: if_splits sum.splits prod.splits)
    show ?thesis
    proof (cases "\<exists>u. cert = Inr u \<and> network")
      case True
      then have "open_loop U (j\<lparr>ojDevice := device, ojName := name\<rparr>) openVolume (H device) as w rng = (code, err, w')"
        using assms(3) Inr p name by (auto simp: runOpen_def)
      from open_loop_cases [OF conjunct1 [OF assms(1)] conjunct2 [OF assms(1)] assms(2) this] g n Inr p
      show ?thesis by (auto split: if_splits)
    qed (use assms(3) Inr p name in \<open>auto simp: runOpen_def split: sum.splits\<close>)
  qed (use assms(3) Inr p in \<open>auto simp: runOpen_def\<close>)
qed (use assms(3) in \<open>auto simp: runOpen_def\<close>)

section \<open>An opening that runs\<close>

text \<open>Device-mapper as the list of what was opened, under which name and with which key.\<close>

definition demo_open :: "(string \<times> string \<times> bytes) list opener" where
  "demo_open d n k w = (Inr (), (d, n, k) # w)"

definition demo_job :: open_job where
  "demo_job = \<lparr>ojDevice = [], ojName = [], ojMachineName = ''host'', ojTimeout = 5 * Minute, ojDirectAddr = []\<rparr>"

theorem open_opens_only_approved_witness:
  "\<exists>rec c key. runOpen demo_U (\<lambda>_. demo_h1 rec) True (\<lambda>n w. n \<in> (fst \<circ> snd) ` set w) demo_open (Inr ()) True []
      [''/dev/sdb'', ''usb''] demo_job [(\<lambda>_. Inr c, False)] [] (scalar 5) =
      (Some 0, [], [(''/dev/sdb'', ''usb'', key)]) \<and>
    (\<exists>slot. mem_keys (demo_h1 rec) slot = Some key)"
proof -
  have "open_deliver demo_open ''/dev/sdb'' ''usb'' (luksKeyMaterial demo_secret) [] =
      (Inr (), [(''/dev/sdb'', ''usb'', luksKeyMaterial demo_secret)])"
    by (simp add: open_deliver_def demo_open_def)
  then obtain rec c c' where serve: "serveOneExchange demo_U ''/dev/sdb'' ''host'' \<lparr>AuthorizedPeers = [], loDirectAddr = []\<rparr>
      (\<lambda>_. Inr c) (open_deliver demo_open ''/dev/sdb'' ''usb'') (demo_h1 rec) [] (scalar 5) =
      (Inr (), Some c', [(''/dev/sdb'', ''usb'', luksKeyMaterial demo_secret)], [])"
    by (rule demo_serve)
  have args: "open_arguments [] [''/dev/sdb'', ''usb''] = Inr (''/dev/sdb'', ''usb'')"
    by (simp add: open_arguments_def validMapperName_def alnum_def)
  note d = mem_dump(1) [OF demo_h_ok(2) [of rec]]
  have l: "loadToken demo_U (demo_h1 rec) (dump_text (mem_items (demo_h1 rec))) [] [] = Inr (demo_tok rec, 1)"
    using one_load [OF demo_h_ok(2) [of rec, unfolded demo_h1_one] demo_tok_wf] by (simp add: demo_h1_one)
  have run: "runOpen demo_U (\<lambda>_. demo_h1 rec) True (\<lambda>n w. n \<in> (fst \<circ> snd) ` set w) demo_open (Inr ()) True []
      [''/dev/sdb'', ''usb''] demo_job [(\<lambda>_. Inr c, False)] [] (scalar 5) =
      (Some 0, [], [(''/dev/sdb'', ''usb'', luksKeyMaterial demo_secret)])"
    using serve by (simp add: runOpen_def args open_name_def d l demo_job_def)
  have ok: "cryptsetup_ok (cs demo_U) mem_keys mem_toks \<and> header_ok mem_keys mem_toks ((\<lambda>_. demo_h1 rec) d)" for d :: string
    by (simp add: mem_cs_ok demo_h1_header_ok)
  have law: "\<forall>d n k w e w'. demo_open d n k w = (Inl e, w') \<longrightarrow> w' = w" by (simp add: demo_open_def)
  from open_opens_only_approved [OF ok law run]
  have "\<exists>slot. mem_keys (demo_h1 rec) slot = Some (luksKeyMaterial demo_secret)"
    by (auto simp: demo_open_def approved_def)
  with run show ?thesis by blast
qed

text \<open>A machine with a RAM disk, an enrolled disk and a blank one: the enrolled disk is found.\<close>

definition demo_partitions :: string where
  "demo_partitions = ''major minor  #blocks  name'' @ [newline, newline] @ ''   1  0  4096 ram0'' @ [newline] @
    ''   8  0  500107608 sda'' @ [newline] @ ''   8  16  1024 sdb'' @ [newline]"

definition demo_disks :: "recipient \<Rightarrow> string \<Rightarrow> mem_header" where
  "demo_disks rec d = (if d = ''/dev/sdb'' then demo_h0 else demo_h1 rec)"

lemma demo_discover:
  "discoverAskingDevice demo_U (demo_disks rec) Inr askDir entries (Inr demo_partitions) = Inr ''/dev/sda''"
proof -
  have b: "blockDevices demo_partitions = [''/dev/sda'', ''/dev/sdb'']" by code_simp
  have "has_mr1_token demo_U (demo_disks rec) ''/dev/sda''"
    using mem_dump(1) [OF demo_h_ok(2)] mem_dump(3) [OF demo_h_ok(2)]
    by (simp add: has_mr1_token_def demo_disks_def demo_h1_def token_type_marshal)
  moreover have "\<not> has_mr1_token demo_U (demo_disks rec) ''/dev/sdb''"
    using mem_dump(1,3) [OF demo_h_ok(1)] by (simp add: has_mr1_token_def demo_disks_def demo_h0_def)
  ultimately show ?thesis
    using b by (simp add: discoverAskingDevice_def findMr1Devices_def chooseMr1Device_def)
qed

lemma discovered_device_is_meant_witness:
  "\<exists>rec. discoverAskingDevice demo_U (demo_disks rec) Inr ''/run'' (Inr []) (Inr demo_partitions) = Inr ''/dev/sda'' \<and>
    (\<exists>c \<in> set (blockCandidates demo_partitions). ''/dev/sda'' = ''/dev/'' @ cName c \<and> \<not> never_luks (cName c))"
proof -
  fix rec
  from discovered_device_is_meant
    [OF refl, where U = demo_U and H = "demo_disks rec" and EvalSymlinks = Inr and askDir = "''/run''" and entries = "Inr []"
      and partitions = demo_partitions] demo_discover [of rec "''/run''" "Inr []"]
  show ?thesis by auto
qed

end
