(* ===== verification/Initrd.thy ===== *)
theory Initrd
  imports GoTime
begin

text \<open>
  What the initrd carries, \<open>cmd/synctang-unlocker/initrd.go\<close>: comparing it with the machine's
  identity and network settings, and putting it right after an enrolment.  \<open>lsinitrd\<close> and
  \<open>dracut\<close> are parameters, as is SHA-256; a file that cannot be read is its error.
\<close>

section \<open>The initrd\<close>

abbreviation nl :: char where "nl \<equiv> CHR 0x0A"

definition initrdIdentity :: string where "initrdIdentity = ''etc/synctang/machine.pem''"
definition initrdNetworkConf :: string where "initrdNetworkConf = ''etc/synctang/network.conf''"
definition defaultMachineKeyFile :: string where "defaultMachineKeyFile = ''/etc/synctang/machine.pem''"

text \<open>The output of \<open>lsinitrd\<close>, and of \<open>lsinitrd -f name\<close>.\<close>

record initrd =
  inListing :: "string res"
  inContent :: "string \<Rightarrow> string res"

definition listed_name :: "string \<Rightarrow> string list" where
  "listed_name line =
    (let fs = Fields line in
     if length fs \<ge> 9 \<and> hd (fs ! 0) \<in> set ''-dl'' then [fs ! 8] else [])"

definition initrdListing :: "initrd \<Rightarrow> string list res" where
  "initrdListing i = map_sum (\<lambda>e. e) (\<lambda>out. concat (map listed_name (split_on nl out))) (inListing i)"

definition sameBytes :: "(string \<Rightarrow> bytes) \<Rightarrow> string \<Rightarrow> string \<Rightarrow> bool" where
  "sameBytes sha a b \<longleftrightarrow> sha a = sha b"

section \<open>Comparing\<close>

text \<open>The system's side: the paths of the two files, and what reading them gives.\<close>

record system_files =
  syIdentityPath :: string
  syConfPath :: string
  syIdentity :: "string res"
  syConf :: "string res"

record initrdStatus =
  stChecked :: bool
  stReason :: string
  stProblems :: "string list"

definition compare ::
    "(string \<Rightarrow> bytes) \<Rightarrow> initrd \<Rightarrow> string list \<Rightarrow> string \<Rightarrow> string res \<Rightarrow> (bool \<Rightarrow> bool \<Rightarrow> string) \<Rightarrow>
      initrdStatus \<Rightarrow> bool \<times> initrdStatus" where
  "compare sha i names name sys problems st =
    (let tell = (\<lambda>inInitrd differs. st\<lparr>stProblems := stProblems st @ [problems inInitrd differs]\<rparr>) in
     case sys of
       Inl _ \<Rightarrow> if name \<notin> set names then (True, st) else (True, tell True False)
     | Inr system \<Rightarrow>
         if name \<notin> set names then (True, tell False False)
         else
           (case inContent i name of
              Inl e \<Rightarrow> (False, st\<lparr>stChecked := False, stReason := error_text e\<rparr>)
            | Inr inside \<Rightarrow> (True, if \<not> sameBytes sha inside system then tell True True else st)))"

definition apostrophe :: string where "apostrophe = [CHR 0x27]"

definition identity_problem :: "string \<Rightarrow> bool \<Rightarrow> bool \<Rightarrow> string" where
  "identity_problem path inInitrd differs =
    (if differs then
       ''carries a different machine identity from '' @ path @
       '', so a key holder paired now would look for a machine that the next boot does not announce''
     else
       ''does not contain this machine'' @ apostrophe @ ''s identity ('' @ path @
       ''), so at boot the agent makes a new one that no key holder knows, and none can find this machine'')"

definition conf_problem :: "string \<Rightarrow> bool \<Rightarrow> bool \<Rightarrow> string" where
  "conf_problem path inInitrd differs =
    (if differs then
       ''carries a different network.conf from the current '' @ path @
       '', so at boot the agent would use the older relay and discovery settings''
     else if inInitrd then
       ''still carries a network.conf that no longer exists ('' @ path @
       ''), so at boot the agent would use servers that are no longer configured''
     else
       ''does not contain the current '' @ path @
       '', so at boot the agent would not use the relay and discovery servers it names'')"

definition checkInitrd :: "(string \<Rightarrow> bytes) \<Rightarrow> system_files \<Rightarrow> initrd \<Rightarrow> initrdStatus" where
  "checkInitrd sha sy i =
    (if \<not> is_ok (syIdentity sy) \<and> \<not> is_ok (syConf sy) then
       \<lparr>stChecked = True, stReason = [], stProblems = []\<rparr>
     else
       (case initrdListing i of
          Inl e \<Rightarrow> \<lparr>stChecked = False, stReason = error_text e, stProblems = []\<rparr>
        | Inr names \<Rightarrow>
            (case compare sha i names initrdIdentity (syIdentity sy) (identity_problem (syIdentityPath sy))
                \<lparr>stChecked = True, stReason = [], stProblems = []\<rparr> of
               (False, st) \<Rightarrow> st
             | (True, st) \<Rightarrow>
                 snd (compare sha i names initrdNetworkConf (syConf sy) (conf_problem (syConfPath sy)) st))))"

section \<open>Telling and repairing\<close>

text \<open>\<open>exists\<close> is \<open>os.Stat\<close>; what is printed is a list of lines.\<close>

definition printInitrdStatus :: "(string \<Rightarrow> bytes) \<Rightarrow> (string \<Rightarrow> bool) \<Rightarrow> system_files \<Rightarrow> initrd \<Rightarrow> string list" where
  "printInitrdStatus sha exists sy i =
    (let st = checkInitrd sha sy i in
     if \<not> stChecked st then [''initrd: could not be checked ('' @ stReason st @ '')'']
     else if stProblems st = [] then
       (if \<not> exists (syIdentityPath sy) then [''initrd: nothing to carry yet, this machine has no identity'']
        else [''initrd: carries this machine'' @ apostrophe @ ''s identity'' @
          (if exists (syConfPath sy) then '' and the current network.conf'' else [])])
     else map ((@) ''initrd: '') (stProblems st) @
       [''initrd: fix it with: dracut --force (as root; it rebuilds the initrd of the running kernel)''])"

text \<open>\<open>dracut\<close> rebuilds the initrd; the result is the exit status, the output, the errors and the initrd.\<close>

definition afterEnrolment ::
    "(string \<Rightarrow> bytes) \<Rightarrow> (string \<Rightarrow> bool) \<Rightarrow> (initrd \<Rightarrow> unit res \<times> initrd) \<Rightarrow> system_files \<Rightarrow> bool \<Rightarrow> initrd \<Rightarrow>
      int \<times> string list \<times> string list \<times> initrd" where
  "afterEnrolment sha exists dracut sy rebuild i =
    (let st = checkInitrd sha sy i in
     if stChecked st \<and> stProblems st = [] then (0, [], [], i)
     else if \<not> stChecked st \<and> \<not> rebuild then
       (0, [], [''synctang-unlocker: could not check whether the initrd carries this machine'' @ apostrophe @
          ''s identity ('' @ stReason st @ ''); after the first pairing run dracut --force, or this machine may not be found at boot''], i)
     else
       (let warned = (if stChecked st then map ((@) ''synctang-unlocker: warning: the initrd '') (stProblems st) else []) in
        if stChecked st \<and> \<not> rebuild then
          (0, [], warned @ [''synctang-unlocker: fix it with: dracut --force (as root), or repeat this command with --rebuild-initrd''], i)
        else
          (case dracut i of
             (Inl e, i1) \<Rightarrow>
               (1, [''rebuilding the initrd: dracut --force''],
                warned @ [''synctang-unlocker: the key holder was enrolled, but the initrd could not be rebuilt: '' @
                  error_text e @ ''; run dracut --force yourself''], i1)
           | (Inr _, i1) \<Rightarrow>
               (let after = checkInitrd sha sy i1 in
                if stChecked after \<and> stProblems after = [] then
                  (0, ''rebuilding the initrd: dracut --force'' # printInitrdStatus sha exists sy i1, warned, i1)
                else
                  (1, [''rebuilding the initrd: dracut --force''],
                   warned @ [''synctang-unlocker: the key holder was enrolled and dracut ran, but the initrd still does not match: '' @
                     (if stChecked after then join_with ''; '' (stProblems after) else stReason after)], i1)))))"

definition afterEnrolmentFor ::
    "(string \<Rightarrow> bytes) \<Rightarrow> (string \<Rightarrow> bool) \<Rightarrow> (initrd \<Rightarrow> unit res \<times> initrd) \<Rightarrow> system_files \<Rightarrow> bool \<Rightarrow> initrd \<Rightarrow>
      int \<times> string list \<times> string list \<times> initrd" where
  "afterEnrolmentFor sha exists dracut sy rebuild i =
    (if syIdentityPath sy \<noteq> defaultMachineKeyFile then (0, [], [], i)
     else afterEnrolment sha exists dracut sy rebuild i)"

section \<open>Lemmas\<close>

text \<open>What it is for an initrd to carry a file as the system has it, or to lack one it lacks.\<close>

definition carries :: "(string \<Rightarrow> bytes) \<Rightarrow> initrd \<Rightarrow> string list \<Rightarrow> string \<Rightarrow> string res \<Rightarrow> bool" where
  "carries sha i names name sys =
    (case sys of
       Inl _ \<Rightarrow> name \<notin> set names
     | Inr system \<Rightarrow>
         name \<in> set names \<and> (case inContent i name of Inr inside \<Rightarrow> sha inside = sha system | Inl _ \<Rightarrow> False))"

definition initrd_matches :: "(string \<Rightarrow> bytes) \<Rightarrow> system_files \<Rightarrow> initrd \<Rightarrow> bool" where
  "initrd_matches sha sy i \<longleftrightarrow>
    \<not> is_ok (syIdentity sy) \<and> \<not> is_ok (syConf sy) \<or>
    (case initrdListing i of
       Inl _ \<Rightarrow> False
     | Inr names \<Rightarrow>
         carries sha i names initrdIdentity (syIdentity sy) \<and> carries sha i names initrdNetworkConf (syConf sy))"

lemma compare_clean:
  assumes "compare sha i names name sys problems st = (b, st')" "stChecked st"
  shows "b \<longleftrightarrow> stChecked st'" and "carries sha i names name sys \<Longrightarrow> st' = st"
    and "stProblems st = [] \<Longrightarrow> stChecked st' \<and> stProblems st' = [] \<longleftrightarrow> carries sha i names name sys"
    and "stProblems st \<noteq> [] \<Longrightarrow> stProblems st' \<noteq> []"
  using assms by (auto simp: compare_def carries_def sameBytes_def Let_def split: sum.splits if_splits)

lemma checkInitrd_clean:
  "stChecked (checkInitrd sha sy i) \<and> stProblems (checkInitrd sha sy i) = [] \<longleftrightarrow> initrd_matches sha sy i"
proof (cases "\<not> is_ok (syIdentity sy) \<and> \<not> is_ok (syConf sy)")
  case False
  show ?thesis
  proof (cases "initrdListing i")
    case (Inr names)
    let ?st = "\<lparr>stChecked = True, stReason = [], stProblems = []\<rparr>"
    obtain b st where 1: "compare sha i names initrdIdentity (syIdentity sy) (identity_problem (syIdentityPath sy)) ?st = (b, st)"
      by fastforce
    obtain c st' where 2: "compare sha i names initrdNetworkConf (syConf sy) (conf_problem (syConfPath sy)) st = (c, st')"
      by fastforce
    have e: "checkInitrd sha sy i = (if b then st' else st)" "initrd_matches sha sy i \<longleftrightarrow>
        carries sha i names initrdIdentity (syIdentity sy) \<and> carries sha i names initrdNetworkConf (syConf sy)"
      using False Inr 1 2 by (auto simp: checkInitrd_def initrd_matches_def)
    show ?thesis unfolding e using compare_clean [OF 1] compare_clean [OF 2] by (cases b) auto
  qed (use False in \<open>auto simp: checkInitrd_def initrd_matches_def\<close>)
qed (simp add: checkInitrd_def initrd_matches_def)

section \<open>Property\<close>

text \<open>
  C34. A success can be believed: when a run that was told to rebuild the initrd ends with status 0, or
  one that was not ends without a word of warning, then the initrd as it is now carries the machine's
  identity and network settings by their hashes, and nothing the system no longer has; a run that was
  not told to rebuild leaves the initrd alone.
\<close>

theorem initrd_left_right:
  assumes "afterEnrolment sha exists dracut sy rebuild i = (code, out, err, i')"
  shows "(code = 0 \<and> (rebuild \<or> err = []) \<longrightarrow> initrd_matches sha sy i') \<and> (\<not> rebuild \<longrightarrow> i' = i \<and> code = 0) \<and>
    (initrd_matches sha sy i \<longrightarrow> i' = i \<and> code = 0 \<and> err = [])"
  using assms checkInitrd_clean [of sha sy i] checkInitrd_clean [of sha sy i']
  by (auto simp: afterEnrolment_def Let_def split: if_splits prod.splits sum.splits)

definition demo_files :: system_files where
  "demo_files = \<lparr>syIdentityPath = defaultMachineKeyFile, syConfPath = ''/etc/synctang/network.conf'',
     syIdentity = Inr ''key'', syConf = Inl IoEOF\<rparr>"

definition demo_line :: string where
  "demo_line = ''-rw------- 1 root root 773 Nov 3 22:18 etc/synctang/machine.pem''"

definition demo_built :: initrd where
  "demo_built = \<lparr>inListing = Inr demo_line, inContent = (\<lambda>_. Inr ''key'')\<rparr>"

theorem initrd_left_right_witness:
  "\<exists>out. afterEnrolment bytes_of (\<lambda>_. True) (\<lambda>i. (Inr (), demo_built)) demo_files True
      \<lparr>inListing = Inr [], inContent = (\<lambda>_. Inl IoEOF)\<rparr> =
      (0, out, [''synctang-unlocker: warning: the initrd '' @ identity_problem defaultMachineKeyFile False False], demo_built) \<and>
    initrd_matches bytes_of demo_files demo_built"
proof -
  let ?i = "\<lparr>inListing = Inr [], inContent = (\<lambda>_. Inl IoEOF)\<rparr> :: initrd"
  have l: "initrdListing ?i = Inr []" by (simp add: initrdListing_def listed_name_def Let_def Fields_def fields_from.simps push_field_def)
  have "listed_name demo_line = [initrdIdentity]" unfolding demo_line_def initrdIdentity_def by code_simp
  moreover have "split_on nl demo_line = [demo_line]" by (simp add: demo_line_def)
  ultimately have b: "initrdListing demo_built = Inr [initrdIdentity]" by (simp add: initrdListing_def demo_built_def)
  have n: "initrdNetworkConf \<noteq> initrdIdentity" by (simp add: initrdNetworkConf_def initrdIdentity_def)
  have c: "checkInitrd bytes_of demo_files ?i =
      \<lparr>stChecked = True, stReason = [], stProblems = [identity_problem defaultMachineKeyFile False False]\<rparr>"
    "checkInitrd bytes_of demo_files demo_built = \<lparr>stChecked = True, stReason = [], stProblems = []\<rparr>"
    using n by (simp_all add: checkInitrd_def l b demo_files_def compare_def Let_def sameBytes_def) (simp add: demo_built_def compare_def sameBytes_def Let_def)
  obtain out where run: "afterEnrolment bytes_of (\<lambda>_. True) (\<lambda>i. (Inr (), demo_built)) demo_files True ?i =
      (0, out, [''synctang-unlocker: warning: the initrd '' @ identity_problem defaultMachineKeyFile False False], demo_built)"
    by (simp add: afterEnrolment_def c Let_def)
  from initrd_left_right [OF this] run show ?thesis by auto
qed

end
