(* ===== verification/KeyholderMain.thy ===== *)
theory KeyholderMain
  imports Keyholder Lookup
begin

text \<open>
  The key holder's commands, \<open>cmd/synctang-keyholder/main.go\<close>, and the transport identity of
  \<open>mrcore/transport/cert.go\<close> they share with the machine.  Making a certificate is the standard
  library's work: \<open>X\<close> reads one from a PEM file, \<open>Gen\<close> is what making a new one came to.  The flags
  have been parsed; each line printed is an element of a list.
\<close>

section \<open>The transport identity\<close>

definition LoadOrCreateCert ::
    "(bytes \<Rightarrow> 'c res) \<Rightarrow> ('c \<times> bytes) res \<Rightarrow> string \<Rightarrow> filesys \<Rightarrow> 'c res \<times> filesys" where
  "LoadOrCreateCert X Gen path fs =
    (case os_ReadFile path fs of
       Inr data \<Rightarrow> (map_err (wrap (''transport: loading identity from '' @ path)) (X data), fs)
     | Inl err \<Rightarrow>
         if readErr fs path \<noteq> None then (Inl (wrap (''transport: reading '' @ path) err), fs)
         else
           (case Gen of
              Inl e \<Rightarrow> (Inl e, fs)
            | Inr (c, pem) \<Rightarrow>
                (case mkdirErr fs path of
                   Some e \<Rightarrow> (Inl (wrap (''transport: creating directory for '' @ path) e), fs)
                 | None \<Rightarrow>
                     (case os_WriteFile path pem fs of
                        (Inl e, fs') \<Rightarrow> (Inl (wrap (''transport: writing '' @ path) e), fs')
                      | (Inr _, fs') \<Rightarrow> (Inr c, fs')))))"

section \<open>Commands\<close>

definition keyholder_says :: "goerr \<Rightarrow> string" where
  "keyholder_says e = ''synctang-keyholder: '' @ error_text e"

definition needs_default :: "string \<Rightarrow> string" where
  "needs_default name = ''synctang-keyholder: --'' @ name @ '' is required (could not determine a default)''"

definition runInit ::
    "(bytes \<Rightarrow> 'c res) \<Rightarrow> ('c \<times> bytes) res \<Rightarrow> group_ops \<Rightarrow> string \<Rightarrow> string \<Rightarrow> bool \<Rightarrow> filesys \<Rightarrow> bytes \<Rightarrow>
      nat \<times> string list \<times> string list \<times> filesys \<times> bytes" where
  "runInit X Gen g keyFile transportKeyFile force fs rng =
    (if keyFile = [] then (2, [], [needs_default ''key-file''], fs, rng)
     else if transportKeyFile = [] then (2, [], [needs_default ''transport-key-file''], fs, rng)
     else
       (case generateAndSave g keyFile force fs rng of
          (Inl e, fs1, rng1) \<Rightarrow> (1, [], [keyholder_says e], fs1, rng1)
        | (Inr s, fs1, rng1) \<Rightarrow>
            (case LoadOrCreateCert X Gen transportKeyFile fs1 of
               (Inl e, fs2) \<Rightarrow> (1, [], [keyholder_says e], fs2, rng1)
             | (Inr c, fs2) \<Rightarrow>
                 (0, [''generated a new key at '' @ keyFile, ''transport identity at '' @ transportKeyFile], [], fs2, rng1))))"

definition runExportPubkey ::
    "(bytes \<Rightarrow> 'c res) \<Rightarrow> ('c \<times> bytes) res \<Rightarrow> ('c \<Rightarrow> string) \<Rightarrow> group_ops \<Rightarrow> string \<Rightarrow> string \<Rightarrow> filesys \<Rightarrow>
      nat \<times> string list \<times> string list \<times> filesys" where
  "runExportPubkey X Gen DevID g keyFile transportKeyFile fs =
    (if keyFile = [] then (2, [], [needs_default ''key-file''], fs)
     else if transportKeyFile = [] then (2, [], [needs_default ''transport-key-file''], fs)
     else
       (case publicKeyHex g keyFile fs of
          Inl e \<Rightarrow> (1, [], [keyholder_says e], fs)
        | Inr pubHex \<Rightarrow>
            (case LoadOrCreateCert X Gen transportKeyFile fs of
               (Inl e, fs1) \<Rightarrow> (1, [], [keyholder_says e], fs1)
             | (Inr c, fs1) \<Rightarrow> (0, [''S: '' @ pubHex, ''transport-id: '' @ DevID c], [], fs1))))"

definition defaultUnlockTimeout :: duration where "defaultUnlockTimeout = 2 * Minute"

text \<open>\<open>errors.As(err, &dial)\<close>.\<close>

fun as_dialError :: "goerr \<Rightarrow> bool" where
  "as_dialError (DialErr _) = True"
| "as_dialError (Wrap _ e _) = as_dialError e"
| "as_dialError (Joined es) = list_ex as_dialError es"
| "as_dialError (KindErr _ _ e) = as_dialError e"
| "as_dialError _ = False"

definition dialFailureHint ::
    "'a netlib_scheme \<Rightarrow> http_Do \<Rightarrow> int \<Rightarrow> string \<Rightarrow> string \<Rightarrow> int \<Rightarrow> string" where
  "dialFailureHint L Do lookupNow machineID discURL now =
    DialFailureHint (CheckMachine L Do lookupNow machineID discURL now)"

text \<open>
  \<open>unlock\<close> after its flags: the arguments, the network settings, the key and the identity, which is
  made here if there is none.  The result is an exit status with what was said on standard error, or
  the key, the identity and what was said so far.
\<close>

record unlock_options =
  uoKeyFile :: string
  uoTransportKeyFile :: string
  uoDirectAddr :: string
  uoYes :: bool

definition unlock_ready ::
    "(bytes \<Rightarrow> 'c res) \<Rightarrow> ('c \<times> bytes) res \<Rightarrow> unlock_options \<Rightarrow> string list \<Rightarrow> string res \<Rightarrow> filesys \<Rightarrow>
      ((nat \<times> string list) + (bytes \<times> 'c \<times> string list)) \<times> filesys" where
  "unlock_ready X Gen uo args network fs =
    (if length args \<noteq> 1 then
       (Inl (2, [''synctang-keyholder: unlock requires exactly one argument, the machine'' @ [CHR 0x27] @ ''s transport id'']), fs)
     else
       (case network of
          Inl e \<Rightarrow> (Inl (2, [''synctang-keyholder: network settings: '' @ error_text e]), fs)
        | Inr summary \<Rightarrow>
       (let said = (if summary = [] then [] else [''synctang-keyholder: '' @ summary]) in
        if uoKeyFile uo = [] then (Inl (2, said @ [needs_default ''key-file'']), fs)
        else if uoTransportKeyFile uo = [] then (Inl (2, said @ [needs_default ''transport-key-file'']), fs)
        else
          (case loadPrivateKey (uoKeyFile uo) fs of
             Inl e \<Rightarrow> (Inl (1, said @ [keyholder_says e]), fs)
           | Inr s \<Rightarrow>
               (case LoadOrCreateCert X Gen (uoTransportKeyFile uo) fs of
                  (Inl e, fs1) \<Rightarrow> (Inl (1, said @ [keyholder_says e]), fs1)
                | (Inr c, fs1) \<Rightarrow> (Inr (s, c, said), fs1))))))"

definition unlock_end :: "unlock_options \<Rightarrow> string \<Rightarrow> goerr \<Rightarrow> string list" where
  "unlock_end uo hint lastError =
    (''synctang-keyholder: '' @ error_text CtxDeadlineExceeded @ '' (last attempt: '' @ error_text lastError @ '')'') #
    (if uoDirectAddr uo = [] \<and> as_dialError lastError \<and> hint \<noteq> [] then [''synctang-keyholder: '' @ hint] else [])"

text \<open>
  One attempt: what dialling the machine as that identity gives, the line that approves, and whether
  the time was up when it had failed.  The loop ends with the error of the attempt that was the last,
  or none, and with what was printed; \<open>None\<close> while it is still waiting.
\<close>

record 'c unlock_try =
  utDial :: "'c \<Rightarrow> string \<Rightarrow> conn res"
  utApproval :: "goerr option"
  utTimeUp :: bool

fun unlock_loop ::
    "group_ops \<Rightarrow> bytes \<Rightarrow> 'c \<Rightarrow> string \<Rightarrow> bool \<Rightarrow> 'c unlock_try list \<Rightarrow> string \<Rightarrow> (goerr option \<times> string) option" where
  "unlock_loop g s c machineID yes [] out = None"
| "unlock_loop g s c machineID yes (t # ts) out =
    (case runUnlockOnce g s machineID yes (utApproval t) (utDial t c machineID) out of
       (Inr _, _, out1) \<Rightarrow> Some (None, out1)
     | (Inl e, _, out1) \<Rightarrow>
         if utTimeUp t then Some (Some e, out1) else unlock_loop g s c machineID yes ts out1)"

definition unlock_result ::
    "unlock_options \<Rightarrow> string \<Rightarrow> string list \<Rightarrow> (goerr option \<times> string) option \<Rightarrow> (nat \<times> string \<times> string list) option" where
  "unlock_result uo hint said r =
    (case r of
       None \<Rightarrow> None
     | Some (None, out) \<Rightarrow> Some (0, out, said)
     | Some (Some e, out) \<Rightarrow> Some (1, out, said @ unlock_end uo hint e))"

text \<open>The exit status, what was printed, what was said on standard error, and the files.\<close>

definition runUnlock ::
    "(bytes \<Rightarrow> 'c res) \<Rightarrow> ('c \<times> bytes) res \<Rightarrow> group_ops \<Rightarrow> unlock_options \<Rightarrow> string list \<Rightarrow> string res \<Rightarrow> string \<Rightarrow>
      'c unlock_try list \<Rightarrow> filesys \<Rightarrow> (nat \<times> string \<times> string list) option \<times> filesys" where
  "runUnlock X Gen g uo args network hint tries fs =
    (case unlock_ready X Gen uo args network fs of
       (Inl (code, err), fs1) \<Rightarrow> (Some (code, [], err), fs1)
     | (Inr (s, c, said), fs1) \<Rightarrow>
         (unlock_result uo hint said (unlock_loop g s c (args ! 0) (uoYes uo) tries []), fs1))"

section \<open>Lemmas\<close>

text \<open>An identity once made is the identity from then on.\<close>

definition reads_back :: "(bytes \<Rightarrow> 'c res) \<Rightarrow> ('c \<times> bytes) res \<Rightarrow> bool" where
  "reads_back X Gen \<longleftrightarrow> (\<forall>c pem. Gen = Inr (c, pem) \<longrightarrow> X pem = Inr c)"

lemma LoadOrCreateCert_Inr:
  assumes "LoadOrCreateCert X Gen path fs = (Inr c, fs')" "reads_back X Gen"
  shows "\<exists>pem. files fs' path = Some pem \<and> X pem = Inr c" and "readErr fs' = readErr fs" "readErr fs path = None"
    and "\<And>p. p \<noteq> path \<Longrightarrow> files fs' p = files fs p" and "files fs path \<noteq> None \<Longrightarrow> fs' = fs"
  using assms
  by (auto simp: LoadOrCreateCert_def os_ReadFile_def os_WriteFile_def reads_back_def map_err_def
      split: option.splits sum.splits if_splits prod.splits)

lemma LoadOrCreateCert_again:
  "readErr fs path = None \<Longrightarrow> files fs path = Some pem \<Longrightarrow> X pem = Inr c \<Longrightarrow> LoadOrCreateCert X Gen path fs = (Inr c, fs)"
  by (simp add: LoadOrCreateCert_def os_ReadFile_def)

text \<open>What a successful \<open>init\<close> leaves behind.\<close>

lemma runInit_0:
  assumes "runInit X Gen (p256Group N) kf tf force fs rng = (0, out, err, fs', rng')"
    and "reads_back X Gen" "kf \<noteq> tf" "readErr fs kf = None" "nistec_ok N pt"
  obtains c s where "files fs' tf \<noteq> None" "X (the (files fs' tf)) = Inr c"
    "readErr fs' = readErr fs" "readErr fs tf = None"
    "files fs tf \<noteq> None \<longrightarrow> files fs' tf = files fs tf"
    "RandomScalar (p256Group N) rng = Inr (s, rng')" "kf \<noteq> []" "tf \<noteq> []" "loadPrivateKey kf fs' = Inr s"
    "publicKeyHex (p256Group N) kf fs' = Inr (hex_EncodeToString (ptBytes N (pt (be_nat s))))"
proof -
  from assms(1) obtain s fs1 c where gen: "generateAndSave (p256Group N) kf force fs rng = (Inr s, fs1, rng')"
    and cert: "LoadOrCreateCert X Gen tf fs1 = (Inr c, fs')" and ne: "kf \<noteq> []" "tf \<noteq> []"
    by (auto simp: runInit_def split: if_splits sum.splits prod.splits)
  note k = generated_key [OF gen assms(4)]
  from gen have g: "readErr fs1 = readErr fs" "\<And>p. p \<noteq> kf \<Longrightarrow> files fs1 p = files fs p"
      "RandomScalar (p256Group N) rng = Inr (s, rng')"
    by (auto simp: generateAndSave_def os_WriteFile_def split: if_splits sum.splits option.splits)
  note c = LoadOrCreateCert_Inr [OF cert assms(2)]
  have len: "length s = 32" using g(3) randomScalarFrom_in_range by auto
  have "os_ReadFile kf fs' = os_ReadFile kf fs1"
    using c(2) c(4) [OF assms(3)] by (simp add: os_ReadFile_def split: option.split)
  then have "loadPrivateKey kf fs' = loadPrivateKey kf fs1" by (simp add: loadPrivateKey_def)
  moreover from this have "publicKeyHex (p256Group N) kf fs' = publicKeyHex (p256Group N) kf fs1"
    by (simp add: publicKeyHex_def)
  moreover have "p256_ScalarBaseMult N s = Inr (ptBytes N (pt (be_nat s)))"
    using nistec_ScalarBaseMult [OF assms(5) len] by (simp add: p256_ScalarBaseMult_def)
  ultimately show thesis
    using that [of c s] k c g ne assms(3) by auto
qed

section \<open>Property\<close>

text \<open>
  C37. A new key is not a new identity: after \<open>init\<close>, and again after a later \<open>init --force\<close>, the
  exported public key is that of the scalar just drawn, while the transport id stays the one that was
  there first, so that no machine this key holder was enrolled on forgets it; and \<open>unlock\<close> dials and
  answers with exactly these, the scalar of the last \<open>init\<close> and the same identity, and leaves the
  files as they are.
\<close>

theorem identity_survives_a_new_key:
  assumes "nistec_ok N pt" and "reads_back X Gen1" and "reads_back X Gen2" and "kf \<noteq> tf" and "readErr fs kf = None"
    and "runInit X Gen1 (p256Group N) kf tf force fs rng = (0, out1, err1, fs1, rng1)"
    and "runInit X Gen2 (p256Group N) kf tf True fs1 rng1 = (0, out2, err2, fs2, rng2)"
    and "uoKeyFile uo = kf" and "uoTransportKeyFile uo = tf"
  shows "\<exists>s1 s2 c. RandomScalar (p256Group N) rng = Inr (s1, rng1) \<and> RandomScalar (p256Group N) rng1 = Inr (s2, rng2) \<and>
    runExportPubkey X Gen3 DevID (p256Group N) kf tf fs1 =
      (0, [''S: '' @ hex_EncodeToString (ptBytes N (pt (be_nat s1))), ''transport-id: '' @ DevID c], [], fs1) \<and>
    runExportPubkey X Gen4 DevID (p256Group N) kf tf fs2 =
      (0, [''S: '' @ hex_EncodeToString (ptBytes N (pt (be_nat s2))), ''transport-id: '' @ DevID c], [], fs2) \<and>
    runUnlock X Gen5 (p256Group N) uo [machine] (Inr []) hint tries fs1 =
      (unlock_result uo hint [] (unlock_loop (p256Group N) s1 c machine (uoYes uo) tries []), fs1) \<and>
    runUnlock X Gen6 (p256Group N) uo [machine] (Inr []) hint tries fs2 =
      (unlock_result uo hint [] (unlock_loop (p256Group N) s2 c machine (uoYes uo) tries []), fs2) \<and>
    (\<forall>pem. files fs tf = Some pem \<longrightarrow> files fs2 tf = Some pem)"
proof -
  obtain c1 s1 where 1: "files fs1 tf \<noteq> None" "X (the (files fs1 tf)) = Inr c1" "readErr fs1 = readErr fs" "readErr fs tf = None"
    "files fs tf \<noteq> None \<longrightarrow> files fs1 tf = files fs tf" "RandomScalar (p256Group N) rng = Inr (s1, rng1)" "kf \<noteq> []" "tf \<noteq> []"
    "loadPrivateKey kf fs1 = Inr s1"
    "publicKeyHex (p256Group N) kf fs1 = Inr (hex_EncodeToString (ptBytes N (pt (be_nat s1))))"
    by (rule runInit_0 [OF assms(6,2,4,5,1)])
  have "readErr fs1 kf = None" using 1(3) assms(5) by simp
  then obtain c2 s2 where 2: "files fs2 tf \<noteq> None" "X (the (files fs2 tf)) = Inr c2" "readErr fs2 = readErr fs1" "readErr fs1 tf = None"
    "files fs1 tf \<noteq> None \<longrightarrow> files fs2 tf = files fs1 tf" "RandomScalar (p256Group N) rng1 = Inr (s2, rng2)" "kf \<noteq> []" "tf \<noteq> []"
    "loadPrivateKey kf fs2 = Inr s2"
    "publicKeyHex (p256Group N) kf fs2 = Inr (hex_EncodeToString (ptBytes N (pt (be_nat s2))))"
    using runInit_0 [OF assms(7,3,4) _ assms(1)] by blast
  have same: "files fs2 tf = files fs1 tf" "c2 = c1" using 1(1,2) 2(2,5) by auto
  have cert: "LoadOrCreateCert X Gen tf fs1 = (Inr c1, fs1)" "LoadOrCreateCert X Gen tf fs2 = (Inr c1, fs2)" for Gen
    using 1(1-4) 2(1-4) same by (auto intro: LoadOrCreateCert_again)
  from cert 1 2 have "runExportPubkey X Gen3 DevID (p256Group N) kf tf fs1 =
      (0, [''S: '' @ hex_EncodeToString (ptBytes N (pt (be_nat s1))), ''transport-id: '' @ DevID c1], [], fs1)"
    "runExportPubkey X Gen4 DevID (p256Group N) kf tf fs2 =
      (0, [''S: '' @ hex_EncodeToString (ptBytes N (pt (be_nat s2))), ''transport-id: '' @ DevID c1], [], fs2)"
    by (simp_all add: runExportPubkey_def)
  moreover from cert 1(7-9) 2(9) assms(8,9) have
    "runUnlock X Gen5 (p256Group N) uo [machine] (Inr []) hint tries fs1 =
      (unlock_result uo hint [] (unlock_loop (p256Group N) s1 c1 machine (uoYes uo) tries []), fs1)"
    "runUnlock X Gen6 (p256Group N) uo [machine] (Inr []) hint tries fs2 =
      (unlock_result uo hint [] (unlock_loop (p256Group N) s2 c1 machine (uoYes uo) tries []), fs2)"
    by (simp_all add: runUnlock_def unlock_ready_def)
  moreover have "\<forall>pem. files fs tf = Some pem \<longrightarrow> files fs2 tf = Some pem" using 1(5) same(1) by auto
  ultimately show ?thesis using 1(6) 2(6) by blast
qed

definition demo_disk :: filesys where
  "demo_disk = \<lparr>files = Map.empty, readErr = (\<lambda>_. None), mkdirErr = (\<lambda>_. None), writeErr = (\<lambda>_. None)\<rparr>"

theorem identity_survives_a_new_key_witness:
  "\<exists>fs1 fs2 o1 o2 i. runInit Inr (Inr ([1], [1])) (p256Group zn_nistec) ''k'' ''t'' False demo_disk (scalar 5 @ scalar 7) = (0, o1, [], fs1, scalar 7) \<and>
    runInit Inr (Inr ([2], [2])) (p256Group zn_nistec) ''k'' ''t'' True fs1 (scalar 7) = (0, o2, [], fs2, []) \<and>
    fst (snd (runExportPubkey Inr (Inl IoEOF) string_of (p256Group zn_nistec) ''k'' ''t'' fs2)) =
      [''S: '' @ hex_EncodeToString (ptBytes zn_nistec (zn_pt 7)), ''transport-id: '' @ i]"
proof -
  have r: "RandomScalar (p256Group zn_nistec) (scalar 5 @ scalar 7) = Inr (scalar 5, scalar 7)"
    "RandomScalar (p256Group zn_nistec) (scalar 7) = Inr (scalar 7, [])"
    using randomScalarFrom_accept [of "scalar 5" "scalar 7"] randomScalarFrom_accept [of "scalar 7" "[]"]
    by (simp_all add: be_nat_scalar p256N_def)
  have law: "reads_back Inr (Inr ([1], [1]))" "reads_back Inr (Inr ([2], [2]))" by (simp_all add: reads_back_def)
  have e: "readErr demo_disk ''k'' = None" by (simp add: demo_disk_def)
  obtain fs1 o1 where 1: "runInit Inr (Inr ([1], [1])) (p256Group zn_nistec) ''k'' ''t'' False demo_disk (scalar 5 @ scalar 7) =
      (0, o1, [], fs1, scalar 7)" "readErr fs1 = (\<lambda>_. None)" "mkdirErr fs1 = (\<lambda>_. None)" "writeErr fs1 = (\<lambda>_. None)"
      "files fs1 ''t'' = Some [1]"
    using r by (simp add: runInit_def generateAndSave_def LoadOrCreateCert_def os_ReadFile_def os_WriteFile_def demo_disk_def)
  obtain fs2 o2 where 2: "runInit Inr (Inr ([2], [2])) (p256Group zn_nistec) ''k'' ''t'' True fs1 (scalar 7) = (0, o2, [], fs2, [])"
    using r 1(2-5) by (simp add: runInit_def generateAndSave_def LoadOrCreateCert_def os_ReadFile_def os_WriteFile_def)
  have ne: "''k'' \<noteq> ''t''" by simp
  let ?uo = "\<lparr>uoKeyFile = ''k'', uoTransportKeyFile = ''t'', uoDirectAddr = [], uoYes = True\<rparr>"
  obtain s1 s2 i where x: "RandomScalar (p256Group zn_nistec) (scalar 7) = Inr (s2, [])"
    "fst (snd (runExportPubkey Inr (Inl IoEOF) string_of (p256Group zn_nistec) ''k'' ''t'' fs2)) =
      [''S: '' @ hex_EncodeToString (ptBytes zn_nistec (zn_pt (be_nat s2))), ''transport-id: '' @ i]"
    using identity_survives_a_new_key [OF zn_nistec_ok law ne e 1(1) 2, of ?uo "Inl IoEOF" string_of "Inl IoEOF"
        "Inl IoEOF" "''M''" "[]" "[]" "Inl IoEOF"] by auto
  from x(1) r(2) have "be_nat s2 = 7" by (simp add: be_nat_scalar)
  with x(2) 1(1) 2 show ?thesis by metis
qed

end
