(* ===== verification/Status.thy ===== *)
theory Status
  imports Devices Initrd KeyholderMain RotationDemo
begin

text \<open>
  Showing who can unlock a volume, \<open>cmd/synctang-unlocker/status.go\<close>, with the identity of the
  machine and the state of its initrd.
\<close>

section \<open>What is shown\<close>

definition readCertIfPresent :: "(bytes \<Rightarrow> 'c res) \<Rightarrow> ('c \<times> bytes) res \<Rightarrow> string \<Rightarrow> filesys \<Rightarrow> 'c option res" where
  "readCertIfPresent X Gen path fs =
    (if readErr fs path = None \<and> files fs path = None then Inr None
     else (case fst (LoadOrCreateCert X Gen path fs) of Inl e \<Rightarrow> Inl e | Inr c \<Rightarrow> Inr (Some c)))"

definition shown_id :: "recipient \<Rightarrow> string" where
  "shown_id rec =
    (case TransportDeviceID rec of
       None \<Rightarrow> ''(none recorded: cannot be dialled or revoked by id)''
     | Some i \<Rightarrow> if i = [] then ''(none recorded: cannot be dialled or revoked by id)'' else i)"

definition recipient_line :: "token \<Rightarrow> nat \<Rightarrow> string" where
  "recipient_line tok i =
    ''  '' @ shown_id (Recipients tok ! i) @ ''  keyslot '' @
    (if i < length (Keyslots tok) then Keyslots tok ! i else ''(unknown)'') @ ''  kid '' @ shortKid (Kid (Recipients tok ! i))"

text \<open>The transport ids that are enrolled more than once, each once.\<close>

fun warned_ids :: "'h unlocker \<Rightarrow> token \<Rightarrow> string list \<Rightarrow> recipient list \<Rightarrow> string list" where
  "warned_ids U tok seen [] = []"
| "warned_ids U tok seen (rec # rest) =
    (case TransportDeviceID rec of
       None \<Rightarrow> warned_ids U tok seen rest
     | Some i \<Rightarrow>
         if i = [] \<or> canonicalOrRaw U i \<in> set seen then warned_ids U tok seen rest
         else (if length (recipientsByTransportID U tok i) > 1 then [i] else []) @
           warned_ids U tok (canonicalOrRaw U i # seen) rest)"

definition warning_line :: "'h unlocker \<Rightarrow> token \<Rightarrow> string \<Rightarrow> string \<Rightarrow> string" where
  "warning_line U tok device i =
    (let idxs = recipientsByTransportID U tok i in
     ''WARNING: transport id '' @ i @ '' is enrolled '' @ show_nat (length idxs) @ '' times ('' @
     describeRecipients tok idxs @ ''), so the agent will refuse to answer for it. '' @
     ''Keep the entry whose key is current and remove each of the others with: '' @
     ''synctang-unlocker enrol --device '' @ device @ '' --remove '' @ i @ '' --keyslot <n> --existing-passphrase-file ...'')"

definition token_lines :: "'h unlocker \<Rightarrow> string \<Rightarrow> token \<Rightarrow> int \<Rightarrow> string list" where
  "token_lines U device tok tid =
    (if tid < 0 \<or> length (Recipients tok) = 0 then [''no key holder is enrolled on this device'']
     else
       (if mName (Machine tok) \<noteq> [] then [''machine name shown to key holders: '' @ mName (Machine tok)] else []) @
       [''mr-1 token: '' @ show_int tid, ''enrolled key holders: '' @ show_nat (length (Recipients tok))] @
       map (recipient_line tok) [0..<length (Recipients tok)] @
       map (warning_line U tok device) (warned_ids U tok [] (Recipients tok)))"

definition unlocker_says :: "goerr \<Rightarrow> string" where
  "unlocker_says e = ''synctang-unlocker: '' @ error_text e"

text \<open>\<open>found\<close> is the device discovered when none was given; \<open>initrdLines\<close> what is said of the initrd.\<close>

definition runStatus ::
    "'h unlocker \<Rightarrow> (string \<Rightarrow> 'h) \<Rightarrow> (bytes \<Rightarrow> 'c res) \<Rightarrow> ('c \<times> bytes) res \<Rightarrow> ('c \<Rightarrow> string) \<Rightarrow> filesys \<Rightarrow>
      string res \<Rightarrow> string list \<Rightarrow> string \<Rightarrow> string \<Rightarrow> nat \<times> string list \<times> string list" where
  "runStatus U H X Gen DevID fs found initrdLines device machineKeyFile =
    (case (if device = [] then found else Inr device) of
       Inl e \<Rightarrow> (1, [], [unlocker_says e])
     | Inr active \<Rightarrow>
    (case readCertIfPresent X Gen machineKeyFile fs of
       Inl e \<Rightarrow> (1, [''device: '' @ active], [''synctang-unlocker: reading '' @ machineKeyFile @ '': '' @ error_text e])
     | Inr cert \<Rightarrow>
       (let said = [''device: '' @ active,
              (case cert of
                 None \<Rightarrow> ''this machine'' @ apostrophe @ ''s transport id: not created yet ('' @ machineKeyFile @ '')''
               | Some c \<Rightarrow> ''this machine'' @ apostrophe @ ''s transport id: '' @ DevID c)] @
              (if machineKeyFile = defaultMachineKeyFile then initrdLines else []) in
        case luksDump (cs U) (H active) of
          Inl e \<Rightarrow> (1, said, [''synctang-unlocker: reading the LUKS2 header: '' @ error_text e])
        | Inr dump \<Rightarrow>
            (case loadToken U (H active) dump [] [] of
               Inl e \<Rightarrow> (1, said, [unlocker_says e])
             | Inr (tok, tid) \<Rightarrow> (0, said @ token_lines U active tok tid, [])))))"

section \<open>Lemmas\<close>

lemma in_same_id:
  "TransportDeviceID (Recipients tok ! i) = Some a \<Longrightarrow> i < length (Recipients tok) \<Longrightarrow>
    canonicalOrRaw U a = canonicalOrRaw U p \<Longrightarrow> i \<in> set (recipientsByTransportID U tok p)"
  by (simp add: recipientsByTransportID_def Let_def)

lemma same_canonical:
  "canonicalOrRaw U a = canonicalOrRaw U p \<Longrightarrow> recipientsByTransportID U tok a = recipientsByTransportID U tok p"
  by (simp add: recipientsByTransportID_def)

lemma warned_ids_fresh:
  "i \<in> set (warned_ids U tok seen recs) \<Longrightarrow>
    canonicalOrRaw U i \<notin> set seen \<and> 1 < length (recipientsByTransportID U tok i)"
  by (induction U tok seen recs rule: warned_ids.induct) (auto split: option.splits if_splits)

lemma warned_ids_once: "distinct (map (canonicalOrRaw U) (warned_ids U tok seen recs))"
proof (induction U tok seen recs rule: warned_ids.induct)
  case (2 U tok seen rec rest)
  then show ?case using warned_ids_fresh [of _ U tok "canonicalOrRaw U (the (TransportDeviceID rec)) # seen" rest]
    by (force split: option.splits)
qed simp

lemma warned_ids_all:
  assumes "rec \<in> set recs" "TransportDeviceID rec = Some a" "a \<noteq> []" "canonicalOrRaw U a \<notin> set seen"
    "1 < length (recipientsByTransportID U tok a)"
  shows "\<exists>i \<in> set (warned_ids U tok seen recs). canonicalOrRaw U i = canonicalOrRaw U a"
  using assms
proof (induction U tok seen recs rule: warned_ids.induct)
  case (2 U tok seen rec' rest)
  show ?case
  proof (cases "TransportDeviceID rec'")
    case None
    with 2 show ?thesis by auto
  next
    case (Some b)
    show ?thesis
    proof (cases "canonicalOrRaw U b = canonicalOrRaw U a \<and> b \<noteq> []")
      case True
      then have "canonicalOrRaw U b \<notin> set seen" "1 < length (recipientsByTransportID U tok b)"
        using "2.prems" same_canonical [of U b a tok] by simp_all
      with Some True show ?thesis by auto
    next
      case False
      with 2 Some have "\<exists>i \<in> set (warned_ids U tok (if b = [] \<or> canonicalOrRaw U b \<in> set seen then seen
          else canonicalOrRaw U b # seen) rest). canonicalOrRaw U i = canonicalOrRaw U a" by auto
      with Some show ?thesis by (auto split: if_splits)
    qed
  qed
qed simp

lemma long_distinct:
  assumes "distinct xs"
  shows "1 < length xs \<longleftrightarrow> (\<exists>a b. a \<noteq> b \<and> a \<in> set xs \<and> b \<in> set xs)"
  using assms by (cases xs; cases "tl xs") auto

lemma two_of_an_id:
  "1 < length (recipientsByTransportID U tok p) \<longleftrightarrow>
    (\<exists>i j. i \<noteq> j \<and> has_transport U tok p i \<and> has_transport U tok p j)"
  using long_distinct [OF distinct_recipientsByTransportID [of U tok p]] by (simp add: in_recipientsByTransportID)

section \<open>Property\<close>

text \<open>A volume on which the same phone is enrolled a second time.\<close>

definition twice :: "token \<Rightarrow> token" where
  "twice tok = tok\<lparr>Recipients := Recipients tok @ Recipients tok, Keyslots := Keyslots tok @ Keyslots tok\<rparr>"

text \<open>
  C38. \<open>status\<close> warns of exactly what stops the agent: a key holder's identity is among the ids warned
  of if and only if two or more entries have it, and then the agent refuses it before saying anything;
  each such identity is warned of once, in whatever spelling the entries have it.
\<close>

theorem status_warns_what_stops_the_agent:
  assumes "canonicalOrRaw U p \<noteq> canonicalOrRaw U []"
  shows "((\<exists>i \<in> set (warned_ids U tok [] (Recipients tok)). canonicalOrRaw U i = canonicalOrRaw U p) \<longleftrightarrow>
      (\<exists>i j. i \<noteq> j \<and> has_transport U tok p i \<and> has_transport U tok p j)) \<and>
    ((\<exists>i j. i \<noteq> j \<and> has_transport U tok p i \<and> has_transport U tok p j) \<longrightarrow> (\<exists>e. matchRecipient U tok p = Inl e)) \<and>
    distinct (map (canonicalOrRaw U) (warned_ids U tok [] (Recipients tok)))"
proof -
  let ?W = "set (warned_ids U tok [] (Recipients tok))"
  let ?two = "\<exists>i j. i \<noteq> j \<and> has_transport U tok p i \<and> has_transport U tok p j"
  have warned: "1 < length (recipientsByTransportID U tok p)" if i: "i \<in> ?W" "canonicalOrRaw U i = canonicalOrRaw U p" for i
    using warned_ids_fresh [OF i(1)] same_canonical [OF i(2), of tok] by simp
  have "\<exists>i \<in> ?W. canonicalOrRaw U i = canonicalOrRaw U p" if l: "1 < length (recipientsByTransportID U tok p)"
  proof -
    from l obtain k where "k \<in> set (recipientsByTransportID U tok p)" by (cases "recipientsByTransportID U tok p") auto
    then obtain a where a: "k < length (Recipients tok)" "TransportDeviceID (Recipients tok ! k) = Some a"
      "canonicalOrRaw U a = canonicalOrRaw U p" by (auto simp: in_recipientsByTransportID has_transport_def)
    from a(3) assms have "a \<noteq> []" by auto
    with warned_ids_all [of "Recipients tok ! k" "Recipients tok" a U "[]" tok] a l same_canonical [OF a(3), of tok]
    show ?thesis by simp
  qed
  moreover have "\<exists>e. matchRecipient U tok p = Inl e" if "1 < length (recipientsByTransportID U tok p)"
    using that by (auto simp: matchRecipient_def Let_def split: list.splits)
  ultimately show ?thesis using warned two_of_an_id [of U tok p] warned_ids_once [of U tok "[]" "Recipients tok"] by blast
qed

lemma status_warns_what_stops_the_agent_witness:
  "\<exists>rec. warned_ids demo_U (twice (demo_tok rec)) [] (Recipients (twice (demo_tok rec))) \<noteq> [] \<and>
    (\<exists>e. matchRecipient demo_U (twice (demo_tok rec)) demo_phone = Inl e)"
proof -
  fix rec
  have c: "canonicalOrRaw demo_U demo_phone \<noteq> canonicalOrRaw demo_U []"
  proof -
    have "TrimSpace [] = []" by code_simp
    then show ?thesis using demo_canonical by (simp add: canonicalOrRaw_def canonicalDeviceID_def demo_phone_def)
  qed
  have h: "has_transport demo_U (twice (demo_tok rec)) demo_phone 0"
    "has_transport demo_U (twice (demo_tok rec)) demo_phone 1"
    using demo_found [of rec] in_recipientsByTransportID [of 0 demo_U "demo_tok rec" demo_phone]
    by (simp_all add: twice_def has_transport_def demo_tok_fields)
  show ?thesis using status_warns_what_stops_the_agent [OF c, of "twice (demo_tok rec)"] h zero_neq_one
    by (metis empty_iff list.set(1))
qed

end
