(* ===== verification/Journal.thy ===== *)
theory Journal
  imports GoTime Json
begin

text \<open>
  Writing to the systemd journal, \<open>internal/journal/journal.go\<close>: the entries of journald's native
  protocol, the names of their fields, and the handler that sends a log record as one entry.  A
  datagram is a string.
\<close>

section \<open>One entry\<close>

definition maxValue :: nat where
  "maxValue = 32 * 1024"

abbreviation newline :: char where "newline \<equiv> CHR 0x0A"

definition le64 :: "nat \<Rightarrow> string" where
  "le64 n = string_of (rev (be_bytes 8 n))"

definition cut_value :: "string \<Rightarrow> string" where
  "cut_value v = (if length v > maxValue then take maxValue v @ '' [cut]'' else v)"

definition appendField :: "string \<Rightarrow> string \<Rightarrow> string \<Rightarrow> string" where
  "appendField b name val =
    (let v = cut_value val in
     if newline \<notin> set v \<and> CHR 0x00 \<notin> set v then b @ name @ ''='' @ v @ [newline]
     else b @ name @ [newline] @ le64 (length v) @ v @ [newline])"

type_synonym field = "string \<times> string"

text \<open>Go's remainder takes the sign of the dividend.\<close>

definition priority_digit :: "int \<Rightarrow> string" where
  "priority_digit p = [char_of (nat (48 + (if p < 0 then - (- p mod 10) else p mod 10)))]"

definition Encode :: "int \<Rightarrow> string \<Rightarrow> string \<Rightarrow> field list \<Rightarrow> string" where
  "Encode priority identifier message fs =
    (let b1 = appendField [] ''PRIORITY'' (priority_digit priority);
         b2 = appendField b1 ''SYSLOG_IDENTIFIER'' identifier;
         b3 = appendField b2 ''MESSAGE'' message in
     fold (\<lambda>(name, val) b. appendField b name val) fs b3)"

definition field_char :: "char \<Rightarrow> bool" where
  "field_char c =
    (let n = of_char c :: nat in 65 \<le> n \<and> n \<le> 90 \<or> 48 \<le> n \<and> n \<le> 57 \<or> c = CHR ''_'')"

definition is_digit :: "char \<Rightarrow> bool" where
  "is_digit c = (let n = of_char c :: nat in 48 \<le> n \<and> n \<le> 57)"

text \<open>
  The bytes of \<open>strings.ToUpper(key)\<close>, replaced by underscores where they cannot be in a name.  Rune
  by rune: the dotless i and the long s have ASCII upper cases; of the other runes outside ASCII only
  the length of the upper case is left to see, which these two lists have where it is not the rune's
  own (simple case mapping, Unicode 15); a byte that is no rune becomes U+FFFD, three bytes.
\<close>

definition upper_longer :: "string list" where
  "upper_longer =
    [[CHR 0xC8, CHR 0xBF], [CHR 0xC9, CHR 0x80], [CHR 0xC9, CHR 0x90], [CHR 0xC9, CHR 0x91],
     [CHR 0xC9, CHR 0x92], [CHR 0xC9, CHR 0x9C], [CHR 0xC9, CHR 0xA1], [CHR 0xC9, CHR 0xA5],
     [CHR 0xC9, CHR 0xA6], [CHR 0xC9, CHR 0xAA], [CHR 0xC9, CHR 0xAB], [CHR 0xC9, CHR 0xAC],
     [CHR 0xC9, CHR 0xB1], [CHR 0xC9, CHR 0xBD], [CHR 0xCA, CHR 0x82], [CHR 0xCA, CHR 0x87],
     [CHR 0xCA, CHR 0x9D], [CHR 0xCA, CHR 0x9E]]"

definition upper_shorter :: "string list" where
  "upper_shorter =
    [[CHR 0xE1, CHR 0xB2, CHR 0x80], [CHR 0xE1, CHR 0xB2, CHR 0x81], [CHR 0xE1, CHR 0xB2, CHR 0x82],
     [CHR 0xE1, CHR 0xB2, CHR 0x83], [CHR 0xE1, CHR 0xB2, CHR 0x84], [CHR 0xE1, CHR 0xB2, CHR 0x85],
     [CHR 0xE1, CHR 0xB2, CHR 0x86], [CHR 0xE1, CHR 0xB2, CHR 0x87], [CHR 0xE1, CHR 0xBE, CHR 0xBE],
     [CHR 0xE2, CHR 0xB1, CHR 0xA5], [CHR 0xE2, CHR 0xB1, CHR 0xA6]]"

definition upper_field :: "string \<Rightarrow> string" where
  "upper_field u =
    (if u = [CHR 0xC4, CHR 0xB1] then ''I''
     else if u = [CHR 0xC5, CHR 0xBF] then ''S''
     else if length u = 1 then [let c = upper_char (hd u) in if field_char c then c else CHR ''_'']
     else replicate (if u \<in> set upper_longer then 3 else if u \<in> set upper_shorter then 2 else length u) (CHR ''_''))"

function field_bytes :: "string \<Rightarrow> string" where
  "field_bytes [] = []"
| "field_bytes (c # s) =
    (case utf8_next (c # s) of
       None \<Rightarrow> ''___'' @ field_bytes s
     | Some (u, rest) \<Rightarrow> upper_field u @ field_bytes rest)"
  by pat_completeness auto

termination
  by (relation "measure length") (auto dest!: utf8_next_shrinks)

definition FieldName :: "string \<Rightarrow> string option" where
  "FieldName key =
    (let name = field_bytes key in
     if name = [] \<or> name ! 0 = CHR ''_'' \<or> is_digit (name ! 0) then None
     else if name \<in> {''MESSAGE'', ''PRIORITY'', ''SYSLOG_IDENTIFIER''} then None
     else Some name)"

section \<open>Levels\<close>

definition LevelDebug :: int where "LevelDebug = -4"
definition LevelInfo :: int where "LevelInfo = 0"
definition LevelWarn :: int where "LevelWarn = 4"
definition LevelError :: int where "LevelError = 8"

definition Priority :: "int \<Rightarrow> int" where
  "Priority level =
    (if level \<ge> LevelError then 3 else if level \<ge> LevelWarn then 4 else if level \<ge> LevelInfo then 6 else 7)"

section \<open>The connection\<close>

definition DefaultTimeout :: int where "DefaultTimeout = 1000000000"

record jconn =
  jcTimeout :: int
  jcIdentifier :: string

definition write_timeout :: "jconn \<Rightarrow> int" where
  "write_timeout c = (if jcTimeout c = 0 then DefaultTimeout else jcTimeout c)"

text \<open>\<open>write\<close> is the socket: what became of a datagram given that long.\<close>

definition Send :: "(int \<Rightarrow> string \<Rightarrow> unit res) \<Rightarrow> jconn \<Rightarrow> int \<Rightarrow> string \<Rightarrow> field list \<Rightarrow> unit res \<times> string" where
  "Send write c priority message fs =
    (let data = Encode priority (jcIdentifier c) message fs in (write (write_timeout c) data, data))"

section \<open>The handler\<close>

text \<open>An attribute of a log record: a value by its text, or a group of attributes.\<close>

datatype attr = Attr string string | Group string "attr list"

record log_record =
  lrLevel :: int
  lrMessage :: string
  lrAttrs :: "attr list"

text \<open>
  \<open>hsTold\<close> are the calls of \<open>onError\<close>, \<open>hsSent\<close> the datagrams the socket took.
\<close>

record handlerState =
  hsConn :: jconn
  hsOnError :: bool
  hsOnce :: bool
  hsFailed :: bool
  hsTold :: "goerr list"
  hsSent :: "string list"

record jhandler =
  jhLevel :: int
  jhAttrs :: "attr list"
  jhGroup :: string

definition NewHandler :: "jconn \<Rightarrow> int \<Rightarrow> bool \<Rightarrow> jhandler \<times> handlerState" where
  "NewHandler c level onError =
    (\<lparr>jhLevel = level, jhAttrs = [], jhGroup = []\<rparr>,
     \<lparr>hsConn = c, hsOnError = onError, hsOnce = False, hsFailed = False, hsTold = [], hsSent = []\<rparr>)"

definition Working :: "handlerState \<Rightarrow> bool" where
  "Working st \<longleftrightarrow> \<not> hsFailed st"

definition journal_Enabled :: "jhandler \<Rightarrow> int \<Rightarrow> bool" where
  "journal_Enabled h level \<longleftrightarrow> level \<ge> jhLevel h"

fun walk :: "string \<Rightarrow> attr \<Rightarrow> field list" where
  "walk pre (Group key as) = concat (map (walk (if key \<noteq> [] then pre @ key @ ''.'' else pre)) as)"
| "walk pre (Attr key val) = (case FieldName (pre @ key) of Some name \<Rightarrow> [(name, val)] | None \<Rightarrow> [])"

definition record_fields :: "jhandler \<Rightarrow> log_record \<Rightarrow> field list" where
  "record_fields h r = concat (map (walk []) (jhAttrs h)) @ concat (map (walk (jhGroup h)) (lrAttrs r))"

definition journal_Handle ::
    "(int \<Rightarrow> string \<Rightarrow> unit res) \<Rightarrow> jhandler \<Rightarrow> log_record \<Rightarrow> handlerState \<Rightarrow> handlerState" where
  "journal_Handle write h r st =
    (if \<not> Working st then st
     else
       (case Send write (hsConn st) (Priority (lrLevel r)) (lrMessage r) (record_fields h r) of
          (Inr _, data) \<Rightarrow> st\<lparr>hsSent := hsSent st @ [data]\<rparr>
        | (Inl e, _) \<Rightarrow>
            st\<lparr>hsFailed := True, hsOnce := True,
               hsTold := (if \<not> hsOnce st \<and> hsOnError st then hsTold st @ [e] else hsTold st)\<rparr>))"

fun rekey :: "string \<Rightarrow> attr \<Rightarrow> attr" where
  "rekey grp (Attr key val) = Attr (grp @ key) val"
| "rekey grp (Group key as) = Group (grp @ key) as"

definition qualify :: "string \<Rightarrow> attr list \<Rightarrow> attr list" where
  "qualify grp attrs = (if grp = [] then attrs else map (rekey grp) attrs)"

definition journal_WithAttrs :: "attr list \<Rightarrow> jhandler \<Rightarrow> jhandler" where
  "journal_WithAttrs attrs h = h\<lparr>jhAttrs := jhAttrs h @ qualify (jhGroup h) attrs\<rparr>"

definition journal_WithGroup :: "string \<Rightarrow> jhandler \<Rightarrow> jhandler" where
  "journal_WithGroup name h = (if name \<noteq> [] then h\<lparr>jhGroup := jhGroup h @ name @ ''.''\<rparr> else h)"

section \<open>The other end\<close>

text \<open>
  What journald makes of a datagram, as the native protocol is documented: \<open>NAME=value\<close> and a line
  end, or the name alone on its line, a 64-bit little-endian length, the value and a line end.
\<close>

definition le_nat :: "string \<Rightarrow> nat" where
  "le_nat s = be_nat (rev (bytes_of s))"

function journal_entry :: "string \<Rightarrow> field list option" where
  "journal_entry d =
    (if d = [] then Some []
     else
       (let name = takeWhile (\<lambda>c. c \<noteq> CHR ''='' \<and> c \<noteq> newline) d;
            rest = dropWhile (\<lambda>c. c \<noteq> CHR ''='' \<and> c \<noteq> newline) d in
        if rest = [] then None
        else if hd rest = CHR ''='' then
          (case cut_at newline (tl rest) of
             None \<Rightarrow> None
           | Some (v, beyond) \<Rightarrow> map_option ((#) (name, v)) (journal_entry beyond))
        else
          (let n = le_nat (take 8 (tl rest)); body = drop 8 (tl rest) in
           if length body \<le> n \<or> body ! n \<noteq> newline then None
           else map_option ((#) (name, take n body)) (journal_entry (drop (n + 1) body)))))"
  by pat_completeness auto
termination
proof (relation "measure length", goal_cases)
  case (2 d name rest x v beyond)
  then have "length (tl rest) = length v + 1 + length beyond" using cut_at_Some [of newline "tl rest" v beyond] by simp
  moreover have "length rest \<le> length d" using 2 length_dropWhile_le by metis
  ultimately show ?case using 2(5) by (cases rest) auto
next
  case (3 d name rest n body)
  have "length rest \<le> length d" using 3 length_dropWhile_le by metis
  then show ?case using 3 by (cases rest) auto
qed simp

declare journal_entry.simps [simp del]

section \<open>Lemmas\<close>

lemma le_nat_le64: "n < 2 ^ 64 \<Longrightarrow> le_nat (le64 n) = n"
  by (simp add: le_nat_def le64_def be_simps)

lemma length_le64 [simp]: "length (le64 n) = 8"
  by (simp add: le64_def)

definition name_ok :: "string \<Rightarrow> bool" where
  "name_ok name \<longleftrightarrow> CHR ''='' \<notin> set name \<and> newline \<notin> set name"

lemma appendField_split: "appendField b name v = b @ appendField [] name v"
  by (simp add: appendField_def Let_def)

lemma takeWhile_name:
  "name_ok name \<Longrightarrow> c = CHR ''='' \<or> c = newline \<Longrightarrow>
    takeWhile (\<lambda>c. c \<noteq> CHR ''='' \<and> c \<noteq> newline) (name @ c # r) = name \<and>
    dropWhile (\<lambda>c. c \<noteq> CHR ''='' \<and> c \<noteq> newline) (name @ c # r) = c # r"
  by (induction name) (auto simp: name_ok_def)

lemma length_cut_value: "length (cut_value v) < 2 ^ 64"
  by (simp add: cut_value_def maxValue_def)

lemma journal_entry_field:
  assumes "name_ok name"
  shows "journal_entry (appendField [] name v @ d) = map_option ((#) (name, cut_value v)) (journal_entry d)"
proof (cases "newline \<notin> set (cut_value v) \<and> CHR 0x00 \<notin> set (cut_value v)")
  case True
  then have e: "appendField [] name v @ d = name @ CHR ''='' # cut_value v @ newline # d"
    by (simp add: appendField_def Let_def)
  show ?thesis unfolding e
    by (subst journal_entry.simps) (simp add: takeWhile_name [OF assms] cut_at_append True)
next
  case False
  then have e: "appendField [] name v @ d = name @ newline # le64 (length (cut_value v)) @ cut_value v @ newline # d"
    by (auto simp: appendField_def Let_def)
  show ?thesis unfolding e
    by (subst journal_entry.simps)
      (simp add: takeWhile_name [OF assms] le_nat_le64 [OF length_cut_value] Let_def)
qed

lemma appendField_all:
  "fold (\<lambda>(name, v) b. appendField b name v) fs b =
    b @ concat (map (\<lambda>(name, v). appendField [] name v) fs)"
proof (induction fs arbitrary: b)
  case (Cons f fs)
  obtain name v where f: "f = (name, v)" by fastforce
  show ?case unfolding f using Cons [of "appendField b name v"]
    by (simp add: appendField_split [of b name v])
qed simp

lemma journal_entry_all:
  "list_all (name_ok \<circ> fst) fs \<Longrightarrow>
    journal_entry (concat (map (\<lambda>(name, v). appendField [] name v) fs)) = Some (map (apsnd cut_value) fs)"
  by (induction fs) (auto simp: journal_entry_field journal_entry.simps [of "[]"])

text \<open>A name a client may use: journald's own fields start with an underscore.\<close>

definition client_name :: "string \<Rightarrow> bool" where
  "client_name name \<longleftrightarrow> name_ok name \<and> name \<noteq> [] \<and> hd name \<noteq> CHR ''_'' \<and>
    name \<notin> {''MESSAGE'', ''PRIORITY'', ''SYSLOG_IDENTIFIER''}"

lemma upper_field_chars: "c \<in> set (upper_field u) \<Longrightarrow> field_char c"
  by (auto simp: upper_field_def Let_def field_char_def split: if_splits)

lemma field_bytes_chars: "c \<in> set (field_bytes key) \<Longrightarrow> field_char c"
  by (induction key rule: field_bytes.induct)
    (auto dest: upper_field_chars simp: field_char_def [of "CHR ''_''"] split: option.splits)

text \<open>An ASCII key keeps its length, a key outside ASCII what Go makes of it.\<close>

lemma field_bytes_ascii:
  "is_ascii key \<Longrightarrow> field_bytes key = map (\<lambda>c. if field_char (upper_char c) then upper_char c else CHR ''_'') key"
  by (induction key) (auto simp: is_ascii_def utf8_next_ascii upper_field_def Let_def)

lemma FieldName_client: "FieldName key = Some name \<Longrightarrow> client_name name"
proof -
  have "CHR ''='' \<notin> set (field_bytes key)" "newline \<notin> set (field_bytes key)"
    by (auto dest: field_bytes_chars simp: field_char_def)
  then show "FieldName key = Some name \<Longrightarrow> client_name name"
    by (auto simp: FieldName_def client_name_def name_ok_def Let_def hd_conv_nth split: if_splits)
qed

lemma walk_client: "list_all (client_name \<circ> fst) (walk pre a)"
  by (induction pre a rule: walk.induct) (auto simp: list_all_iff FieldName_client split: option.splits)

lemma record_fields_client: "list_all (client_name \<circ> fst) (record_fields h r)"
  using walk_client by (fastforce simp: record_fields_def list_all_iff)

lemma Encode_all:
  "Encode p i m fs = concat (map (\<lambda>(name, v). appendField [] name v)
    ((''PRIORITY'', priority_digit p) # (''SYSLOG_IDENTIFIER'', i) # (''MESSAGE'', m) # fs))"
  unfolding Encode_def Let_def appendField_all
  by (simp add: appendField_split [of "appendField _ _ _"] appendField_split [of "_ @ _"])

section \<open>Property\<close>

text \<open>
  C31. What is logged is what the journal files, and an attribute can forge nothing: whatever the
  message, the keys and the values hold (line ends, equal signs, NUL bytes, 33 KiB), journald reads
  an entry back as the priority, the identifier, the message and then one field per attribute, in
  order, with only an over-long value cut; and no attribute yields a further \<open>PRIORITY\<close>,
  \<open>SYSLOG_IDENTIFIER\<close> or \<open>MESSAGE\<close>, or one of journald's trusted fields.
\<close>

theorem journal_files_what_was_logged:
  "journal_entry (snd (Send write c (Priority (lrLevel r)) (lrMessage r) (record_fields h r))) =
    Some ((''PRIORITY'', show_int (Priority (lrLevel r))) #
      (''SYSLOG_IDENTIFIER'', cut_value (jcIdentifier c)) # (''MESSAGE'', cut_value (lrMessage r)) #
      map (apsnd cut_value) (record_fields h r)) \<and>
    list_all (client_name \<circ> fst) (record_fields h r)"
proof -
  have "list_all (name_ok \<circ> fst) (record_fields h r)"
    using record_fields_client [of h r] by (simp add: list_all_iff client_name_def)
  moreover have "cut_value (priority_digit (Priority l)) = show_int (Priority l)" for l
    by (simp add: cut_value_def maxValue_def priority_digit_def Priority_def show_int_def show_nat.simps digit_def)
  ultimately show ?thesis
    using record_fields_client [of h r]
    by (simp add: Send_def Let_def Encode_all journal_entry_field journal_entry_all name_ok_def)
qed

end
