(* ===== verification/Logging.thy ===== *)
theory Logging
  imports Journal
begin

text \<open>
  The agent's log, \<open>cmd/synctang-unlocker/log.go\<close>: levels and their names, the choice between the
  journal and the console, and the handler that writes to both.  The text handlers of \<open>log/slog\<close>
  are the records they are given; attributes attached with \<open>WithAttrs\<close> are kept for the journal.
\<close>

section \<open>Levels and modes\<close>

definition levelTrace :: int where "levelTrace = -8"
definition consoleLevel :: int where "consoleLevel = LevelWarn"

lemmas level_defs = levelTrace_def consoleLevel_def LevelDebug_def LevelInfo_def LevelWarn_def LevelError_def

definition parseLogLevel :: "string \<Rightarrow> int res" where
  "parseLogLevel s =
    (let l = ToLower s in
     if l = ''trace'' then Inr levelTrace
     else if l = ''debug'' then Inr LevelDebug
     else if l = ''info'' \<or> l = [] then Inr LevelInfo
     else if l = ''warn'' \<or> l = ''warning'' then Inr LevelWarn
     else if l = ''error'' then Inr LevelError
     else Inl (Err (''unknown log level '' @ Quote s @ '', want one of trace, debug, info, warn, error'')))"

definition levelName :: "int \<Rightarrow> string" where
  "levelName level =
    (if level \<ge> LevelError then ''error'' else if level \<ge> LevelWarn then ''warn''
     else if level \<ge> LevelInfo then ''info'' else if level \<ge> LevelDebug then ''debug'' else ''trace'')"

datatype journalMode = journalAuto | journalOn | journalOff

definition parseJournalMode :: "string \<Rightarrow> journalMode res" where
  "parseJournalMode s =
    (if s = ''auto'' \<or> s = [] then Inr journalAuto
     else if s = ''on'' then Inr journalOn
     else if s = ''off'' then Inr journalOff
     else Inl (Err (''unknown journal mode '' @ Quote s @ '', want one of auto, on, off'')))"

definition journalIdentifier :: string where "journalIdentifier = ''synctang-unlocker''"

section \<open>The logger\<close>

text \<open>
  A logger writes to the console alone, from a level on, or to the journal and to the console: from
  one level on while the journal works, from another once it does not.
\<close>

datatype logger = ToConsole int | Tee jhandler int int

record log_world =
  lwJournal :: "handlerState option"
  lwConsole :: "log_record list"
  lwSaid :: "string list"

definition unavailable :: "goerr \<Rightarrow> string" where
  "unavailable e = ''synctang-unlocker: the journal is unavailable ('' @ error_text e @ ''); logging to the console only'' @ [newline]"

definition newLoggerWithJournal :: "int \<Rightarrow> jconn option \<Rightarrow> logger \<times> log_world" where
  "newLoggerWithJournal level conn =
    (case conn of
       None \<Rightarrow> (ToConsole level, \<lparr>lwJournal = None, lwConsole = [], lwSaid = []\<rparr>)
     | Some c \<Rightarrow>
         (let floor = (if level < consoleLevel then consoleLevel else level) in
          case NewHandler c level True of
            (j, st) \<Rightarrow> (Tee j floor level, \<lparr>lwJournal = Some st, lwConsole = [], lwSaid = []\<rparr>)))"

text \<open>\<open>isSocket\<close> says whether the journal's socket is there, \<open>dialled\<close> what dialling it came to.\<close>

definition newLogger :: "int \<Rightarrow> journalMode \<Rightarrow> bool \<Rightarrow> unit res \<Rightarrow> logger \<times> log_world" where
  "newLogger level mode isSocket dialled =
    (if mode = journalOff then newLoggerWithJournal level None
     else if mode = journalAuto \<and> \<not> isSocket then newLoggerWithJournal level None
     else
       (case dialled of
          Inl e \<Rightarrow> apsnd (\<lambda>w. w\<lparr>lwSaid := [unavailable e]\<rparr>) (newLoggerWithJournal level None)
        | Inr _ \<Rightarrow> newLoggerWithJournal level (Some \<lparr>jcTimeout = 0, jcIdentifier = journalIdentifier\<rparr>)))"

definition alive :: "log_world \<Rightarrow> bool" where
  "alive w = (case lwJournal w of None \<Rightarrow> False | Some st \<Rightarrow> Working st)"

definition to_console :: "int \<Rightarrow> log_record \<Rightarrow> log_world \<Rightarrow> log_world" where
  "to_console level r w = (if lrLevel r \<ge> level then w\<lparr>lwConsole := lwConsole w @ [r]\<rparr> else w)"

definition to_journal :: "(int \<Rightarrow> string \<Rightarrow> unit res) \<Rightarrow> jhandler \<Rightarrow> log_record \<Rightarrow> log_world \<Rightarrow> log_world" where
  "to_journal write j r w =
    (case lwJournal w of
       None \<Rightarrow> w
     | Some st \<Rightarrow>
         (let st' = journal_Handle write j r st in
          w\<lparr>lwJournal := Some st', lwSaid := lwSaid w @ map unavailable (drop (length (hsTold st)) (hsTold st'))\<rparr>))"

definition tee_Enabled :: "logger \<Rightarrow> log_world \<Rightarrow> int \<Rightarrow> bool" where
  "tee_Enabled lg w level =
    (case lg of
       ToConsole full \<Rightarrow> level \<ge> full
     | Tee j floor full \<Rightarrow>
         if \<not> alive w then level \<ge> full else journal_Enabled j level \<or> level \<ge> floor)"

definition tee_Handle :: "(int \<Rightarrow> string \<Rightarrow> unit res) \<Rightarrow> logger \<Rightarrow> log_record \<Rightarrow> log_world \<Rightarrow> log_world" where
  "tee_Handle write lg r w =
    (case lg of
       ToConsole full \<Rightarrow> to_console full r w
     | Tee j floor full \<Rightarrow>
         (let w1 = (if alive w \<and> journal_Enabled j (lrLevel r) then to_journal write j r w else w) in
          if \<not> alive w1 then to_console full r w1 else to_console floor r w1))"

definition tee_WithAttrs :: "attr list \<Rightarrow> logger \<Rightarrow> logger" where
  "tee_WithAttrs attrs lg =
    (case lg of ToConsole full \<Rightarrow> lg | Tee j floor full \<Rightarrow> Tee (journal_WithAttrs attrs j) floor full)"

definition tee_WithGroup :: "string \<Rightarrow> logger \<Rightarrow> logger" where
  "tee_WithGroup name lg =
    (case lg of ToConsole full \<Rightarrow> lg | Tee j floor full \<Rightarrow> Tee (journal_WithGroup name j) floor full)"

text \<open>\<open>slog.Logger.Log\<close>: the handler is asked before it is called.\<close>

definition log_one :: "logger \<Rightarrow> (int \<Rightarrow> string \<Rightarrow> unit res) \<times> log_record \<Rightarrow> log_world \<Rightarrow> log_world" where
  "log_one lg = (\<lambda>(write, r) w. if tee_Enabled lg w (lrLevel r) then tee_Handle write lg r w else w)"

definition log_run :: "logger \<times> log_world \<Rightarrow> ((int \<Rightarrow> string \<Rightarrow> unit res) \<times> log_record) list \<Rightarrow> log_world" where
  "log_run start evs = (case start of (lg, w) \<Rightarrow> fold (log_one lg) evs w)"

section \<open>Lemmas\<close>

text \<open>The entry a record makes, and where a record has got to.\<close>

definition entry_of :: "log_record \<Rightarrow> string" where
  "entry_of r = Encode (Priority (lrLevel r)) journalIdentifier (lrMessage r)
    (record_fields \<lparr>jhLevel = 0, jhAttrs = [], jhGroup = []\<rparr> r)"

definition in_journal :: "log_record \<Rightarrow> log_world \<Rightarrow> bool" where
  "in_journal r w = (case lwJournal w of None \<Rightarrow> False | Some st \<Rightarrow> entry_of r \<in> set (hsSent st))"

definition reached :: "int \<Rightarrow> log_world \<Rightarrow> log_record \<Rightarrow> bool" where
  "reached level w r =
    (if lrLevel r < level then r \<notin> set (lwConsole w)
     else if lrLevel r < LevelWarn then r \<in> set (lwConsole w) \<or> in_journal r w
     else r \<in> set (lwConsole w))"

text \<open>What holds of a logger that was made at a level, and its world.\<close>

definition log_inv :: "int \<Rightarrow> logger \<Rightarrow> log_world \<Rightarrow> bool" where
  "log_inv level lg w \<longleftrightarrow>
    (\<forall>r \<in> set (lwConsole w). lrLevel r \<ge> level) \<and> length (lwSaid w) \<le> 1 \<and>
    (case lg of
       ToConsole full \<Rightarrow> full = level \<and> lwJournal w = None
     | Tee j floor full \<Rightarrow>
         full = level \<and> floor = max level LevelWarn \<and> j = \<lparr>jhLevel = level, jhAttrs = [], jhGroup = []\<rparr> \<and>
         (case lwJournal w of
            None \<Rightarrow> False
          | Some st \<Rightarrow> jcIdentifier (hsConn st) = journalIdentifier \<and>
              hsOnce st = hsFailed st \<and> (\<not> hsFailed st \<longrightarrow> lwSaid w = [] \<and> hsTold st = [])))"

lemma log_inv_new: "case newLogger level mode isSocket dialled of (lg, w) \<Rightarrow> log_inv level lg w"
  by (simp add: newLogger_def newLoggerWithJournal_def log_inv_def NewHandler_def consoleLevel_def Let_def max_def
      split: sum.splits)

lemma entry_of_any: "Encode (Priority (lrLevel r)) journalIdentifier (lrMessage r)
    (record_fields \<lparr>jhLevel = l, jhAttrs = [], jhGroup = []\<rparr> r) = entry_of r"
  by (simp add: entry_of_def record_fields_def)

lemma log_one_inv:
  assumes "log_inv level lg w"
  shows "log_inv level lg (log_one lg (write, r) w) \<and> reached level (log_one lg (write, r) w) r \<and>
    set (lwConsole w) \<subseteq> set (lwConsole (log_one lg (write, r) w)) \<and>
    (in_journal q w \<longrightarrow> in_journal q (log_one lg (write, r) w))"
proof (cases lg)
  case (ToConsole full)
  with assms show ?thesis
    by (auto simp: log_inv_def log_one_def tee_Enabled_def tee_Handle_def to_console_def reached_def in_journal_def)
next
  case (Tee j floor full)
  with assms obtain st where st: "lwJournal w = Some st" by (auto simp: log_inv_def split: option.splits)
  obtain x d where s: "Send write (hsConn st) (Priority (lrLevel r)) (lrMessage r) (record_fields j r) = (x, d)" by fastforce
  have d: "d = entry_of r"
    using s assms Tee st by (auto simp: Send_def Let_def log_inv_def entry_of_any)
  show ?thesis
    using assms Tee st s d
    by (cases x; cases "hsFailed st")
      (auto simp: log_inv_def log_one_def tee_Enabled_def tee_Handle_def to_console_def to_journal_def reached_def
        in_journal_def alive_def Working_def journal_Enabled_def journal_Handle_def Let_def max_def)
qed

lemma log_run_inv:
  assumes "log_inv level lg w"
  shows "log_inv level lg (fold (log_one lg) evs w) \<and> list_all (reached level (fold (log_one lg) evs w) \<circ> snd) evs"
proof (induction evs rule: rev_induct)
  case (snoc e evs)
  obtain wr r where e: "e = (wr, r)" by fastforce
  let ?w = "fold (log_one lg) evs w"
  note one = log_one_inv [OF conjunct1 [OF snoc.IH], of wr r]
  have "reached level (log_one lg e ?w) (snd x)" if "x \<in> set evs" for x
  proof -
    have "reached level ?w (snd x)" using snoc.IH that by (auto simp: list_all_iff)
    then show ?thesis
      using one [of "snd x"] unfolding e by (auto simp: reached_def log_inv_def split: if_splits)
  qed
  then show ?case using one [of r] e by (auto simp: list_all_iff)
qed (use assms in simp)

section \<open>Property\<close>

text \<open>
  C32. No record is lost.  However the agent was told to log, and whenever the journal fails or
  recovers: each record at or above the level is in the journal or on the console, a warning or worse
  is on the console in any case, nothing below the level is there, and the person at the console is
  told at most once that the journal is gone.
\<close>

theorem no_record_is_lost:
  "list_all (reached level (log_run (newLogger level mode isSocket dialled) evs) \<circ> snd) evs \<and>
    length (lwSaid (log_run (newLogger level mode isSocket dialled) evs)) \<le> 1"
  using log_inv_new [of level mode isSocket dialled] log_run_inv
  by (fastforce simp: log_run_def log_inv_def split: prod.splits)

end
