(* ===== verification/Resolver.thy ===== *)
theory Resolver
  imports GoUrl
begin

text \<open>
  The resolver of the initrd, \<open>cmd/synctang-unlocker/resolver.go\<close>: whether a \<open>resolv.conf\<close> is of
  any use, and the search for one that is.  \<open>net.ParseIP\<close> is modelled on the text of an address;
  the file system is a map from paths to contents, \<open>filepath.Glob\<close> and \<open>os.WriteFile\<close> are
  parameters.
\<close>

section \<open>Addresses\<close>

definition ip_octet :: "string \<Rightarrow> nat option" where
  "ip_octet p =
    (if p = [] \<or> (length p > 1 \<and> hd p = CHR ''0'') then None
     else (case digits_val 0 p of Some v \<Rightarrow> if v \<le> 255 then Some v else None | None \<Rightarrow> None))"

definition parseIPv4 :: "string \<Rightarrow> nat list option" where
  "parseIPv4 s = (let ps = split_on CHR ''.'' s in if length ps \<noteq> 4 then None else those (map ip_octet ps))"

definition is_hex :: "char \<Rightarrow> bool" where
  "is_hex c \<longleftrightarrow> unhex c \<noteq> None"

definition hex_val :: "string \<Rightarrow> nat" where
  "hex_val s = fold (\<lambda>c a. 16 * a + the (unhex c)) s 0"

text \<open>The groups of an IPv6 address: the bytes so far, and how many came before the \<open>::\<close>.\<close>

function ipv6_groups :: "string \<Rightarrow> nat list \<Rightarrow> nat option \<Rightarrow> (nat list \<times> nat option \<times> string) option" where
  "ipv6_groups s acc e =
    (if length acc \<ge> 16 then Some (acc, e, s)
     else
       (let h = takeWhile is_hex s; rest = dropWhile is_hex s in
        if h = [] \<or> length h > 4 then None
        else if rest \<noteq> [] \<and> hd rest = CHR ''.'' then
          (if e = None \<and> length acc \<noteq> 12 then None
           else if length acc + 4 > 16 then None
           else map_option (\<lambda>q. (acc @ q, e, [])) (parseIPv4 s))
        else
          (let acc' = acc @ [hex_val h div 256, hex_val h mod 256] in
           if rest = [] then Some (acc', e, [])
           else if hd rest \<noteq> CHR '':'' \<or> length rest = 1 then None
           else if hd (tl rest) = CHR '':'' then
             (if e \<noteq> None then None
              else if tl (tl rest) = [] then Some (acc', Some (length acc'), [])
              else ipv6_groups (tl (tl rest)) acc' (Some (length acc')))
           else ipv6_groups (tl rest) acc' e)))"
  by pat_completeness auto
termination
proof (relation "measure (\<lambda>(s, _, _). length s)", goal_cases)
  case (2 s acc e h rest acc')
  have "length rest \<le> length s" using 2 length_dropWhile_le by metis
  moreover have "0 < length rest" using 2 by blast
  ultimately have "length (tl (tl rest)) < length s" by (simp, linarith)
  then show ?case by simp
next
  case (3 s acc e h rest acc')
  have "length rest \<le> length s" using 3 length_dropWhile_le by metis
  moreover have "rest \<noteq> []" using 3 by blast
  ultimately show ?case by (cases rest) auto
qed simp

declare ipv6_groups.simps [simp del]

definition parseIPv6 :: "string \<Rightarrow> nat list option" where
  "parseIPv6 s =
    (if CHR 0x25 \<in> set s then None
     else
       (let lead = prefix ''::'' s; s1 = (if lead then drop 2 s else s) in
        if lead \<and> s1 = [] then Some (replicate 16 0)
        else
          (case ipv6_groups s1 [] (if lead then Some 0 else None) of
             None \<Rightarrow> None
           | Some (acc, e, rest) \<Rightarrow>
               if rest \<noteq> [] then None
               else if length acc < 16 then
                 map_option (\<lambda>k. take k acc @ replicate (16 - length acc) 0 @ drop k acc) e
               else if e \<noteq> None then None
               else Some acc)))"

definition v4InV6Prefix :: "nat list" where
  "v4InV6Prefix = replicate 10 0 @ [255, 255]"

definition ParseIP :: "string \<Rightarrow> nat list option" where
  "ParseIP s =
    (case find (\<lambda>c. c \<in> set [CHR ''.'', CHR '':'', CHR 0x25]) s of
       None \<Rightarrow> None
     | Some c \<Rightarrow>
         if c = CHR ''.'' then map_option (\<lambda>q. v4InV6Prefix @ q) (parseIPv4 s)
         else if c = CHR '':'' then parseIPv6 s
         else None)"

definition IsLoopback :: "nat list \<Rightarrow> bool" where
  "IsLoopback ip =
    (if take 12 ip = v4InV6Prefix then ip ! 12 = 127 else ip = replicate 15 0 @ [1])"

section \<open>What a file offers\<close>

abbreviation newline :: char where "newline \<equiv> CHR 0x0A"

definition loopback_server :: "string \<Rightarrow> bool" where
  "loopback_server s = (case ParseIP s of Some ip \<Rightarrow> IsLoopback ip | None \<Rightarrow> False)"

definition looksLikeResolvConf :: "string \<Rightarrow> bool" where
  "looksLikeResolvConf content =
    list_ex (\<lambda>line.
      (case CutPrefix (TrimSpace line) ''nameserver '' of
         None \<Rightarrow> False
       | Some rest \<Rightarrow> \<not> loopback_server (TrimSpace rest))) (split_on newline content)"

definition dnsFromNetworkdState :: "string \<Rightarrow> string list" where
  "dnsFromNetworkdState content =
    concat (map (\<lambda>line. case CutPrefix (TrimSpace line) ''DNS='' of None \<Rightarrow> [] | Some val \<Rightarrow> Fields val)
      (split_on newline content))"

definition resolvConfFromNetworkdState :: "string \<Rightarrow> string" where
  "resolvConfFromNetworkdState content =
    concat (map (\<lambda>server. ''nameserver '' @ server @ [newline]) (dnsFromNetworkdState content))"

section \<open>The search\<close>

definition resolvConfPath :: string where "resolvConfPath = ''/etc/resolv.conf''"

definition resolverSources :: "string list" where
  "resolverSources = [''/run/systemd/resolve/resolv.conf'', ''/run/NetworkManager/resolv.conf'', ''/tmp/net.*.resolv.conf'']"

definition networkdStateFiles :: "string list" where
  "networkdStateFiles = [''/run/systemd/netif/state'', ''/run/systemd/netif/leases/*'']"

definition fallbackResolvConf :: string where
  "fallbackResolvConf = ''nameserver 1.1.1.1'' @ [newline] @ ''nameserver 9.9.9.9'' @ [newline]"

type_synonym files = "string \<rightharpoonup> string"
type_synonym writer = "string \<Rightarrow> string \<Rightarrow> files \<Rightarrow> bool \<times> files"

definition globAll :: "(string \<Rightarrow> string list res) \<Rightarrow> string \<Rightarrow> string list" where
  "globAll Glob pattern =
    (if list_all (\<lambda>c. c \<notin> set ''*?['') pattern then [pattern]
     else (case Glob pattern of Inl _ \<Rightarrow> [] | Inr matches \<Rightarrow> matches))"

text \<open>The first file that offers something, once that is written: what a file offers is \<open>pick\<close>.\<close>

fun from_first :: "writer \<Rightarrow> (string \<Rightarrow> string option) \<Rightarrow> string \<Rightarrow> string list \<Rightarrow> files \<Rightarrow> bool \<times> files" where
  "from_first W pick path [] fs = (False, fs)"
| "from_first W pick path (f # candidates) fs =
    (case Option.bind (fs f) pick of
       None \<Rightarrow> from_first W pick path candidates fs
     | Some out \<Rightarrow>
         (case W path out fs of
            (True, fs') \<Rightarrow> (True, fs')
          | (False, fs') \<Rightarrow> from_first W pick path candidates fs'))"

definition usable_conf :: "string \<Rightarrow> string option" where
  "usable_conf content = (if looksLikeResolvConf content then Some content else None)"

definition rendered_state :: "string \<Rightarrow> string option" where
  "rendered_state content = (let r = resolvConfFromNetworkdState content in if r = [] then None else Some r)"

definition ensureResolverAt ::
    "writer \<Rightarrow> (string \<Rightarrow> string list res) \<Rightarrow> string \<Rightarrow> string list \<Rightarrow> string list \<Rightarrow> files \<Rightarrow> files" where
  "ensureResolverAt W Glob path sources stateFiles fs =
    (if (case fs path of Some content \<Rightarrow> length content > 0 \<and> looksLikeResolvConf content | None \<Rightarrow> False) then fs
     else
       (case from_first W usable_conf path (concat (map (globAll Glob) sources)) fs of
          (True, fs1) \<Rightarrow> fs1
        | (False, fs1) \<Rightarrow>
            (case from_first W rendered_state path (concat (map (globAll Glob) stateFiles)) fs1 of
               (True, fs2) \<Rightarrow> fs2
             | (False, fs2) \<Rightarrow> snd (W path fallbackResolvConf fs2))))"

definition ensureResolver :: "writer \<Rightarrow> (string \<Rightarrow> string list res) \<Rightarrow> files \<Rightarrow> files" where
  "ensureResolver W Glob fs = ensureResolverAt W Glob resolvConfPath resolverSources networkdStateFiles fs"

section \<open>Lemmas\<close>

text \<open>A field holds no white space, so it survives in a line of its own.\<close>

definition no_ws :: "string \<Rightarrow> bool" where
  "no_ws s \<longleftrightarrow> (\<forall>w \<in> set ws_encodings. \<not> sublist w s)"

lemma ws_prefix_None: "ws_prefix s = None \<longleftrightarrow> (\<forall>w \<in> set ws_encodings. \<not> prefix w s)"
  by (simp add: ws_prefix_def find_None_all)

lemma no_ws_field:
  assumes "\<And>v. v \<noteq> [] \<Longrightarrow> suffix v f \<Longrightarrow> ws_prefix (v @ s) = None"
  shows "no_ws f"
  unfolding no_ws_def
proof clarify
  fix w assume w: "w \<in> set ws_encodings" "sublist w f"
  from w(2) obtain ps ss where f: "f = ps @ w @ ss" by (auto simp: sublist_def)
  have "ws_prefix ((w @ ss) @ s) = None"
    using assms [of "w @ ss"] ws_encodings_ne [OF w(1)] f by (auto simp: suffix_def)
  with w(1) show False unfolding ws_prefix_None by (metis append_assoc prefixI)
qed

lemma fields_from_no_ws:
  assumes "\<And>v. v \<noteq> [] \<Longrightarrow> suffix v (rev cur) \<Longrightarrow> ws_prefix (v @ s) = None"
  shows "list_all (\<lambda>f. f \<noteq> [] \<and> no_ws f) (fields_from cur s)"
  using assms
proof (induction cur s rule: fields_from.induct)
  case (1 cur s)
  have push: "list_all (\<lambda>f. f \<noteq> [] \<and> no_ws f) fs \<Longrightarrow> list_all (\<lambda>f. f \<noteq> [] \<and> no_ws f) (push_field cur fs)" for fs
    using no_ws_field [of "rev cur" s] 1(3) by (auto simp: push_field_def)
  show ?case
  proof (cases s)
    case Nil
    then show ?thesis using push [of "[]"] by (simp add: fields_from.simps [of cur "[]"])
  next
    case (Cons c cs)
    show ?thesis
    proof (cases "ws_prefix s")
      case None
      have step: "ws_prefix (v @ cs) = None" if "v \<noteq> []" "suffix v (rev (c # cur))" for v
      proof -
        from that obtain zs where "v = zs @ [c]" "suffix zs (rev cur)" by (auto simp: suffix_snoc)
        then show ?thesis using 1(3) [of zs] None Cons by (cases "zs = []") auto
      qed
      show ?thesis using 1(1) [OF Cons None step] None Cons by (simp add: fields_from.simps [of cur "c # cs"])
    next
      case (Some w)
      then show ?thesis using push 1(2) [OF Cons Some] Cons by (simp add: fields_from.simps [of cur "c # cs"])
    qed
  qed
qed

lemma Fields_no_ws: "list_all (\<lambda>f. f \<noteq> [] \<and> no_ws f) (Fields s)"
  unfolding Fields_def by (rule fields_from_no_ws) simp

lemma no_ws_trimmed:
  assumes "no_ws f" "f \<noteq> []"
  shows "TrimSpace f = f" and "TrimSpace (''nameserver '' @ f) = ''nameserver '' @ f" and "newline \<notin> set f"
proof -
  have n: "\<not> prefix w f" "\<not> suffix w f" if "w \<in> set ws_encodings" for w
    using assms that by (auto simp: no_ws_def dest: prefix_imp_sublist suffix_imp_sublist)
  then show "TrimSpace f = f"
    by (intro TrimSpace_id) (auto simp: ws_prefix_def ws_suffix_def find_None_all)
  have split: "suffix w (p @ f) \<Longrightarrow> suffix w f \<or> (\<exists>zs. w = zs @ f \<and> zs \<noteq> [] \<and> suffix zs p)" for w p
    unfolding suffix_append by (metis append_Nil suffix_order.order_refl)
  have blank: "\<forall>w \<in> set ws_encodings. CHR '' '' \<notin> set (butlast w)" by (simp add: ws_encodings_def)
  have "\<not> suffix w (''nameserver '' @ f)" if w: "w \<in> set ws_encodings" for w
  proof
    assume "suffix w (''nameserver '' @ f)"
    then consider "suffix w f" | zs where "w = zs @ f" "zs \<noteq> []" "suffix zs ''nameserver ''"
      using split by blast
    then show False
    proof cases
      case 2
      from 2(3) obtain q where "''nameserver '' = q @ zs" unfolding suffix_def by blast
      then have "last zs = last ''nameserver ''" using 2(2) by (metis last_appendR)
      then have "CHR '' '' \<in> set zs" using last_in_set [OF 2(2)] by simp
      then have "CHR '' '' \<in> set (butlast w)" using 2(1) assms(2) by (simp add: butlast_append)
      with blank w show False by blast
    qed (use n w in blast)
  qed
  moreover have "ws_prefix (''nameserver '' @ f) = None" by (simp add: ws_prefix_ascii)
  ultimately show "TrimSpace (''nameserver '' @ f) = ''nameserver '' @ f"
    by (intro TrimSpace_id) (auto simp: ws_suffix_def find_None_all)
  show "newline \<notin> set f"
  proof
    assume "newline \<in> set f"
    then obtain ps ss where "f = ps @ [newline] @ ss" by (auto dest: split_list)
    then have "sublist [newline] f" by (auto simp: sublist_def)
    moreover have "[newline] \<in> set ws_encodings" by (simp add: ws_encodings_def)
    ultimately show False using assms(1) by (auto simp: no_ws_def)
  qed
qed

lemma dns_no_ws: "list_all (\<lambda>f. f \<noteq> [] \<and> no_ws f) (dnsFromNetworkdState content)"
  using Fields_no_ws by (fastforce simp: dnsFromNetworkdState_def list_all_iff split: option.splits)

lemma split_on_lines:
  "list_all (\<lambda>l. c \<notin> set l) ls \<Longrightarrow> split_on c (concat (map (\<lambda>l. l @ [c]) ls)) = ls @ [[]]"
  by (induction ls) (simp_all add: split_on_append)

text \<open>A rendered state is of use exactly when one of its servers is.\<close>

lemma looksLike_rendered:
  "looksLikeResolvConf (resolvConfFromNetworkdState content) \<longleftrightarrow>
    \<not> list_all loopback_server (dnsFromNetworkdState content)"
proof -
  let ?ds = "dnsFromNetworkdState content"
  have d: "TrimSpace f = f" "TrimSpace (''nameserver '' @ f) = ''nameserver '' @ f" "newline \<notin> set f"
    if "f \<in> set ?ds" for f
    using that dns_no_ws [of content] no_ws_trimmed [of f] by (auto simp: list_all_iff)
  have "split_on newline (resolvConfFromNetworkdState content) = map ((@) ''nameserver '') ?ds @ [[]]"
    using split_on_lines [of newline "map ((@) ''nameserver '') ?ds"] d
    by (simp add: resolvConfFromNetworkdState_def list_all_iff comp_def)
  moreover have "CutPrefix (TrimSpace []) ''nameserver '' = None"
    by (simp add: TrimSpace_id ws_prefix_def ws_suffix_def find_None_all ws_encodings_def CutPrefix_def)
  ultimately show ?thesis using d CutPrefix_append [of "''nameserver ''", simplified]
    by (auto simp: looksLikeResolvConf_def list_ex_iff list_all_iff)
qed

lemma from_first_found:
  assumes "\<forall>c fs. W path c fs = (True, fs(path \<mapsto> c))"
  shows "(\<exists>f \<in> set candidates. \<exists>s out. fs f = Some s \<and> pick s = Some out \<and>
      from_first W pick path candidates fs = (True, fs(path \<mapsto> out))) \<or>
    from_first W pick path candidates fs = (False, fs)"
proof (induction candidates)
  case (Cons f candidates)
  show ?case
  proof (cases "Option.bind (fs f) pick")
    case None
    with Cons show ?thesis by simp
  next
    case (Some out)
    with assms show ?thesis by (auto simp: bind_eq_Some_conv simp del: fun_upd_apply)
  qed
qed simp

lemma fallback_usable: "looksLikeResolvConf fallbackResolvConf"
proof -
  have "split_on newline fallbackResolvConf = [''nameserver 1.1.1.1'', ''nameserver 9.9.9.9'', []]"
    by (simp add: fallbackResolvConf_def)
  moreover have "TrimSpace ''nameserver 1.1.1.1'' = ''nameserver 1.1.1.1''" "TrimSpace ''1.1.1.1'' = ''1.1.1.1''"
    by (auto intro!: TrimSpace_printable simp: printable_def)
  moreover have "\<not> loopback_server ''1.1.1.1''" by code_simp
  ultimately show ?thesis by (simp add: looksLikeResolvConf_def CutPrefix_def)
qed

section \<open>Property\<close>

text \<open>
  C33. The agent is left with a resolver that can answer: when files can be written, a usable
  \<open>resolv.conf\<close> is left as it was, and any other is replaced by one that names a server that is not
  this machine itself; the one exception is a state file of \<open>systemd-networkd\<close> that names loopback
  servers only.  No other file changes.
\<close>

theorem resolver_left_usable:
  assumes "\<forall>c fs. W path c fs = (True, fs(path \<mapsto> c))"
  shows "\<exists>c. ensureResolverAt W Glob path sources stateFiles fs = fs(path \<mapsto> c) \<and>
    (looksLikeResolvConf c \<or>
      (\<exists>f s. f \<in> set (concat (map (globAll Glob) stateFiles)) \<and> fs f = Some s \<and>
        c = resolvConfFromNetworkdState s \<and> list_all loopback_server (dnsFromNetworkdState s))) \<and>
    (\<forall>c0. fs path = Some c0 \<and> looksLikeResolvConf c0 \<longrightarrow> c = c0)"
proof (cases "case fs path of Some content \<Rightarrow> length content > 0 \<and> looksLikeResolvConf content | None \<Rightarrow> False")
  case True
  then obtain c0 where "fs path = Some c0" "looksLikeResolvConf c0" by (auto split: option.splits)
  with True show ?thesis
    by (intro exI [of _ c0]) (auto simp: ensureResolverAt_def fun_upd_idem)
next
  case False
  have "looksLikeResolvConf [] = False"
    by (simp add: looksLikeResolvConf_def TrimSpace_id ws_prefix_def ws_suffix_def find_None_all ws_encodings_def CutPrefix_def)
  with False have kept: "\<not> (fs path = Some c0 \<and> looksLikeResolvConf c0)" for c0 by auto
  let ?src = "concat (map (globAll Glob) sources)" and ?st = "concat (map (globAll Glob) stateFiles)"
  have e: "ensureResolverAt W Glob path sources stateFiles fs =
    (case from_first W usable_conf path ?src fs of
       (True, fs1) \<Rightarrow> fs1
     | (False, fs1) \<Rightarrow>
         (case from_first W rendered_state path ?st fs1 of
            (True, fs2) \<Rightarrow> fs2 | (False, fs2) \<Rightarrow> snd (W path fallbackResolvConf fs2)))"
    using False by (simp add: ensureResolverAt_def)
  consider f s where "fs f = Some s" "looksLikeResolvConf s"
      "ensureResolverAt W Glob path sources stateFiles fs = fs(path \<mapsto> s)"
    | f s where "f \<in> set ?st" "fs f = Some s"
      "ensureResolverAt W Glob path sources stateFiles fs = fs(path \<mapsto> resolvConfFromNetworkdState s)"
    | "ensureResolverAt W Glob path sources stateFiles fs = fs(path \<mapsto> fallbackResolvConf)"
    using from_first_found [of W path, OF assms, of ?src fs usable_conf] from_first_found [of W path, OF assms, of ?st fs rendered_state]
    unfolding e usable_conf_def rendered_state_def Let_def
    by (elim disjE bexE exE conjE) (auto simp: assms split: if_splits simp del: fun_upd_apply)
  then show ?thesis
  proof cases
    case 1
    with kept show ?thesis by blast
  next
    case (2 f s)
    with kept looksLike_rendered [of s] show ?thesis by blast
  next
    case 3
    with kept fallback_usable show ?thesis by blast
  qed
qed

lemma demo_state: "\<not> list_all loopback_server (dnsFromNetworkdState ''DNS=10.0.0.1'')"
  by code_simp

theorem resolver_left_usable_witness:
  "\<exists>c. ensureResolverAt (\<lambda>p c fs. (True, fs(p \<mapsto> c))) (\<lambda>_. Inr []) ''r'' [] [''s''] [''s'' \<mapsto> ''DNS=10.0.0.1''] =
      [''s'' \<mapsto> ''DNS=10.0.0.1'', ''r'' \<mapsto> c] \<and> looksLikeResolvConf c"
  using resolver_left_usable [of "\<lambda>p c fs. (True, fs(p \<mapsto> c))" "''r''" "\<lambda>_. Inr []" "[]" "[''s'']" "[''s'' \<mapsto> ''DNS=10.0.0.1'']"]
    demo_state
  by (auto simp: globAll_def split: if_splits simp del: fun_upd_apply) (auto split: if_splits)

end
