(* ===== verification/Commands.thy ===== *)
theory Commands
  imports Open Status Logging Resolver
begin

text \<open>
  The machine's commands that tie the parts together, \<open>cmd/synctang-unlocker/main.go\<close>: \<open>enrol\<close> with
  its ways of removing and rotating, and the loop of \<open>agent\<close>.  The flags come in parsed.  What is
  printed is a list of lines; a run of the agent is the list of its passes, each with what the machine
  shows in that pass, and ends when the process is told to stop.
\<close>

section \<open>The passphrase file\<close>

definition trim_byte :: "nat \<Rightarrow> bytes \<Rightarrow> bytes" where
  "trim_byte b data = (if data \<noteq> [] \<and> last data = of_nat b then butlast data else data)"

definition readPassphrase :: "bytes res \<Rightarrow> filesys \<Rightarrow> string \<Rightarrow> bytes res" where
  "readPassphrase stdin fs path =
    (case (if path = ''-'' then stdin else os_ReadFile path fs) of
       Inl e \<Rightarrow>
         Inl (if HasPrefix path ''/dev/fd/'' \<and> readErr fs path = None \<and> files fs path = None
              then Wrap [] e ('' ('' @ path @ '' is a process substitution, and sudo closes it before the command runs: '' @
                ''run the command from a root shell (sudo -i), or send the passphrase on stdin with --existing-passphrase-file -)'')
              else e)
     | Inr data \<Rightarrow> Inr (trim_byte 13 (trim_byte 10 data)))"

section \<open>\<open>enrol\<close>\<close>

record enrol_flags =
  efDevice :: string
  efPubkey :: string
  efPassphraseFile :: string
  efName :: string
  efTransportID :: string
  efRecipientTransportID :: string
  efMachineKeyFile :: string
  efRemove :: string
  efReplace :: string
  efKeyslot :: string
  efRebuild :: bool

text \<open>The header of the volume, the files, the initrd and the randomness, as one state.\<close>

record 'h enrol_world =
  ewHeader :: 'h
  ewFiles :: filesys
  ewInitrd :: initrd
  ewRng :: bytes

definition shouldWarnAboutNewIdentity :: "bool \<Rightarrow> string \<Rightarrow> bool" where
  "shouldWarnAboutNewIdentity isNew keyFile \<longleftrightarrow> isNew \<and> keyFile = defaultMachineKeyFile"

text \<open>What an enrolment of any kind comes to: the exit status, the output, the errors, the state.\<close>

type_synonym 'h enrol_end = "int \<times> string list \<times> string list \<times> 'h enrol_world"

definition with_pubkey :: "string \<Rightarrow> (bytes \<Rightarrow> 'h enrol_end) \<Rightarrow> 'h enrol_world \<Rightarrow> 'h enrol_end" where
  "with_pubkey pubkeyHex k w =
    (case hex_DecodeString pubkeyHex of
       None \<Rightarrow> (2, [], [''synctang-unlocker: --pubkey: encoding/hex: invalid input''], w)
     | Some pubkey \<Rightarrow> k pubkey)"

definition with_passphrase :: "bytes res \<Rightarrow> string \<Rightarrow> (bytes \<Rightarrow> 'h enrol_end) \<Rightarrow> 'h enrol_world \<Rightarrow> 'h enrol_end" where
  "with_passphrase stdin path k w =
    (case readPassphrase stdin (ewFiles w) path of
       Inl e \<Rightarrow> (1, [], [unlocker_says e], w)
     | Inr p \<Rightarrow> k p)"

definition enrol_replace :: "'h unlocker \<Rightarrow> bytes res \<Rightarrow> enrol_flags \<Rightarrow> 'h enrol_world \<Rightarrow> 'h enrol_end" where
  "enrol_replace U stdin f w =
    with_pubkey (efPubkey f) (\<lambda>pubkey. with_passphrase stdin (efPassphraseFile f) (\<lambda>p.
      let newTransportID = (if efRecipientTransportID f \<noteq> [] then efRecipientTransportID f else efReplace f) in
      case replaceRecipient U (efDevice f) p pubkey (efReplace f) newTransportID (efKeyslot f) (ewHeader w) (ewRng w) of
        (Inl e, h, rng) \<Rightarrow> (1, [], [unlocker_says e], w\<lparr>ewHeader := h, ewRng := rng\<rparr>)
      | (Inr _, h, rng) \<Rightarrow>
          (0, [''rotated recipient '' @ efReplace f @ '' on '' @ efDevice f @ ''; its previous key no longer opens the device''], [],
           w\<lparr>ewHeader := h, ewRng := rng\<rparr>)) w) w"

definition enrol_remove :: "'h unlocker \<Rightarrow> bytes res \<Rightarrow> enrol_flags \<Rightarrow> 'h enrol_world \<Rightarrow> 'h enrol_end" where
  "enrol_remove U stdin f w =
    with_passphrase stdin (efPassphraseFile f) (\<lambda>p.
      case removeRecipient U (efDevice f) p (efRemove f) (efKeyslot f) (ewHeader w) of
        (Inl e, h) \<Rightarrow> (1, [], [unlocker_says e], w\<lparr>ewHeader := h\<rparr>)
      | (Inr _, h) \<Rightarrow> (0, [''revoked recipient '' @ efRemove f @ '' on '' @ efDevice f], [], w\<lparr>ewHeader := h\<rparr>)) w"

text \<open>After the key holder is enrolled: the machine's own identity, and the initrd that has to carry it.\<close>

record 'c machine_side =
  msX509 :: "bytes \<Rightarrow> 'c res"
  msGenerate :: "('c \<times> bytes) res"
  msDeviceID :: "'c \<Rightarrow> string"
  msSha :: "string \<Rightarrow> bytes"
  msExists :: "string \<Rightarrow> bool"
  msDracut :: "initrd \<Rightarrow> unit res \<times> initrd"

definition system_of :: "string \<Rightarrow> string \<Rightarrow> filesys \<Rightarrow> system_files" where
  "system_of keyFile confFile fs =
    \<lparr>syIdentityPath = keyFile, syConfPath = confFile,
     syIdentity = (case os_ReadFile keyFile fs of Inl e \<Rightarrow> Inl e | Inr b \<Rightarrow> Inr (string_of b)),
     syConf = (case os_ReadFile confFile fs of Inl e \<Rightarrow> Inl e | Inr b \<Rightarrow> Inr (string_of b))\<rparr>"

definition new_identity_warning :: "string \<Rightarrow> string list" where
  "new_identity_warning keyFile =
    [''synctang-unlocker: created a new transport identity at '' @ keyFile @ '', so the id above is this host'' @ apostrophe @ ''s.'',
     ''synctang-unlocker: if --device is a disk image for another machine, pass --machine-key-file pointing'',
     ''synctang-unlocker: into that image and re-run, or the key holder will pair against an id no machine'',
     ''synctang-unlocker: ever announces.'']"

definition enrol_identity :: "'c machine_side \<Rightarrow> enrol_flags \<Rightarrow> string \<Rightarrow> 'h enrol_world \<Rightarrow> 'h enrol_end" where
  "enrol_identity M f done_line w =
    (let keyFile = efMachineKeyFile f;
         isNew = (readErr (ewFiles w) keyFile = None \<and> files (ewFiles w) keyFile = None) in
     case LoadOrCreateCert (msX509 M) (msGenerate M) keyFile (ewFiles w) of
       (Inl e, fs) \<Rightarrow>
         (1, [done_line], [''synctang-unlocker: loading this machine'' @ apostrophe @ ''s transport identity: '' @ error_text e],
          w\<lparr>ewFiles := fs\<rparr>)
     | (Inr c, fs) \<Rightarrow>
         (case afterEnrolmentFor (msSha M) (msExists M) (msDracut M) (system_of keyFile defaultNetworkConfFile fs) (efRebuild f) (ewInitrd w) of
            (code, out, err, i) \<Rightarrow>
              (code, [done_line, ''this machine'' @ apostrophe @ ''s transport id: '' @ msDeviceID M c] @ out,
               (if shouldWarnAboutNewIdentity isNew keyFile then new_identity_warning keyFile else []) @ err,
               w\<lparr>ewFiles := fs, ewInitrd := i\<rparr>)))"

definition enrol_add ::
    "'h unlocker \<Rightarrow> 'c machine_side \<Rightarrow> string res \<Rightarrow> bytes res \<Rightarrow> enrol_flags \<Rightarrow> 'h enrol_world \<Rightarrow> 'h enrol_end" where
  "enrol_add U M hostname stdin f w =
    with_pubkey (efPubkey f) (\<lambda>pubkey. with_passphrase stdin (efPassphraseFile f) (\<lambda>p.
      case enrolOnce U p pubkey (resolveMachineName hostname (efName f) []) (efTransportID f)
          (efRecipientTransportID f) (ewHeader w) (ewRng w) of
        (Inl e, h, rng) \<Rightarrow> (1, [], [unlocker_says e], w\<lparr>ewHeader := h, ewRng := rng\<rparr>)
      | (Inr outcome, h, rng) \<Rightarrow>
          enrol_identity M f
            (if oAlready outcome
             then efRecipientTransportID f @ '' is already enrolled at keyslot '' @ oKeyslot outcome @ '' on '' @
               efDevice f @ ''; nothing was added''
             else ''enrolled a new recipient on '' @ efDevice f)
            (w\<lparr>ewHeader := h, ewRng := rng\<rparr>)) w) w"

text \<open>\<open>hint\<close> is what \<open>deviceHint\<close> says.\<close>

definition runEnrol ::
    "'h unlocker \<Rightarrow> 'c machine_side \<Rightarrow> string res \<Rightarrow> string \<Rightarrow> bytes res \<Rightarrow> enrol_flags \<Rightarrow> 'h enrol_world \<Rightarrow> 'h enrol_end" where
  "runEnrol U M hostname hint stdin f w =
    (if efKeyslot f \<noteq> [] \<and> efRemove f = [] \<and> efReplace f = [] then
       (2, [], [''synctang-unlocker: --keyslot goes with --remove or --replace''], w)
     else if efDevice f = [] then (2, [], [''synctang-unlocker: --device is required: '' @ hint], w)
     else if efRemove f \<noteq> [] \<and> efReplace f \<noteq> [] then
       (2, [], [''synctang-unlocker: --remove and --replace are alternatives; use one or the other''], w)
     else if efReplace f \<noteq> [] then
       (if efDevice f = [] \<or> efPubkey f = [] \<or> efPassphraseFile f = [] then
          (2, [], [''synctang-unlocker: --device, --pubkey and --existing-passphrase-file are all required with --replace''], w)
        else enrol_replace U stdin f w)
     else if efRemove f \<noteq> [] then
       (if efDevice f = [] \<or> efPassphraseFile f = [] then
          (2, [], [''synctang-unlocker: --device and --existing-passphrase-file are required with --remove''], w)
        else enrol_remove U stdin f w)
     else if efDevice f = [] \<or> efPubkey f = [] \<or> efPassphraseFile f = [] then
       (2, [], [''synctang-unlocker: --device, --pubkey and --existing-passphrase-file are all required''], w)
     else enrol_add U M hostname stdin f w)"
section \<open>The agent\<close>

record agent_flags =
  agDevice :: string
  agName :: string
  agAskPasswordDir :: string
  agDirectAddr :: string

text \<open>
  One pass of the loop: the file system as \<open>ensureResolver\<close> finds it to write to and to search, the
  headers and \<open>/proc/partitions\<close>, the password requests when the device is chosen and when it is
  answered, the listening transport, and whether the process had been told to stop by the end of it.
\<close>

record 'h agent_pass =
  apWrite :: writer
  apGlob :: "string \<Rightarrow> string list res"
  apHeader :: "string \<Rightarrow> 'h"
  apPartitions :: "string res"
  apAsking :: ask_dir
  apAskingLater :: ask_dir
  apListen :: transport_listen
  apStopped :: bool

datatype said = Out string | ErrOut string | Logged log_record

record agent_state =
  asLastDiscoveryFailure :: string
  asFiles :: "string \<rightharpoonup> string"
  asSockets :: sockets
  asRng :: bytes

definition log_about :: "int \<Rightarrow> string \<Rightarrow> string \<Rightarrow> string \<Rightarrow> said" where
  "log_about level message key val = Logged \<lparr>lrLevel = level, lrMessage = message, lrAttrs = [Attr key val]\<rparr>"

definition cannot_choose :: "goerr \<Rightarrow> said" where
  "cannot_choose e = log_about LevelWarn ''cannot choose which device to unlock yet'' ''error'' (error_text e)"

definition choose_device ::
    "'h unlocker \<Rightarrow> (string \<Rightarrow> string res) \<Rightarrow> agent_flags \<Rightarrow> 'h agent_pass \<Rightarrow> string res" where
  "choose_device U EvalSymlinks f p =
    (if agDevice f = []
     then discoverAskingDevice U (apHeader p) EvalSymlinks (agAskPasswordDir f) (apAsking p) (apPartitions p)
     else Inr (agDevice f))"

definition agent_pass_step ::
    "'h unlocker \<Rightarrow> (string \<Rightarrow> string res) \<Rightarrow> agent_flags \<Rightarrow> 'h agent_pass \<Rightarrow> agent_state \<Rightarrow> said list \<times> agent_state" where
  "agent_pass_step U EvalSymlinks f p s =
    (let s0 = s\<lparr>asFiles := ensureResolver (apWrite p) (apGlob p) (asFiles s)\<rparr> in
     case choose_device U EvalSymlinks f p of
       Inl e \<Rightarrow>
         (let trace = log_about levelTrace ''device discovery failed, will retry'' ''error'' (error_text e) in
          if error_text e \<noteq> asLastDiscoveryFailure s0
          then ([trace, cannot_choose e], s0\<lparr>asLastDiscoveryFailure := error_text e\<rparr>)
          else ([trace], s0))
     | Inr device \<Rightarrow>
         (let trace = log_about levelTrace ''starting a recovery attempt'' ''device'' device in
          case runAgentOnce U EvalSymlinks device (agName f) (agAskPasswordDir f) (apAskingLater p)
              \<lparr>AuthorizedPeers = [], loDirectAddr = agDirectAddr f\<rparr> (apListen p) (apHeader p device) (asSockets s0) (asRng s0) of
            (r, _, w, rng) \<Rightarrow>
              (trace #
               (case r of
                  Inr _ \<Rightarrow>
                    [Out ''synctang-unlocker: unlocked'',
                     Logged \<lparr>lrLevel = LevelInfo, lrMessage = ''recovery attempt succeeded'', lrAttrs = []\<rparr>]
                | Inl e \<Rightarrow>
                    if apStopped p then []
                    else [ErrOut (''synctang-unlocker: '' @ error_text e),
                          log_about LevelError ''recovery attempt failed'' ''error'' (error_text e)]),
               s0\<lparr>asSockets := w, asRng := rng\<rparr>)))"

fun agent_loop ::
    "'h unlocker \<Rightarrow> (string \<Rightarrow> string res) \<Rightarrow> agent_flags \<Rightarrow> 'h agent_pass list \<Rightarrow> agent_state \<Rightarrow> said list \<times> agent_state" where
  "agent_loop U EvalSymlinks f [] s = ([], s)"
| "agent_loop U EvalSymlinks f (p # ps) s =
    (case agent_pass_step U EvalSymlinks f p s of
       (out, s1) \<Rightarrow>
         if apStopped p then (out, s1)
         else (case agent_loop U EvalSymlinks f ps s1 of (out2, s2) \<Rightarrow> (out @ out2, s2)))"

text \<open>
  The command around the loop: settings, log level and journal, identity, loop.  The exit status, what
  was said (the summary of the network settings as it was printed), the identity's files, the state.
\<close>

definition runAgentCLI ::
    "'h unlocker \<Rightarrow> 'c machine_side \<Rightarrow> NetworkConfig option \<times> string \<times> string \<Rightarrow> (string \<Rightarrow> string res) \<Rightarrow> agent_flags \<Rightarrow>
      string \<Rightarrow> string \<Rightarrow> string \<Rightarrow> 'h agent_pass list \<Rightarrow> filesys \<Rightarrow> agent_state \<Rightarrow> nat \<times> said list \<times> filesys \<times> agent_state" where
  "runAgentCLI U M network EvalSymlinks f logLevelFlag journalFlag keyFile ps fs s =
    (case network of
       (None, out, err) \<Rightarrow> (1, [Out out, ErrOut err], fs, s)
     | (Some c, out, err) \<Rightarrow>
    (case parseLogLevel logLevelFlag of
       Inl e \<Rightarrow> (2, [Out out, ErrOut (unlocker_says e)], fs, s)
     | Inr _ \<Rightarrow>
    (case parseJournalMode journalFlag of
       Inl e \<Rightarrow> (2, [Out out, ErrOut (''synctang-unlocker: --journal: '' @ error_text e)], fs, s)
     | Inr _ \<Rightarrow>
    (case LoadOrCreateCert (msX509 M) (msGenerate M) keyFile fs of
       (Inl e, fs1) \<Rightarrow> (1, [Out out, ErrOut (unlocker_says e)], fs1, s)
     | (Inr cert, fs1) \<Rightarrow>
         (case agent_loop U EvalSymlinks f ps (s\<lparr>asLastDiscoveryFailure := []\<rparr>) of
            (told, s1) \<Rightarrow>
              (0, [Out out, Out (''synctang-unlocker: waiting for a key holder, transport id '' @ msDeviceID M cert)] @ told,
               fs1, s1))))))"

section \<open>Lemmas\<close>

text \<open>The passphrase of a file is its content up to one line break, of either kind.\<close>

lemma readPassphrase_content:
  assumes "path \<noteq> ''-''" "readErr fs path = None" "p \<noteq> [] \<longrightarrow> last p \<noteq> 10 \<and> last p \<noteq> 13"
    and "files fs path \<in> {Some p, Some (p @ [10]), Some (p @ [13, 10])}"
  shows "readPassphrase stdin fs path = Inr p"
  using assms by (auto simp: readPassphrase_def os_ReadFile_def trim_byte_def butlast_append)

text \<open>A command that only removes or rotates never touches this machine's files or its initrd.\<close>

lemma enrol_elsewhere:
  assumes "efRemove f \<noteq> [] \<or> efReplace f \<noteq> []" "runEnrol U M hostname hint stdin f w = (code, out, err, w')"
  shows "ewFiles w' = ewFiles w \<and> ewInitrd w' = ewInitrd w"
  using assms
  by (auto simp: runEnrol_def enrol_replace_def enrol_remove_def with_pubkey_def with_passphrase_def Let_def
      split: if_splits option.splits sum.splits prod.splits)

text \<open>The reasons warned of, in order.\<close>

definition warnings :: "said list \<Rightarrow> string list" where
  "warnings told =
    concat (map (\<lambda>x. case x of
        Logged r \<Rightarrow> (case lrAttrs r of [Attr k v] \<Rightarrow> if lrLevel r = LevelWarn then [v] else [] | _ \<Rightarrow> [])
      | _ \<Rightarrow> []) told)"

lemma warnings_simps [simp]:
  "warnings [] = []" "warnings (a @ b) = warnings a @ warnings b"
  "warnings (Out t # r) = warnings r" "warnings (ErrOut t # r) = warnings r"
  "warnings (log_about l m k v # r) = (if l = LevelWarn then [v] else []) @ warnings r"
  "warnings (Logged \<lparr>lrLevel = l, lrMessage = m, lrAttrs = []\<rparr> # r) = warnings r"
  "warnings (cannot_choose e # r) = error_text e # warnings r"
  by (simp_all add: warnings_def log_about_def cannot_choose_def)

text \<open>
  What an attempt sends: nothing, or, once and to a pending request, the key of one of the volume's
  own keyslots that a key holder who connected has approved.
\<close>

definition sends_key ::
    "'h unlocker \<Rightarrow> 'h slots_view \<Rightarrow> 'h tokens_view \<Rightarrow> transport_listen \<Rightarrow> string \<Rightarrow> ask_dir \<Rightarrow> 'h \<Rightarrow>
      string \<times> bytes \<Rightarrow> bool" where
  "sends_key U keys toks Listen addr entries h m \<longleftrightarrow>
    (\<exists>key. approved U keys toks Listen addr h key \<and> snd m = bytes_of ''+'' @ key) \<and>
    (\<exists>ents en req. entries = Inr ents \<and> en \<in> set ents \<and> pending_entry en = Some req \<and> fst m = askSocket req)"

abbreviation pass_sends ::
    "'h unlocker \<Rightarrow> 'h slots_view \<Rightarrow> 'h tokens_view \<Rightarrow> agent_flags \<Rightarrow> 'h agent_pass \<Rightarrow> string \<Rightarrow> string \<times> bytes \<Rightarrow> bool" where
  "pass_sends U keys toks f p d \<equiv>
    sends_key U keys toks (apListen p) (agDirectAddr f) (apAskingLater p) (apHeader p d)"

lemma agent_attempt:
  assumes "cryptsetup_ok (cs U) keys toks" "header_ok keys toks h"
    and run: "runAgentOnce U EvalSymlinks device name dir entries \<lparr>AuthorizedPeers = ps, loDirectAddr = addr\<rparr> Listen h w rng = (r, c', w', rng')"
  shows "(r \<noteq> Inr () \<and> w' = w) \<or>
    (r = Inr () \<and> (\<exists>m. sends_key U keys toks Listen addr entries h m \<and> w' = w\<lparr>sent := sent w @ [m]\<rparr>))"
  using serve_approved [OF assms(1,2) run [unfolded runAgentOnce_def]]
proof
  assume "\<exists>key. approved U keys toks Listen addr h key \<and>
      (case answerAskPasswordFor EvalSymlinks dir entries device key w of
         (Inl e, s') \<Rightarrow> (Inl (wrap ''synctang-unlocker: answering ask-password request'' e), s')
       | (Inr _, s') \<Rightarrow> (Inr (), s')) = (r, w')"
  then obtain key where k: "approved U keys toks Listen addr h key"
    "(case answerAskPasswordFor EvalSymlinks dir entries device key w of
         (Inl e, s') \<Rightarrow> (Inl (wrap ''synctang-unlocker: answering ask-password request'' e), s')
       | (Inr _, s') \<Rightarrow> (Inr (), s')) = (r, w')" by blast
  obtain q w1 where q: "answerAskPasswordFor EvalSymlinks dir entries device key w = (q, w1)" by fastforce
  from answer_sends [OF q] show ?thesis
  proof
    assume "q \<noteq> Inr () \<and> w1 = w"
    with k(2) q show ?thesis by (auto split: sum.splits)
  next
    assume "\<exists>ents en req. q = Inr () \<and> entries = Inr ents \<and> en \<in> set ents \<and> pending_entry en = Some req \<and>
      w1 = w\<lparr>sent := sent w @ [(askSocket req, bytes_of ''+'' @ key)]\<rparr>"
    then obtain ents en req where s: "q = Inr ()" "entries = Inr ents" "en \<in> set ents" "pending_entry en = Some req"
      "w1 = w\<lparr>sent := sent w @ [(askSocket req, bytes_of ''+'' @ key)]\<rparr>" by blast
    with k q have "r = Inr ()" "w' = w1" "sends_key U keys toks Listen addr entries h (askSocket req, bytes_of ''+'' @ key)"
      by (auto simp: sends_key_def)
    with s(5) show ?thesis by blast
  qed
qed auto

lemma agent_pass_sends:
  assumes "\<forall>d. cryptsetup_ok (cs U) keys toks \<and> header_ok keys toks (apHeader p d)"
    and "agent_pass_step U EvalSymlinks f p s = (told, s')"
  shows "\<exists>ms. asSockets s' = (asSockets s)\<lparr>sent := sent (asSockets s) @ ms\<rparr> \<and>
      length ms = count_list told (Out ''synctang-unlocker: unlocked'') \<and>
      (\<forall>m \<in> set ms. \<exists>d. choose_device U EvalSymlinks f p = Inr d \<and> pass_sends U keys toks f p d m)"
proof (cases "choose_device U EvalSymlinks f p")
  case (Inl e)
  with assms(2) have "asSockets s' = asSockets s \<and> count_list told (Out ''synctang-unlocker: unlocked'') = 0"
    by (auto simp: agent_pass_step_def Let_def log_about_def cannot_choose_def split: if_splits)
  then show ?thesis by (intro exI [of _ "[]"]) simp
next
  case (Inr d)
  obtain r c w rng where run: "runAgentOnce U EvalSymlinks d (agName f) (agAskPasswordDir f) (apAskingLater p)
      \<lparr>AuthorizedPeers = [], loDirectAddr = agDirectAddr f\<rparr> (apListen p) (apHeader p d) (asSockets s) (asRng s) = (r, c, w, rng)"
    by (cases rule: prod_cases4)
  from agent_attempt [OF _ _ run] assms(1) have w: "(r \<noteq> Inr () \<and> w = asSockets s) \<or>
    (r = Inr () \<and> (\<exists>m. pass_sends U keys toks f p d m \<and> w = (asSockets s)\<lparr>sent := sent (asSockets s) @ [m]\<rparr>))" by blast
  from assms(2) run Inr have s': "asSockets s' = w"
    "count_list told (Out ''synctang-unlocker: unlocked'') = (if r = Inr () then 1 else 0)"
    by (auto simp: agent_pass_step_def Let_def log_about_def split: if_splits sum.splits)
  show ?thesis
  proof (cases "r = Inr ()")
    case True
    with w obtain m where "pass_sends U keys toks f p d m" "w = (asSockets s)\<lparr>sent := sent (asSockets s) @ [m]\<rparr>" by blast
    with True s' Inr show ?thesis by (intro exI [of _ "[m]"]) simp
  next
    case False
    with w s' show ?thesis by (intro exI [of _ "[]"]) simp
  qed
qed

lemma agent_pass_warns:
  assumes "agent_pass_step U EvalSymlinks f p s = (told, s')"
  shows "warnings told = (if asLastDiscoveryFailure s' = asLastDiscoveryFailure s then [] else [asLastDiscoveryFailure s'])"
  using assms
  by (auto simp: agent_pass_step_def Let_def LevelWarn_def levelTrace_def LevelError_def split: if_splits sum.splits prod.splits)

section \<open>Property\<close>

text \<open>
  C39. However long the agent runs, it answers a password prompt only with the key of one of the
  keyslots of the volume it chose in that pass, recovered from the answer of the one enrolled key
  holder that connected to it in that pass, sent to a request then pending; it says that it unlocked
  exactly as often as it answered; and the reason why no volume can be chosen is warned of only when
  it is another than the last.
\<close>

theorem agent_answers_only_when_approved:
  assumes "\<forall>p \<in> set ps. \<forall>d. cryptsetup_ok (cs U) keys toks \<and> header_ok keys toks (apHeader p d)"
    and "agent_loop U EvalSymlinks f ps s = (told, s')"
  shows "(\<exists>ms. asSockets s' = (asSockets s)\<lparr>sent := sent (asSockets s) @ ms\<rparr> \<and>
      length ms = count_list told (Out ''synctang-unlocker: unlocked'') \<and>
      (\<forall>m \<in> set ms. \<exists>p \<in> set ps. \<exists>d. choose_device U EvalSymlinks f p = Inr d \<and> pass_sends U keys toks f p d m)) \<and>
    distinct_adj (asLastDiscoveryFailure s # warnings told)"
  using assms
proof (induction ps arbitrary: s told)
  case (Cons p ps)
  obtain out1 s1 where one: "agent_pass_step U EvalSymlinks f p s = (out1, s1)" by fastforce
  have "\<forall>d. cryptsetup_ok (cs U) keys toks \<and> header_ok keys toks (apHeader p d)" using Cons.prems(1) by simp
  from agent_pass_sends [OF this one] obtain ms where ms: "asSockets s1 = (asSockets s)\<lparr>sent := sent (asSockets s) @ ms\<rparr>"
    "length ms = count_list out1 (Out ''synctang-unlocker: unlocked'')"
    "\<forall>m \<in> set ms. \<exists>d. choose_device U EvalSymlinks f p = Inr d \<and> pass_sends U keys toks f p d m" by blast
  note warned = agent_pass_warns [OF one]
  show ?case
  proof (cases "apStopped p")
    case True
    with Cons.prems(2) one have e: "told = out1" "s' = s1" by simp_all
    have "\<forall>m \<in> set ms. \<exists>q \<in> set (p # ps). \<exists>d. choose_device U EvalSymlinks f q = Inr d \<and> pass_sends U keys toks f q d m"
      using ms(3) by auto
    with ms(1,2) warned show ?thesis unfolding e by auto
  next
    case False
    obtain out2 where two: "agent_loop U EvalSymlinks f ps s1 = (out2, s')" "told = out1 @ out2"
      using Cons.prems(2) one False by (auto split: prod.splits)
    from Cons.IH [OF _ two(1)] Cons.prems(1) obtain ns where
      ns: "asSockets s' = (asSockets s1)\<lparr>sent := sent (asSockets s1) @ ns\<rparr>"
      "length ns = count_list out2 (Out ''synctang-unlocker: unlocked'')"
      "\<forall>m \<in> set ns. \<exists>p \<in> set ps. \<exists>d. choose_device U EvalSymlinks f p = Inr d \<and> pass_sends U keys toks f p d m"
      and w: "distinct_adj (asLastDiscoveryFailure s1 # warnings out2)" by auto
    have "\<forall>m \<in> set (ms @ ns). \<exists>q \<in> set (p # ps). \<exists>d. choose_device U EvalSymlinks f q = Inr d \<and> pass_sends U keys toks f q d m"
      using ms(3) ns(3) by auto
    moreover have "asSockets s' = (asSockets s)\<lparr>sent := sent (asSockets s) @ (ms @ ns)\<rparr>" using ns(1) ms(1) by simp
    moreover have "length (ms @ ns) = count_list told (Out ''synctang-unlocker: unlocked'')" using ms(2) ns(2) two(2) by simp
    moreover have "distinct_adj (asLastDiscoveryFailure s # warnings told)" using w warned two(2) by (auto split: if_splits)
    ultimately show ?thesis by blast
  qed
qed auto

section \<open>A run of the agent\<close>

text \<open>Two passes while the partitions cannot be read, and one in which the phone answers.\<close>

definition demo_pass :: "recipient \<Rightarrow> string res \<Rightarrow> transport_listen \<Rightarrow> mem_header agent_pass" where
  "demo_pass rec partitions Listen =
    \<lparr>apWrite = (\<lambda>p t fs. (True, fs(p \<mapsto> t))), apGlob = (\<lambda>_. Inr []), apHeader = demo_disks rec, apPartitions = partitions,
     apAsking = demo_ask_dir, apAskingLater = demo_ask_dir, apListen = Listen, apStopped = False\<rparr>"

definition demo_agent :: agent_flags where
  "demo_agent = \<lparr>agDevice = [], agName = ''host'', agAskPasswordDir = ''/run'', agDirectAddr = []\<rparr>"

definition demo_start :: agent_state where
  "demo_start = \<lparr>asLastDiscoveryFailure = [], asFiles = Map.empty, asSockets = demo_sockets, asRng = scalar 5\<rparr>"

lemma demo_sel:
  "apHeader (demo_pass rec ps L) = demo_disks rec" "apAskingLater (demo_pass rec ps L) = demo_ask_dir"
  "apListen (demo_pass rec ps L) = L" "\<not> apStopped (demo_pass rec ps L)"
  "agName demo_agent = ''host''" "agAskPasswordDir demo_agent = ''/run''" "agDirectAddr demo_agent = []"
  by (simp_all add: demo_pass_def demo_agent_def)

lemma agent_answers_only_when_approved_witness:
  "\<exists>rec c told s' m. agent_loop demo_U Inr demo_agent
      [demo_pass rec (Inl (Err ''busy'')) (\<lambda>_. Inr c), demo_pass rec (Inl (Err ''busy'')) (\<lambda>_. Inr c),
       demo_pass rec (Inr demo_partitions) (\<lambda>_. Inr c)] demo_start = (told, s') \<and>
    sent (asSockets s') = [m] \<and> count_list told (Out ''synctang-unlocker: unlocked'') = 1 \<and>
    warnings told = [''enumerating block devices: busy'']"
proof -
  let ?deliver = "\<lambda>keyMaterial s. case answerAskPasswordFor Inr ''/run'' demo_ask_dir ''/dev/sda'' keyMaterial s of
         (Inl e, s') \<Rightarrow> (Inl (wrap ''synctang-unlocker: answering ask-password request'' e), s')
       | (Inr _, s') \<Rightarrow> (Inr (), s')"
  obtain s1 where a: "answerAskPasswordFor Inr ''/run'' demo_ask_dir ''/dev/sda'' (luksKeyMaterial demo_secret) demo_sockets = (Inr (), s1)"
    "length (sent s1) = 1"
    by (simp add: answerAskPasswordFor_def demo_pending selectAskRequest_def demo_sockets_def split: option.split prod.split)
  then have "?deliver (luksKeyMaterial demo_secret) demo_sockets = (Inr (), s1)" by simp
  then obtain rec c c' where run: "serveOneExchange demo_U ''/dev/sda'' ''host'' \<lparr>AuthorizedPeers = [], loDirectAddr = []\<rparr>
      (\<lambda>_. Inr c) ?deliver (demo_h1 rec) demo_sockets (scalar 5) = (Inr (), Some c', s1, [])" by (rule demo_serve)
  let ?ps = "[demo_pass rec (Inl (Err ''busy'')) (\<lambda>_. Inr c), demo_pass rec (Inl (Err ''busy'')) (\<lambda>_. Inr c),
       demo_pass rec (Inr demo_partitions) (\<lambda>_. Inr c)]"
  have busy: "choose_device demo_U Inr demo_agent (demo_pass rec (Inl (Err ''busy'')) L) =
      Inl (Wrap ''enumerating block devices: '' (Err ''busy'') [])" for L
    by (simp add: choose_device_def demo_agent_def demo_pass_def discoverAskingDevice_def findMr1Devices_def)
  have found: "choose_device demo_U Inr demo_agent (demo_pass rec (Inr demo_partitions) L) = Inr ''/dev/sda''" for L
    by (simp add: choose_device_def demo_agent_def demo_pass_def demo_discover)
  have serve: "runAgentOnce demo_U Inr ''/dev/sda'' ''host'' ''/run'' demo_ask_dir \<lparr>AuthorizedPeers = [], loDirectAddr = []\<rparr>
      (\<lambda>_. Inr c) (demo_disks rec ''/dev/sda'') demo_sockets (scalar 5) = (Inr (), Some c', s1, [])"
    using run by (simp add: runAgentOnce_def demo_disks_def)
  obtain told s' where loop: "agent_loop demo_U Inr demo_agent ?ps demo_start = (told, s')" by fastforce
  from loop have "asSockets s' = s1" "warnings told = [''enumerating block devices: busy'']"
    by (auto simp: agent_pass_step_def Let_def busy found serve demo_start_def demo_sel LevelWarn_def levelTrace_def
        split: prod.splits)
  moreover have "\<forall>p \<in> set ?ps. \<forall>d. cryptsetup_ok (cs demo_U) mem_keys mem_toks \<and> header_ok mem_keys mem_toks (apHeader p d)"
    by (simp add: mem_cs_ok demo_sel demo_disks_def demo_h0_header_ok demo_h1_header_ok)
  note agent_answers_only_when_approved [OF this loop]
  ultimately show ?thesis using loop a(2) by (fastforce simp: demo_start_def demo_sockets_def length_Suc_conv)
qed

end
