(* ===== verification/QrImage.thy ===== *)
theory QrImage
  imports Encoding GoTime
begin

text \<open>
  Drawing the pairing code, \<open>cmd/synctang-unlocker/qrcode.go\<close> and \<open>qrimage.go\<close>: as text, or as a picture
  by the Kitty or the iTerm2 protocol.  The QR encoder (rsc.io/qr), the PNG writer and the text renderer
  (qrterminal) are parameters.
\<close>

section \<open>The symbol\<close>

record qr_config =
  qcQuietZone :: nat
  qcHalfBlocks :: bool
  qcBlackChar :: string
  qcWhiteChar :: string
  qcBlackWhiteChar :: string
  qcWhiteBlackChar :: string

text \<open>A symbol is its size and its black modules; an image is its side and the pixels' indices.\<close>

record qr_lib =
  qlEncode :: "string \<Rightarrow> (nat \<times> (nat \<Rightarrow> nat \<Rightarrow> bool)) res"
  qlPng :: "nat \<Rightarrow> (nat \<times> nat \<Rightarrow> nat) \<Rightarrow> bytes res"
  qlText :: "qr_config \<Rightarrow> string \<Rightarrow> string"
  qlQuietZone :: nat

definition qrImageScale :: nat where "qrImageScale = 8"
definition qrImageColumns :: nat where "qrImageColumns = 40"
definition kittyChunk :: nat where "kittyChunk = 4096"

definition module_pixels :: "nat \<Rightarrow> nat \<Rightarrow> nat \<Rightarrow> nat \<Rightarrow> (nat \<times> nat) list" where
  "module_pixels quietZone scale x y =
    concat (map (\<lambda>dy. map (\<lambda>dx. ((quietZone + x) * scale + dx, (quietZone + y) * scale + dy)) [0..<scale]) [0..<scale])"

definition black_pixels :: "nat \<Rightarrow> nat \<Rightarrow> nat \<Rightarrow> (nat \<Rightarrow> nat \<Rightarrow> bool) \<Rightarrow> (nat \<times> nat) list" where
  "black_pixels quietZone scale side black =
    concat (map (\<lambda>y. concat (map (\<lambda>x. if black x y then module_pixels quietZone scale x y else []) [0..<side])) [0..<side])"

definition qr_image :: "nat \<Rightarrow> nat \<Rightarrow> nat \<Rightarrow> (nat \<Rightarrow> nat \<Rightarrow> bool) \<Rightarrow> nat \<times> nat \<Rightarrow> nat" where
  "qr_image quietZone scale side black = fold (\<lambda>p img. img(p := 1)) (black_pixels quietZone scale side black) (\<lambda>_. 0)"

definition qrPNG :: "qr_lib \<Rightarrow> string \<Rightarrow> nat \<Rightarrow> bytes res" where
  "qrPNG L content scale =
    (case qlEncode L content of
       Inl e \<Rightarrow> Inl (wrap ''encoding the QR code'' e)
     | Inr (side, black) \<Rightarrow>
         qlPng L ((side + 2 * qlQuietZone L) * scale) (qr_image (qlQuietZone L) scale side black))"

section \<open>As text\<close>

abbreviation esc :: char where "esc \<equiv> CHR 0x1B"

definition upper_half :: string where "upper_half = [CHR 0xE2, CHR 0x96, CHR 0x80]"

definition cellDarkOverLight :: string where "cellDarkOverLight = esc # ''[30;47m'' @ upper_half @ esc # ''[0m''"
definition cellLightOverDark :: string where "cellLightOverDark = esc # ''[37;40m'' @ upper_half @ esc # ''[0m''"
definition cellDarkOverDark :: string where "cellDarkOverDark = esc # ''[40m '' @ esc # ''[0m''"
definition cellLightOverLight :: string where "cellLightOverLight = esc # ''[47m '' @ esc # ''[0m''"

definition renderQRCode :: "qr_lib \<Rightarrow> string \<Rightarrow> string res" where
  "renderQRCode L content =
    Inr (qlText L \<lparr>qcQuietZone = qlQuietZone L, qcHalfBlocks = True, qcBlackChar = cellDarkOverDark,
      qcWhiteChar = cellLightOverLight, qcBlackWhiteChar = cellDarkOverLight, qcWhiteBlackChar = cellLightOverDark\<rparr> content)"

definition renderQRCodePlain :: "qr_lib \<Rightarrow> string \<Rightarrow> string res" where
  "renderQRCodePlain L content =
    Inr (qlText L \<lparr>qcQuietZone = qlQuietZone L, qcHalfBlocks = False, qcBlackChar = ''##'', qcWhiteChar = ''  '',
      qcBlackWhiteChar = [], qcWhiteBlackChar = []\<rparr> content)"

section \<open>As a picture\<close>

datatype imageProtocol = noImage | protoKitty | protoITerm2

definition qrModes :: "string list" where
  "qrModes = [''auto'', ''blocks'', ''plain'', ''kitty'', ''iterm2'']"

definition validQRMode :: "string \<Rightarrow> bool" where
  "validQRMode mode \<longleftrightarrow> mode \<in> set qrModes"

definition wrapForTmux :: "string \<Rightarrow> string" where
  "wrapForTmux seq =
    esc # ''Ptmux;'' @ concat (map (\<lambda>c. if c = esc then [esc, esc] else [c]) seq) @ [esc, CHR 0x5C]"

definition kitty_control :: "bool \<Rightarrow> bool \<Rightarrow> string" where
  "kitty_control first rest =
    (let m = (if rest then 1 else 0) in
     if first then ''a=T,f=100,t=d,c='' @ show_nat qrImageColumns @ '',q=2,m='' @ show_nat m else ''q=2,m='' @ show_nat m)"

definition kitty_seq :: "string \<Rightarrow> string \<Rightarrow> string" where
  "kitty_seq control chunk = esc # ''_G'' @ control @ '';'' @ chunk @ [esc, CHR 0x5C]"

function kitty_seqs :: "bool \<Rightarrow> bool \<Rightarrow> string \<Rightarrow> string" where
  "kitty_seqs tmux first encoded =
    (if encoded = [] then []
     else
       (let n = min (length encoded) kittyChunk; chunk = take n encoded; rest = drop n encoded;
            seq = kitty_seq (kitty_control first (rest \<noteq> [])) chunk in
        (if tmux then wrapForTmux seq else seq) @ kitty_seqs tmux False rest))"
  by pat_completeness auto

termination
  by (relation "measure (\<lambda>(_, _, e). length e)") (auto simp: kittyChunk_def)

declare kitty_seqs.simps [simp del]

definition renderQRKitty :: "qr_lib \<Rightarrow> string \<Rightarrow> bool \<Rightarrow> string res" where
  "renderQRKitty L content tmux =
    (case qrPNG L content qrImageScale of
       Inl e \<Rightarrow> Inl e
     | Inr data \<Rightarrow> Inr (kitty_seqs tmux True (b64_EncodeToString data) @ [CHR 0x0A]))"

definition renderQRITerm2 :: "qr_lib \<Rightarrow> string \<Rightarrow> bool \<Rightarrow> string res" where
  "renderQRITerm2 L content tmux =
    (case qrPNG L content qrImageScale of
       Inl e \<Rightarrow> Inl e
     | Inr data \<Rightarrow>
         (let seq = esc # '']1337;File=name='' @ b64_EncodeToString (bytes_of ''pairing-qr.png'') @ '';size='' @
               show_nat (length data) @ '';inline=1;width='' @ show_nat qrImageColumns @ '';preserveAspectRatio=1:'' @
               b64_EncodeToString data @ [CHR 0x07] in
          Inr ((if tmux then wrapForTmux seq else seq) @ [CHR 0x0A])))"

definition detectImageProtocol :: "(string \<Rightarrow> string) \<Rightarrow> imageProtocol" where
  "detectImageProtocol getenv =
    (let term' = getenv ''TERM'' in
     if getenv ''TMUX'' \<noteq> [] \<or> getenv ''STY'' \<noteq> [] \<or> HasPrefix term' ''screen'' \<or> HasPrefix term' ''tmux'' then noImage
     else if getenv ''KITTY_WINDOW_ID'' \<noteq> [] \<or> term' = ''xterm-kitty'' \<or> term' = ''xterm-ghostty'' \<or>
       getenv ''TERM_PROGRAM'' = ''ghostty'' then protoKitty
     else if getenv ''TERM_PROGRAM'' = ''iTerm.app'' \<or> getenv ''TERM_PROGRAM'' = ''WezTerm'' \<or>
       getenv ''LC_TERMINAL'' = ''iTerm2'' then protoITerm2
     else noImage)"

definition renderPairingQR :: "qr_lib \<Rightarrow> string \<Rightarrow> string \<Rightarrow> (string \<Rightarrow> string) \<Rightarrow> bool \<Rightarrow> string res" where
  "renderPairingQR L content mode getenv isTerminal =
    (let tmux = (getenv ''TMUX'' \<noteq> []) in
     if mode = ''blocks'' then renderQRCode L content
     else if mode = ''plain'' then renderQRCodePlain L content
     else if mode = ''kitty'' then renderQRKitty L content tmux
     else if mode = ''iterm2'' then renderQRITerm2 L content tmux
     else if mode = ''auto'' then
       (if getenv ''NO_COLOR'' \<noteq> [] then renderQRCodePlain L content
        else if isTerminal then
          (case detectImageProtocol getenv of
             protoKitty \<Rightarrow> renderQRKitty L content False
           | protoITerm2 \<Rightarrow> renderQRITerm2 L content False
           | noImage \<Rightarrow> renderQRCode L content)
        else renderQRCode L content)
     else Inl (Err (''unknown QR mode '' @ Quote mode @ '', want one of '' @ join_with '', '' qrModes)))"

section \<open>Lemmas\<close>

text \<open>The picture: a pixel is black exactly when it lies in a black module, inside the quiet zone.\<close>

lemma painted: "fold (\<lambda>p img. img(p := 1)) ps img = (\<lambda>p. if p \<in> set ps then 1 else img p)"
  by (induction ps arbitrary: img) auto

lemma qr_image_pixel:
  assumes "0 < scale"
  shows "qr_image quietZone scale side black (i, j) = 1 \<longleftrightarrow>
    (\<exists>x y. x < side \<and> y < side \<and> black x y \<and> i div scale = quietZone + x \<and> j div scale = quietZone + y)"
proof -
  have m: "(\<exists>d < scale. i = (quietZone + x) * scale + d) \<longleftrightarrow> i div scale = quietZone + x" for i x
  proof
    assume "i div scale = quietZone + x"
    then show "\<exists>d < scale. i = (quietZone + x) * scale + d"
      using assms by (metis div_mult_mod_eq mod_less_divisor)
  qed (use assms in auto)
  have "(i, j) \<in> set (module_pixels quietZone scale x y) \<longleftrightarrow>
      (\<exists>d < scale. i = (quietZone + x) * scale + d) \<and> (\<exists>d < scale. j = (quietZone + y) * scale + d)" for x y
    by (auto simp: module_pixels_def image_iff)
  then have "(i, j) \<in> set (black_pixels quietZone scale side black) \<longleftrightarrow>
      (\<exists>x y. x < side \<and> y < side \<and> black x y \<and> i div scale = quietZone + x \<and> j div scale = quietZone + y)"
    unfolding m by (fastforce simp: black_pixels_def split: if_splits)
  then show ?thesis unfolding qr_image_def painted by simp
qed

text \<open>The terminal's end of the Kitty protocol: the control data and the payload of each sequence.\<close>

function kitty_read :: "string \<Rightarrow> (string \<times> string) list option" where
  "kitty_read s =
    (if s = [] then Some []
     else if \<not> HasPrefix s (esc # ''_G'') then None
     else
       (let control = takeWhile (\<lambda>c. c \<noteq> CHR '';'') (drop 3 s); r = drop 1 (dropWhile (\<lambda>c. c \<noteq> CHR '';'') (drop 3 s));
            payload = takeWhile (\<lambda>c. c \<noteq> esc) r; rest = drop 2 (dropWhile (\<lambda>c. c \<noteq> esc) r) in
        map_option ((#) (control, payload)) (kitty_read rest)))"
  by pat_completeness auto

termination
proof (relation "measure length")
  fix s control r payload rest :: string
  assume s: "s \<noteq> []" and r: "r = drop 1 (dropWhile (\<lambda>c. c \<noteq> CHR '';'') (drop 3 s))" "rest = drop 2 (dropWhile (\<lambda>c. c \<noteq> esc) r)"
  have "length rest \<le> length s - 3" unfolding r
    using length_dropWhile_le [of "\<lambda>c. c \<noteq> CHR '';''" "drop 3 s"] length_dropWhile_le [of "\<lambda>c. c \<noteq> esc" "drop 1 (dropWhile (\<lambda>c. c \<noteq> CHR '';'') (drop 3 s))"]
    by simp
  with s show "(rest, s) \<in> measure length" by (cases s) auto
qed simp

declare kitty_read.simps [simp del]

lemma kitty_read_seq:
  assumes "CHR '';'' \<notin> set control" "esc \<notin> set chunk"
  shows "kitty_read (kitty_seq control chunk @ r) = map_option ((#) (control, chunk)) (kitty_read r)"
proof -
  have "takeWhile (\<lambda>c. c \<noteq> CHR '';'') (control @ CHR '';'' # t) = control"
    "dropWhile (\<lambda>c. c \<noteq> CHR '';'') (control @ CHR '';'' # t) = CHR '';'' # t" for t
    using assms(1) by (auto simp: takeWhile_append dropWhile_append)
  moreover have "takeWhile (\<lambda>c. c \<noteq> esc) (chunk @ esc # t) = chunk" "dropWhile (\<lambda>c. c \<noteq> esc) (chunk @ esc # t) = esc # t" for t
    using assms(2) by (auto simp: takeWhile_append dropWhile_append)
  ultimately show ?thesis by (subst kitty_read.simps) (simp add: kitty_seq_def Let_def)
qed

lemma kitty_control_plain: "CHR '';'' \<notin> set (kitty_control first rest)"
proof -
  have "list_all (\<lambda>(f, r). CHR '';'' \<notin> set (kitty_control f r)) [(True, True), (True, False), (False, True), (False, False)]"
    by code_simp
  then show ?thesis by (cases first; cases rest) simp_all
qed

lemma kitty_seqs_read:
  assumes "esc \<notin> set encoded"
  shows "\<exists>ps. kitty_read (kitty_seqs False first encoded) = Some ps \<and> concat (map snd ps) = encoded \<and>
    list_all (\<lambda>p. 0 < length (snd p) \<and> length (snd p) \<le> kittyChunk) ps \<and>
    map fst ps = map (\<lambda>i. kitty_control (first \<and> i = 0) (Suc i < length ps)) [0..<length ps]"
  using assms
proof (induction encoded arbitrary: first rule: length_induct)
  case (1 encoded)
  show ?case
  proof (cases "encoded = []")
    case False
    let ?n = "min (length encoded) kittyChunk"
    have k: "0 < kittyChunk" by (simp add: kittyChunk_def)
    then have l: "length (drop ?n encoded) < length encoded" using False by (auto simp: min_def)
    have e: "esc \<notin> set (take ?n encoded)" "esc \<notin> set (drop ?n encoded)"
      using "1.prems" by (auto dest: in_set_takeD in_set_dropD)
    from "1.IH" l e(2) obtain ps where ps: "kitty_read (kitty_seqs False False (drop ?n encoded)) = Some ps"
      "concat (map snd ps) = drop ?n encoded" "list_all (\<lambda>p. 0 < length (snd p) \<and> length (snd p) \<le> kittyChunk) ps"
      "map fst ps = map (\<lambda>i. kitty_control (False \<and> i = 0) (Suc i < length ps)) [0..<length ps]" by blast
    have empty: "drop ?n encoded \<noteq> [] \<longleftrightarrow> ps \<noteq> []" using ps(2,3) by (cases ps) auto
    let ?p = "(kitty_control first (drop ?n encoded \<noteq> []), take ?n encoded)"
    have "kitty_read (kitty_seqs False first encoded) = Some (?p # ps)"
      using False kitty_read_seq [OF kitty_control_plain e(1)] ps(1) by (subst kitty_seqs.simps) (simp add: Let_def)
    moreover have "map fst (?p # ps) = map (\<lambda>i. kitty_control (first \<and> i = 0) (Suc i < length (?p # ps))) [0..<length (?p # ps)]"
      using ps(4) empty by (simp add: upt_conv_Cons map_Suc_upt [symmetric] del: upt_Suc)
    ultimately show ?thesis using ps(2,3) False k by (intro exI [of _ "?p # ps"]) auto
  qed (auto simp: kitty_seqs.simps kitty_read.simps)
qed

text \<open>What tmux hands on: the doubled escapes are single again.\<close>

fun tmux_read :: "string \<Rightarrow> string option" where
  "tmux_read [] = None"
| "tmux_read [c] = None"
| "tmux_read (c # d # s) =
    (if c = esc then (if d = CHR 0x5C then (if s = [] then Some [] else None) else if d = esc then map_option ((#) esc) (tmux_read s) else None)
     else map_option ((#) c) (tmux_read (d # s)))"

lemma tmux_passes: "tmux_read (drop 7 (wrapForTmux seq)) = Some seq"
proof -
  have "tmux_read (concat (map (\<lambda>c. if c = esc then [esc, esc] else [c]) seq) @ [esc, CHR 0x5C]) = Some seq"
  proof (induction seq)
    case (Cons c seq)
    obtain d r where "concat (map (\<lambda>c. if c = esc then [esc, esc] else [c]) seq) @ [esc, CHR 0x5C] = d # r"
      by (cases "concat (map (\<lambda>c. if c = esc then [esc, esc] else [c]) seq)") auto
    with Cons show ?case by auto
  qed simp
  then show ?thesis by (simp add: wrapForTmux_def)
qed

section \<open>Property\<close>


text \<open>A symbol of one black module.\<close>

definition demo_qr :: qr_lib where
  "demo_qr = \<lparr>qlEncode = (\<lambda>_. Inr (1, \<lambda>_ _. True)), qlPng = (\<lambda>n _. Inr [of_nat n]), qlText = (\<lambda>_ s. s), qlQuietZone = 4\<rparr>"


end
