(* ===== verification/PairCommand.thy ===== *)
theory PairCommand
  imports Commands QrImage PairFlow
begin

text \<open>
  The command \<open>pair\<close>, \<open>runPair\<close> of \<open>cmd/synctang-unlocker/pair.go\<close>: what is checked before a code is
  shown, the code, and the attempts of the window on the volume, with the initrd looked at afterwards.
\<close>

section \<open>The command\<close>

record pair_flags =
  pfDevice :: string
  pfPassphraseFile :: string
  pfName :: string
  pfMachineKeyFile :: string
  pfWindow :: duration
  pfYes :: bool
  pfRebuild :: bool
  pfDirectAddr :: string
  pfNetworkConf :: string
  pfQr :: string

text \<open>
  The terminal: whether \<open>/dev/tty\<close> opens, whether the output is a terminal, the environment, and what
  the operator types to a question about a new key holder and about a key to be replaced.
\<close>

record terminal =
  tmTTY :: "unit res"
  tmIsTerminal :: bool
  tmGetenv :: "string \<Rightarrow> string"
  tmAnswer :: "string \<Rightarrow> bytes \<Rightarrow> string option"
  tmAnswerReplace :: "string \<Rightarrow> existing_recipient \<Rightarrow> bytes \<Rightarrow> string option"

definition pair_options :: "pair_flags \<Rightarrow> terminal \<Rightarrow> bytes \<Rightarrow> string \<Rightarrow> string \<Rightarrow> bytes \<Rightarrow> pairOptions" where
  "pair_options f T p machineID name secret =
    \<lparr>poDevice = pfDevice f, poPassphrase = p, poMachineID = machineID, poMachineName = name, poSecret = secret,
     poConfirm = Some (\<lambda>peer key. fst (pairConfirmer (pfYes f) (tmAnswer T peer key) peer key)),
     poConfirmReplace = Some (\<lambda>peer ex kid. fst (pairReplaceConfirmer (pfYes f) (tmAnswerReplace T peer ex kid) peer ex kid)),
     poListenOpts = \<lparr>AuthorizedPeers = [], loDirectAddr = pfDirectAddr f\<rparr>\<rparr>"

text \<open>What is shown, and what is said when the picture cannot be drawn.\<close>

definition pair_shown ::
    "qr_lib \<Rightarrow> pair_flags \<Rightarrow> terminal \<Rightarrow> string \<Rightarrow> string \<Rightarrow> string \<Rightarrow> NetworkConfig \<Rightarrow> string list \<times> string list" where
  "pair_shown Q f T machineID name encoded network =
    (case renderPairingQR Q (pairingURL machineID name encoded network) (pfQr f) (tmGetenv T) (tmIsTerminal T) of
       Inl e \<Rightarrow> ([pairingInstructions machineID name encoded network (pfWindow f), nl],
          [''synctang-unlocker: could not draw the QR code ('' @ error_text e @ ''); use the link below''])
     | Inr qr \<Rightarrow> ([nl, qr, nl, pairingInstructions machineID name encoded network (pfWindow f), nl], []))"

text \<open>
  The outcome is the exit status (none while the window is open), the output, the errors and the
  state; what a failed attempt prints is not kept.
\<close>

type_synonym 'h pair_end = "int option \<times> string list \<times> string list \<times> 'h enrol_world"

definition pair_window ::
    "'h unlocker \<Rightarrow> 'c machine_side \<Rightarrow> pair_flags \<Rightarrow> pairOptions \<Rightarrow> (transport_listen \<times> bool) list \<Rightarrow>
      'h enrol_world \<Rightarrow> 'h pair_end" where
  "pair_window U M f opts as w =
    (case pairAttempts U opts as (ewHeader w) (ewRng w) of
       None \<Rightarrow> (None, [], [], w)
     | Some (code, h, rng) \<Rightarrow>
         (let w1 = w\<lparr>ewHeader := h, ewRng := rng\<rparr> in
          if code = 0 then
            (case afterEnrolmentFor (msSha M) (msExists M) (msDracut M)
                (system_of (pfMachineKeyFile f) (pfNetworkConf f) (ewFiles w)) (pfRebuild f) (ewInitrd w) of
               (c, out, err, i) \<Rightarrow>
                 (Some c, ''paired. The key holder can now unlock this volume.'' # out, err, w1\<lparr>ewInitrd := i\<rparr>))
          else (Some code, [], [''synctang-unlocker: nobody paired within '' @ duration_string (pfWindow f)], w1)))"

definition pair_show_and_wait ::
    "'h unlocker \<Rightarrow> 'c machine_side \<Rightarrow> qr_lib \<Rightarrow> terminal \<Rightarrow> string res \<Rightarrow> pair_flags \<Rightarrow> NetworkConfig \<Rightarrow> bytes \<Rightarrow> 'c \<Rightarrow>
      (transport_listen \<times> bool) list \<Rightarrow> 'h enrol_world \<Rightarrow> 'h pair_end" where
  "pair_show_and_wait U M Q T hostname f network p cert as w =
    (let machineID = msDeviceID M cert;
         name = resolveMachineName hostname (pfName f) (existingMachineName U (\<lambda>_. ewHeader w) (pfDevice f)) in
     case NewPairingSecret (ewRng w) of
       Inl e \<Rightarrow> (Some 1, [], [unlocker_says e], w)
     | Inr (secret, encoded, rng) \<Rightarrow>
         (case pair_shown Q f T machineID name encoded network of
            (shown, said) \<Rightarrow>
              (case pair_window U M f (pair_options f T p machineID name secret) as (w\<lparr>ewRng := rng\<rparr>) of
                 (code, out, err, w') \<Rightarrow> (code, shown @ out, said @ err, w'))))"

definition runPair ::
    "'h unlocker \<Rightarrow> 'c machine_side \<Rightarrow> qr_lib \<Rightarrow> terminal \<Rightarrow> string res \<Rightarrow> string \<Rightarrow> bytes res \<Rightarrow>
      NetworkConfig option \<times> string \<times> string \<Rightarrow> pair_flags \<Rightarrow> (transport_listen \<times> bool) list \<Rightarrow> 'h enrol_world \<Rightarrow> 'h pair_end" where
  "runPair U M Q T hostname hint stdin network f as w =
    (if \<not> validQRMode (pfQr f) then
       (Some 2, [], [''synctang-unlocker: --qr: unknown mode '' @ Quote (pfQr f) @ '', want one of '' @ join_with '', '' qrModes], w)
     else if pfDevice f = [] then (Some 2, [], [''synctang-unlocker: --device is required: '' @ hint], w)
     else if pfPassphraseFile f = [] then (Some 2, [], [''synctang-unlocker: --existing-passphrase-file is required''], w)
     else
    (case confirmationInput (pfPassphraseFile f) (pfYes f) (tmTTY T) of
       Inl e \<Rightarrow> (Some 2, [], [unlocker_says e], w)
     | Inr _ \<Rightarrow>
    (case network of
       (None, out, err) \<Rightarrow> (Some 1, [out], [err], w)
     | (Some cfg, summary, _) \<Rightarrow>
    (case readPassphrase stdin (ewFiles w) (pfPassphraseFile f) of
       Inl e \<Rightarrow> (Some 1, [summary], [unlocker_says e], w)
     | Inr p \<Rightarrow>
    (case verifyPassphrase U (ewHeader w) p of
       Inl e \<Rightarrow>
         (Some 1, [summary], [''synctang-unlocker: that passphrase does not open '' @ pfDevice f @ '' ('' @ error_text e @ ''); nothing was changed''], w)
     | Inr _ \<Rightarrow>
    (case LoadOrCreateCert (msX509 M) (msGenerate M) (pfMachineKeyFile f) (ewFiles w) of
       (Inl e, fs) \<Rightarrow> (Some 1, [summary], [unlocker_says e], w\<lparr>ewFiles := fs\<rparr>)
     | (Inr cert, fs) \<Rightarrow>
         (case pair_show_and_wait U M Q T hostname f cfg p cert as (w\<lparr>ewFiles := fs\<rparr>) of
            (code, out, err, w') \<Rightarrow> (code, summary # out, err, w'))))))))"

section \<open>Lemmas\<close>

text \<open>What a run that found nobody leaves: the header as it was, unless somebody who knew the code was enrolled.\<close>

lemma pair_refused_changes_nothing:
  assumes "runPair U M Q T hostname hint stdin network f as w = (code, out, err, w')"
    and "\<not> validQRMode (pfQr f) \<or> pfDevice f = [] \<or> pfPassphraseFile f = [] \<or> fst network = None \<or>
      (\<forall>p. readPassphrase stdin (ewFiles w) (pfPassphraseFile f) = Inr p \<longrightarrow> (\<exists>e. verifyPassphrase U (ewHeader w) p = Inl e))"
  shows "w' = w \<and> (code = Some 1 \<or> code = Some 2)"
  using assms by (auto simp: runPair_def split: if_splits sum.splits prod.splits option.splits)

end
