(* ===== verification/Completion.thy ===== *)
theory Completion
  imports Label GoTime
begin

text \<open>
  Shell completion, \<open>internal/completion/completion.go\<close>: a program's commands read from its usage
  message, their flags from what \<open>-h\<close> prints, and the scripts for bash, zsh and fish made from them.
\<close>

section \<open>What a program has\<close>

record cflag =
  fgName :: string
  fgValue :: string
  fgUsage :: string

record command =
  cmName :: string
  cmSummary :: string
  cmFlags :: "cflag list"
  cmPositional :: "string list"
  cmPositionalFiles :: bool

record program =
  pmName :: string
  pmCommands :: "command list"

definition TakesFile :: "cflag \<Rightarrow> bool" where
  "TakesFile f \<longleftrightarrow>
    fgValue f \<noteq> [] \<and>
    (fgName f = ''device'' \<or> list_ex (\<lambda>part. sublist part (fgName f)) [''file'', ''conf'', ''dir'', ''path''])"

section \<open>Reading the program's own text\<close>

abbreviation nl :: char where "nl \<equiv> CHR 0x0A"
abbreviation tab :: char where "tab \<equiv> CHR 0x09"

definition map_last :: "('a \<Rightarrow> 'a) \<Rightarrow> 'a list \<Rightarrow> 'a list" where
  "map_last f xs = (if xs = [] then [] else butlast xs @ [f (last xs)])"

definition new_command :: "string \<Rightarrow> command" where
  "new_command trimmed =
    (case cut_at CHR '' '' trimmed of
       None \<Rightarrow> \<lparr>cmName = trimmed, cmSummary = TrimSpace [], cmFlags = [], cmPositional = [], cmPositionalFiles = False\<rparr>
     | Some (name, rest) \<Rightarrow>
         \<lparr>cmName = name, cmSummary = TrimSpace rest, cmFlags = [], cmPositional = [], cmPositionalFiles = False\<rparr>)"

definition usage_line :: "string \<Rightarrow> bool \<times> command list \<Rightarrow> bool \<times> command list" where
  "usage_line line st =
    (case st of (inside, cmds) \<Rightarrow>
      if HasPrefix line ''commands:'' then (True, cmds)
      else if \<not> inside then (False, cmds)
      else if TrimSpace line = [] then (False, cmds)
      else if HasPrefix line ''   '' \<and> length cmds > 0 then
        (inside, map_last (\<lambda>c. c\<lparr>cmSummary := cmSummary c @ '' '' @ TrimSpace line\<rparr>) cmds)
      else if HasPrefix line ''  '' then (inside, cmds @ [new_command (TrimSpace line)])
      else (inside, cmds))"

definition ParseUsage :: "string \<Rightarrow> command list" where
  "ParseUsage usage = snd (fold usage_line (split_on nl usage) (False, []))"

text \<open>A match of \<open>helpFlagLine\<close> on a line, which has no line end: the name and the type it names.\<close>

definition re_space :: "char \<Rightarrow> bool" where
  "re_space c \<longleftrightarrow> c \<in> {CHR 0x09, CHR 0x0A, CHR 0x0C, CHR 0x0D, CHR '' ''}"

definition help_flag_line :: "string \<Rightarrow> (string \<times> string) option" where
  "help_flag_line line =
    (if \<not> HasPrefix line ''  -'' then None
     else
       (let r = (if HasPrefix line ''  --'' then drop 4 line else drop 3 line);
            name = takeWhile (\<lambda>c. \<not> re_space c) r; rest = dropWhile (\<lambda>c. \<not> re_space c) r in
        if name = [] \<or> name ! 0 = CHR ''-'' then None
        else if rest = [] then Some (name, [])
        else if rest ! 0 = CHR '' '' \<and> tl rest \<noteq> [] \<and> list_all (\<lambda>c. \<not> re_space c) (tl rest) then Some (name, tl rest)
        else None))"

definition more_usage :: "string \<Rightarrow> cflag \<Rightarrow> cflag" where
  "more_usage line f =
    f\<lparr>fgUsage := (if fgUsage f \<noteq> [] then fgUsage f @ '' '' else fgUsage f) @ TrimSpace line\<rparr>"

definition help_line :: "string \<Rightarrow> cflag list \<Rightarrow> cflag list" where
  "help_line line flags =
    (case help_flag_line line of
       Some (name, val) \<Rightarrow> flags @ [\<lparr>fgName = name, fgValue = val, fgUsage = []\<rparr>]
     | None \<Rightarrow>
         if HasPrefix line (''    '' @ [tab]) \<and> length flags > 0 then map_last (more_usage line) flags else flags)"

definition ParseHelp :: "string \<Rightarrow> cflag list" where
  "ParseHelp help = fold help_line (split_on nl help) []"

definition Build :: "string \<Rightarrow> string \<Rightarrow> (string \<Rightarrow> string) \<Rightarrow> program" where
  "Build name usage helpOf =
    \<lparr>pmName = name, pmCommands = map (\<lambda>c. c\<lparr>cmFlags := ParseHelp (helpOf (cmName c))\<rparr>) (ParseUsage usage)\<rparr>"

section \<open>Words for the shells\<close>

abbreviation sq :: char where "sq \<equiv> CHR 0x27"
abbreviation dq :: char where "dq \<equiv> CHR 0x22"
abbreviation bs :: char where "bs \<equiv> CHR 0x5C"

definition zshQuote :: "string \<Rightarrow> string" where
  "zshQuote s = [sq] @ concat (map (\<lambda>c. if c = sq then [sq, bs, sq, sq] else [c]) s) @ [sq]"

definition zshSpecText :: "string \<Rightarrow> string" where
  "zshSpecText s = concat (map (\<lambda>c. if c \<in> {bs, CHR ''['', CHR '']'', CHR '':''} then [bs, c] else [c]) s)"

definition zshDescribeEntry :: "string \<Rightarrow> string \<Rightarrow> string" where
  "zshDescribeEntry name summary =
    zshQuote (concat (map (\<lambda>c. if c = CHR '':'' then [bs, c] else [c]) name) @ '':'' @
      concat (map (\<lambda>c. if c = bs then [bs, bs] else [c]) summary))"

definition fishQuote :: "string \<Rightarrow> string" where
  "fishQuote s = [sq] @ concat (map (\<lambda>c. if c = bs \<or> c = sq then [bs, c] else [c]) s) @ [sq]"

definition name_char :: "char \<Rightarrow> bool" where
  "name_char c =
    (let n = of_char c :: nat in 97 \<le> n \<and> n \<le> 122 \<or> 65 \<le> n \<and> n \<le> 90 \<or> 48 \<le> n \<and> n \<le> 57)"

function function_chars :: "string \<Rightarrow> string" where
  "function_chars s =
    (if s = [] then []
     else (case utf8_next s of
             None \<Rightarrow> CHR ''_'' # function_chars (tl s)
           | Some (u, t) \<Rightarrow> (if length u = 1 \<and> name_char (u ! 0) then u ! 0 else CHR ''_'') # function_chars t))"
  by pat_completeness auto

termination
  by (relation "measure length") (auto dest: utf8_next_shrinks)

declare function_chars.simps [simp del]

definition functionName :: "program \<Rightarrow> string" where
  "functionName p = ''_'' @ function_chars (pmName p)"

definition commandNames :: "program \<Rightarrow> string list" where
  "commandNames p = map cmName (pmCommands p)"

definition flagNames :: "command \<Rightarrow> string list" where
  "flagNames c = map (\<lambda>f. ''--'' @ fgName f) (cmFlags c)"

definition unlines :: "string list \<Rightarrow> string" where
  "unlines ls = concat (map (\<lambda>l. l @ [nl]) ls)"

definition commentHeader :: "program \<Rightarrow> string \<Rightarrow> string" where
  "commentHeader p shell =
    unlines [''# '' @ shell @ '' completion for '' @ pmName p @ ''.''] @
    unlines (map ((@) ''# '') (split_on nl
      (''Written by '' @ [dq] @ pmName p @ '' completion '' @ shell @ [dq] @ '' from the program'' @ [sq] @
       ''s own usage and flag help, so it'' @ [nl] @
       ''lists exactly the commands and flags this version has. Do not edit it.'')))"

section \<open>bash\<close>

definition dquoted :: "string \<Rightarrow> string" where
  "dquoted s = [dq] @ s @ [dq]"

definition bash_command :: "command \<Rightarrow> string" where
  "bash_command c =
    (let fileFlags = map (\<lambda>f. ''--'' @ fgName f) (filter TakesFile (cmFlags c));
         otherFlags = map (\<lambda>f. ''--'' @ fgName f) (filter (\<lambda>f. \<not> TakesFile f \<and> fgValue f \<noteq> []) (cmFlags c)) in
     unlines ([[tab] @ cmName c @ '')''] @
       (if cmFlags c \<noteq> [] then [[tab, tab] @ ''flags='' @ Quote (join_with '' '' (flagNames c))] else []) @
       (if fileFlags \<noteq> [] \<or> otherFlags \<noteq> [] then
          [[tab, tab] @ ''case '' @ dquoted ''$prev'' @ '' in''] @
          (if fileFlags \<noteq> [] then
             [[tab, tab] @ join_with ''|'' fileFlags @ '')'',
              [tab, tab, tab] @ ''mapfile -t COMPREPLY < <(compgen -f -- '' @ dquoted ''$cur'' @ '')'',
              [tab, tab, tab] @ ''return ;;''] else []) @
          (if otherFlags \<noteq> [] then
             [[tab, tab] @ join_with ''|'' otherFlags @ '')'', [tab, tab, tab] @ ''return ;;''] else []) @
          [[tab, tab] @ ''esac'']
        else []) @
       (if cmPositional c \<noteq> [] then [[tab, tab] @ ''words='' @ Quote (join_with '' '' (cmPositional c))] else []) @
       (if cmPositionalFiles c then [[tab, tab] @ ''files=1''] else []) @
       [[tab, tab] @ '';;'']))"

definition bash :: "program \<Rightarrow> string" where
  "bash p =
    (let fn = functionName p in
     commentHeader p ''bash'' @
     unlines
       [fn @ ''() {'',
        [tab] @ ''COMPREPLY=()'',
        [tab] @ ''local cur=${COMP_WORDS[COMP_CWORD]} prev='' @ dquoted [],
        [tab] @ ''[ '' @ dquoted ''$COMP_CWORD'' @ '' -ge 1 ] && prev=${COMP_WORDS[COMP_CWORD-1]}'',
        [tab] @ ''if [ '' @ dquoted ''$COMP_CWORD'' @ '' -eq 1 ]; then'',
        [tab, tab] @ ''mapfile -t COMPREPLY < <(compgen -W '' @ Quote (join_with '' '' (commandNames p)) @ '' -- '' @
          dquoted ''$cur'' @ '')'',
        [tab, tab] @ ''return'',
        [tab] @ ''fi'',
        [tab] @ ''local flags='' @ dquoted [] @ '' words='' @ dquoted [] @ '' files='' @ dquoted [],
        [tab] @ ''case '' @ dquoted ''${COMP_WORDS[1]}'' @ '' in''] @
     concat (map bash_command (pmCommands p)) @
     unlines
       [[tab] @ ''*)'',
        [tab, tab] @ ''return ;;'',
        [tab] @ ''esac'',
        [tab] @ ''if [[ $cur == -* ]]; then'',
        [tab, tab] @ ''mapfile -t COMPREPLY < <(compgen -W '' @ dquoted ''$flags'' @ '' -- '' @ dquoted ''$cur'' @ '')'',
        [tab] @ ''elif [ -n '' @ dquoted ''$words'' @ '' ]; then'',
        [tab, tab] @ ''mapfile -t COMPREPLY < <(compgen -W '' @ dquoted ''$words'' @ '' -- '' @ dquoted ''$cur'' @ '')'',
        [tab] @ ''elif [ -n '' @ dquoted ''$files'' @ '' ]; then'',
        [tab, tab] @ ''mapfile -t COMPREPLY < <(compgen -f -- '' @ dquoted ''$cur'' @ '')'',
        [tab] @ ''fi'',
        ''}'',
        ''complete -o filenames -F '' @ fn @ '' '' @ pmName p])"

section \<open>zsh\<close>

definition zsh_spec :: "cflag \<Rightarrow> string" where
  "zsh_spec f =
    ''--'' @ fgName f @
    (if TakesFile f then ''=['' @ zshSpecText (fgUsage f) @ '']:'' @ zshSpecText (fgName f) @ '':_files''
     else if fgValue f \<noteq> [] then ''=['' @ zshSpecText (fgUsage f) @ '']:'' @ zshSpecText (fgName f) @ '':''
     else ''['' @ zshSpecText (fgUsage f) @ '']'')"

definition zsh_argument :: "string \<Rightarrow> string" where
  "zsh_argument spec = '' '' @ [bs, nl, tab, tab, tab] @ zshQuote spec"

definition zsh_command :: "command \<Rightarrow> string" where
  "zsh_command c =
    (if cmFlags c = [] \<and> cmPositional c = [] \<and> \<not> cmPositionalFiles c then []
     else
       [tab] @ cmName c @ '')'' @ [nl, tab, tab] @ ''_arguments'' @
       concat (map (zsh_argument \<circ> zsh_spec) (cmFlags c)) @
       (if cmPositional c \<noteq> [] then zsh_argument (''1:argument:('' @ join_with '' '' (cmPositional c) @ '')'')
        else if cmPositionalFiles c then zsh_argument ''*:argument:_files'' else []) @
       '' ;;'' @ [nl])"

definition zsh :: "program \<Rightarrow> string" where
  "zsh p =
    (let fn = functionName p in
     unlines [''#compdef '' @ pmName p] @
     commentHeader p ''zsh'' @
     unlines ([fn @ ''() {'', [tab] @ ''local -a commands'', [tab] @ ''commands=(''] @
       map (\<lambda>c. [tab, tab] @ zshDescribeEntry (cmName c) (cmSummary c)) (pmCommands p) @
       [[tab] @ '')'', [tab] @ ''if (( CURRENT == 2 )); then'',
        [tab, tab] @ ''_describe -t commands '' @ zshQuote (pmName p @ '' command'') @ '' commands'',
        [tab, tab] @ ''return'', [tab] @ ''fi'', [tab] @ ''case ${words[2]} in'']) @
     concat (map zsh_command (pmCommands p)) @
     unlines [[tab] @ ''esac'', ''}'', fn @ '' '' @ dquoted ''$@''])"

section \<open>fish\<close>

definition fish_command :: "program \<Rightarrow> command \<Rightarrow> string" where
  "fish_command p c =
    (let start = ''complete -c '' @ pmName p @ '' -n '' @ fishQuote (''__fish_seen_subcommand_from '' @ cmName c) in
     unlines (
       map (\<lambda>f. start @ '' -l '' @ fgName f @
         (if TakesFile f then '' -r -F'' else if fgValue f \<noteq> [] then '' -x'' else []) @
         '' -d '' @ fishQuote (fgUsage f)) (cmFlags c) @
       (if cmPositional c \<noteq> [] then [start @ '' -a '' @ fishQuote (join_with '' '' (cmPositional c))] else []) @
       (if cmPositionalFiles c then [start @ '' -F''] else [])))"

definition fish :: "program \<Rightarrow> string" where
  "fish p =
    commentHeader p ''fish'' @
    unlines ([''complete -c '' @ pmName p @ '' -f''] @
      map (\<lambda>c. ''complete -c '' @ pmName p @ '' -n __fish_use_subcommand -a '' @ cmName c @ '' -d '' @ fishQuote (cmSummary c))
        (pmCommands p)) @
    concat (map (fish_command p) (pmCommands p))"

section \<open>The command\<close>

definition Generate :: "string \<Rightarrow> program \<Rightarrow> string res" where
  "Generate shell p =
    (if shell = ''bash'' then Inr (bash p)
     else if shell = ''zsh'' then Inr (zsh p)
     else if shell = ''fish'' then Inr (fish p)
     else Inl (Err (''unknown shell '' @ Quote shell @ '': want bash, zsh or fish'')))"

text \<open>\<open>args\<close> are those left after the flags, of which there are none.\<close>

definition completion_Run ::
    "string \<Rightarrow> string \<Rightarrow> (string \<Rightarrow> string) \<Rightarrow> (program \<Rightarrow> program) \<Rightarrow> string list \<Rightarrow> nat \<times> string \<times> string" where
  "completion_Run name usage helpOf tweak args =
    (if length args \<noteq> 1 then
       (2, [], unlines [''usage: '' @ name @ '' completion bash|zsh|fish'',
          name @ '': completion needs one shell: bash, zsh or fish''])
     else
       (let p = Build name usage helpOf;
            p1 = p\<lparr>pmCommands := map (\<lambda>c. if cmName c = ''completion''
              then c\<lparr>cmPositional := [''bash'', ''zsh'', ''fish'']\<rparr> else c) (pmCommands p)\<rparr> in
        case Generate (args ! 0) (tweak p1) of
          Inl e \<Rightarrow> (2, [], unlines [name @ '': '' @ error_text e])
        | Inr script \<Rightarrow> (0, script, [])))"

text \<open>What the machine's program adds (\<open>cmd/synctang-unlocker/main.go\<close>).\<close>

definition markPositionals :: "program \<Rightarrow> program" where
  "markPositionals p =
    p\<lparr>pmCommands := map (\<lambda>c. if cmName c = ''open'' then c\<lparr>cmPositionalFiles := True\<rparr> else c) (pmCommands p)\<rparr>"

section \<open>What the program prints\<close>

text \<open>
  A usage message and the help of a command as the flag package prints it (\<open>PrintDefaults\<close>, respelled
  with two dashes by \<open>internal/gnuflag\<close>): the reader's input, written out.
\<close>

definition flag_lines :: "cflag \<Rightarrow> string list" where
  "flag_lines f =
    [''  --'' @ fgName f @ (if fgValue f = [] then [] else '' '' @ fgValue f), ''    '' @ [tab] @ fgUsage f]"

definition help_text :: "string \<Rightarrow> cflag list \<Rightarrow> string" where
  "help_text title fs = join_with [nl] (title # concat (map flag_lines fs) @ [[]])"

definition command_line :: "nat \<times> command \<Rightarrow> string" where
  "command_line pc = (case pc of (pad, c) \<Rightarrow> ''  '' @ cmName c @ replicate (Suc pad) CHR '' '' @ cmSummary c)"

definition usage_text :: "string \<Rightarrow> (nat \<times> command) list \<Rightarrow> string" where
  "usage_text title cs = join_with [nl] (title # [] # ''commands:'' # map command_line cs @ [[]])"

definition plain_word :: "string \<Rightarrow> bool" where
  "plain_word s \<longleftrightarrow> s \<noteq> [] \<and> list_all printable s"

definition plain_text :: "string \<Rightarrow> bool" where
  "plain_text s \<longleftrightarrow> s \<noteq> [] \<and> printable (hd s) \<and> printable (last s) \<and> nl \<notin> set s"

definition flag_ok :: "cflag \<Rightarrow> bool" where
  "flag_ok f \<longleftrightarrow>
    plain_word (fgName f) \<and> hd (fgName f) \<noteq> CHR ''-'' \<and> (fgValue f = [] \<or> plain_word (fgValue f)) \<and> plain_text (fgUsage f)"

definition command_ok :: "command \<Rightarrow> bool" where
  "command_ok c \<longleftrightarrow>
    plain_word (cmName c) \<and> plain_text (cmSummary c) \<and> cmFlags c = [] \<and> cmPositional c = [] \<and> \<not> cmPositionalFiles c"

section \<open>Lemmas\<close>

lemma printable_not_space: "printable c \<Longrightarrow> \<not> re_space c \<and> c \<noteq> CHR '' '' \<and> c \<noteq> nl"
  by (auto simp: printable_def re_space_def)

lemma plain_word_clean:
  assumes "plain_word s"
  shows "list_all (\<lambda>c. \<not> re_space c) s" "nl \<notin> set s" "CHR '' '' \<notin> set s"
  using assms printable_not_space by (auto simp: plain_word_def list_all_iff)

lemma blanks_in: "[CHR '' ''] \<in> set ws_encodings" "[tab] \<in> set ws_encodings"
  by (simp_all add: ws_encodings_def)

lemma TrimSpace_tabbed:
  assumes "s \<noteq> []" "printable (hd s)" "printable (last s)"
  shows "TrimSpace (''    '' @ tab # s) = s"
  using TrimSpace_padded [of "replicate 4 [CHR '' ''] @ [[tab]]" "[]" s] assms blanks_in by (auto simp: numeral_eq_Suc)

lemma help_flag_line_flag:
  assumes "flag_ok f"
  shows "help_flag_line (hd (flag_lines f)) = Some (fgName f, fgValue f)"
proof -
  obtain c n where n: "fgName f = c # n" "c \<noteq> CHR ''-''" using assms by (cases "fgName f") (auto simp: flag_ok_def plain_word_def)
  have clean: "list_all (\<lambda>c. \<not> re_space c) (fgName f)" "fgValue f \<noteq> [] \<longrightarrow> list_all (\<lambda>c. \<not> re_space c) (fgValue f)"
    using assms plain_word_clean(1) by (auto simp: flag_ok_def)
  have "takeWhile (\<lambda>c. \<not> re_space c) (fgName f @ r) = fgName f @ takeWhile (\<lambda>c. \<not> re_space c) r"
    "dropWhile (\<lambda>c. \<not> re_space c) (fgName f @ r) = dropWhile (\<lambda>c. \<not> re_space c) r" for r
    using clean(1) by (simp_all add: list_all_iff)
  moreover have "re_space CHR '' ''" by (simp add: re_space_def)
  ultimately show ?thesis using n clean(2) by (auto simp: flag_lines_def help_flag_line_def Let_def)
qed

lemma help_usage_line: "help_flag_line (''    '' @ tab # u) = None"
  by (simp add: help_flag_line_def)

lemma help_line_flag:
  assumes "flag_ok f"
  shows "fold help_line (flag_lines f) flags = flags @ [f]"
proof -
  obtain a b where l: "flag_lines f = [a, b]" "b = ''    '' @ tab # fgUsage f" by (simp add: flag_lines_def)
  have t: "TrimSpace b = fgUsage f" unfolding l(2)
    using assms TrimSpace_tabbed [of "fgUsage f"] by (auto simp: flag_ok_def plain_text_def)
  have "help_line a flags = flags @ [\<lparr>fgName = fgName f, fgValue = fgValue f, fgUsage = []\<rparr>]"
    using help_flag_line_flag [OF assms] l by (simp add: help_line_def)
  then show ?thesis using help_usage_line [of "fgUsage f"] l t by (simp add: help_line_def map_last_def more_usage_def)
qed

lemma ParseHelp_help_text:
  assumes "help_flag_line title = None" "nl \<notin> set title" "list_all flag_ok fs"
  shows "ParseHelp (help_text title fs) = fs"
proof -
  have "nl \<notin> set l" if "l \<in> set (title # concat (map flag_lines fs) @ [[]])" for l
    using that assms plain_word_clean(2) by (auto simp: flag_lines_def flag_ok_def plain_text_def list_all_iff split: if_splits)
  then have s: "split_on nl (help_text title fs) = title # concat (map flag_lines fs) @ [[]]"
    unfolding help_text_def by (intro split_on_join) auto
  have "fold help_line (concat (map flag_lines fs)) flags = flags @ fs" for flags
    using assms(3) by (induction fs arbitrary: flags) (simp_all add: help_line_flag)
  then show ?thesis using assms(1)
    by (simp add: ParseHelp_def s help_line_def map_last_def) (simp add: help_flag_line_def)
qed

lemma usage_line_command:
  assumes "command_ok c"
  shows "usage_line (command_line (pad, c)) (True, cmds) = (True, cmds @ [c])"
proof -
  obtain a n where n: "cmName c = a # n" "printable a" using assms by (cases "cmName c") (auto simp: command_ok_def plain_word_def)
  let ?t = "cmName c @ replicate (Suc pad) CHR '' '' @ cmSummary c"
  have s: "cmSummary c \<noteq> []" "printable (hd (cmSummary c))" "printable (last (cmSummary c))"
    using assms by (auto simp: command_ok_def plain_text_def)
  have "TrimSpace (replicate 2 CHR '' '' @ ?t) = ?t"
    using s n by (intro TrimSpace_blanks) auto
  then have t: "TrimSpace (command_line (pad, c)) = ?t" by (simp add: command_line_def numeral_eq_Suc)
  have "cut_at CHR '' '' ?t = Some (cmName c, replicate pad CHR '' '' @ cmSummary c)"
    using assms plain_word_clean(3) [of "cmName c"] by (simp add: command_ok_def cut_at_append)
  then have "new_command ?t = c"
    using assms TrimSpace_blanks [OF s, of pad] by (simp add: new_command_def command_ok_def)
  moreover have "a \<noteq> CHR '' ''" using printable_not_space [OF n(2)] by simp
  ultimately show ?thesis using n t by (simp add: usage_line_def) (simp add: command_line_def)
qed

lemma ParseUsage_usage_text:
  assumes "\<not> HasPrefix title ''commands:''" "nl \<notin> set title" "list_all (command_ok \<circ> snd) cs"
  shows "ParseUsage (usage_text title cs) = map snd cs"
proof -
  have "nl \<notin> set l" if "l \<in> set (title # [] # ''commands:'' # map command_line cs @ [[]])" for l
    using that assms plain_word_clean(2) by (auto simp: command_line_def command_ok_def plain_text_def list_all_iff)
  then have s: "split_on nl (usage_text title cs) = title # [] # ''commands:'' # map command_line cs @ [[]]"
    unfolding usage_text_def by (intro split_on_join) auto
  have f: "fold usage_line (map command_line cs) (True, cmds) = (True, cmds @ map snd cs)" for cmds
    using assms(3) by (induction cs arbitrary: cmds) (auto simp: usage_line_command)
  have "TrimSpace [] = []" by code_simp
  then show ?thesis using assms(1) f [of "[]"] by (simp add: ParseUsage_def s) (simp add: usage_line_def)
qed

text \<open>Reading a quoted word: in zsh (and bash) a single quote ends it and a backslash outside quotes
  keeps the next character; in fish a backslash inside quotes keeps a quote or a backslash.\<close>

fun sh_read :: "bool \<Rightarrow> string \<Rightarrow> string option" where
  "sh_read False [] = Some []"
| "sh_read True [] = None"
| "sh_read True (c # s) = (if c = sq then sh_read False s else map_option ((#) c) (sh_read True s))"
| "sh_read False (c # s) =
    (if c = sq then sh_read True s
     else if c = bs then (case s of [] \<Rightarrow> None | d # t \<Rightarrow> map_option ((#) d) (sh_read False t)) else None)"

fun fish_read :: "string \<Rightarrow> string option" where
  "fish_read [] = None"
| "fish_read (c # s) =
    (if c = sq then (if s = [] then Some [] else None)
     else if c = bs then
       (case s of [] \<Rightarrow> None
        | d # t \<Rightarrow> if d = bs \<or> d = sq then map_option ((#) d) (fish_read t) else map_option ((#) c) (fish_read (d # t)))
     else map_option ((#) c) (fish_read s))"

lemma zshQuote_read: "sh_read False (zshQuote s) = Some s"
proof -
  have "sh_read True (concat (map (\<lambda>c. if c = sq then [sq, bs, sq, sq] else [c]) s) @ [sq]) = Some s"
    by (induction s) auto
  then show ?thesis by (simp add: zshQuote_def)
qed

lemma fishQuote_read: "fish_read (tl (fishQuote s)) = Some s"
proof -
  have "fish_read (concat (map (\<lambda>c. if c = bs \<or> c = sq then [bs, c] else [c]) s) @ [sq]) = Some s"
    by (induction s) auto
  then show ?thesis by (simp add: fishQuote_def)
qed

section \<open>Property\<close>

text \<open>
  A completion script is made from exactly the commands and flags that the program has: from the
  usage message and the help as they are printed, the same commands with their summaries and the same
  flags with their types and usage are read back, in order and no others; and whatever those texts
  hold, a quoted word of the script is read by the shell as that text.
\<close>

theorem completion_has_what_the_program_has:
  assumes "\<not> HasPrefix title ''commands:''" "nl \<notin> set title" "help_flag_line title = None"
    and "list_all (command_ok \<circ> snd) cs" "\<forall>c. list_all flag_ok (flags c)"
  shows "Build name (usage_text title cs) (\<lambda>c. help_text title (flags c)) =
      \<lparr>pmName = name, pmCommands = map (\<lambda>(pad, c). c\<lparr>cmFlags := flags (cmName c)\<rparr>) cs\<rparr> \<and>
    sh_read False (zshQuote s) = Some s \<and> fish_read (tl (fishQuote s)) = Some s"
  using assms by (auto simp: Build_def ParseUsage_usage_text ParseHelp_help_text zshQuote_read fishQuote_read)

text \<open>One command, one flag.\<close>

lemma completion_has_what_the_program_has_witness:
  "let c = \<lparr>cmName = ''agent'', cmSummary = ''run it'', cmFlags = [], cmPositional = [], cmPositionalFiles = False\<rparr>;
       f = \<lparr>fgName = ''device'', fgValue = ''string'', fgUsage = ''the volume''\<rparr> in
   Build ''synctang-unlocker'' (usage_text ''usage'' [(3, c)]) (\<lambda>_. help_text ''usage'' [f]) =
     \<lparr>pmName = ''synctang-unlocker'', pmCommands = [c\<lparr>cmFlags := [f]\<rparr>]\<rparr>"
proof -
  let ?c = "\<lparr>cmName = ''agent'', cmSummary = ''run it'', cmFlags = [], cmPositional = [], cmPositionalFiles = False\<rparr>"
  let ?f = "\<lparr>fgName = ''device'', fgValue = ''string'', fgUsage = ''the volume''\<rparr>"
  have "list_all (command_ok \<circ> snd) [(3::nat, ?c)]" "list_all flag_ok [?f]"
    by (simp_all add: command_ok_def flag_ok_def plain_word_def plain_text_def printable_def)
  moreover have "\<not> HasPrefix ''usage'' ''commands:''" "nl \<notin> set ''usage''" "help_flag_line ''usage'' = None"
    by (simp_all add: help_flag_line_def)
  ultimately show ?thesis
    using completion_has_what_the_program_has [of "''usage''" "[(3, ?c)]" "\<lambda>_. [?f]" "''synctang-unlocker''"] by (simp add: Let_def)
qed

end
