(* ===== verification/PhoneLog.thy ===== *)
theory PhoneLog
  imports Phone Logging
begin

text \<open>
  The phone's own log, \<open>mobile/log.go\<close>: its level, where it writes, and the words it uses for stages,
  routes and keys.
\<close>

section \<open>The log\<close>

text \<open>The level from which records are written, and where: a writer of the tests, or the standard one.\<close>

record phone_log =
  plLevel :: int
  plOut :: "nat option"

definition phone_log_init :: phone_log where
  "phone_log_init = \<lparr>plLevel = LevelWarn, plOut = None\<rparr>"

definition setLogOutput :: "nat option \<Rightarrow> phone_log \<Rightarrow> phone_log" where
  "setLogOutput w l = l\<lparr>plOut := w\<rparr>"

definition logWriter_Write :: "nat \<Rightarrow> string \<Rightarrow> phone_log \<Rightarrow> nat \<times> string" where
  "logWriter_Write standard p l = (case plOut l of None \<Rightarrow> (standard, p) | Some w \<Rightarrow> (w, p))"

definition SetLogLevel :: "string \<Rightarrow> phone_log \<Rightarrow> unit res \<times> phone_log" where
  "SetLogLevel level l =
    (case map_of [(''trace'', levelTrace), (''debug'', LevelDebug), (''info'', LevelInfo), (''warn'', LevelWarn), (''error'', LevelError)] level of
       None \<Rightarrow> (Inl (Err (''mobile: unknown log level '' @ Quote level @ '', want one of trace, debug, info, warn, error'')), l)
     | Some v \<Rightarrow> (Inr (), l\<lparr>plLevel := v\<rparr>))"

definition logEvent :: "(log_record \<Rightarrow> string) \<Rightarrow> nat \<Rightarrow> log_record \<Rightarrow> phone_log \<Rightarrow> (nat \<times> string) option" where
  "logEvent print standard r l = (if lrLevel r \<ge> plLevel l then Some (logWriter_Write standard (print r) l) else None)"

section \<open>Words\<close>

definition stageName :: "nat \<Rightarrow> string" where
  "stageName stage =
    (case map_of [(StageNone, ''none''), (StageStarting, ''starting''), (StageLookingUp, ''looking_up''),
        (StageConnecting, ''connecting''), (StageCheckingIdentity, ''checking_identity''),
        (StageWaitingForRequest, ''waiting_for_request''), (StageRequestReady, ''request_ready''),
        (StageSendingAnswer, ''sending_answer''), (StageWaitingForVerdict, ''waiting_for_verdict''),
        (StageUnlocked, ''unlocked''), (StageSendingProof, ''sending_proof''),
        (StageWaitingForOperator, ''waiting_for_operator''), (StageEnrolled, ''enrolled'')] stage of
       Some n \<Rightarrow> n | None \<Rightarrow> ''stage_'' @ show_nat stage)"

definition routeName :: "nat \<Rightarrow> string" where
  "routeName route =
    (if route = mobile_RouteRelay then ''relay'' else if route = mobile_RouteLocal then ''local''
     else if route = mobile_RouteDirect then ''direct'' else ''unknown'')"

definition kidPrefix :: "bytes \<Rightarrow> string" where
  "kidPrefix kid = (let s = hex_EncodeToString kid in if length s > 8 then take 8 s else s)"

section \<open>Lemmas\<close>

lemma SetLogLevel_refused: "SetLogLevel level l = (Inl e, l') \<Longrightarrow> l' = l"
  by (auto simp: SetLogLevel_def split: option.splits)

lemma kidPrefix_short: "length (kidPrefix kid) \<le> 8"
  by (simp add: kidPrefix_def Let_def)

text \<open>Two stages never have the same name.\<close>

lemma stageName_distinct: "distinct (map stageName [0..<13])"
  by code_simp

end
