(* ===== verification/Spec2Isabelle.thy ===== *)
theory Spec2Isabelle
  imports Mr1 Wire Label Pair Token LuksDump Enrolment HeaderDemo RotationDemo
    AskPassword Exchange Keyholder Recovery PairFlow PairDemo Race Network Lookup Relay RelayPool LocalNet PhonePair PairCommand
    Completion PhoneLog
begin

text \<open>
  Verification of synctang: a machine with an encrypted volume is unlocked over the network by a key
  holder that was enrolled on it, a phone or a file-backed key on another computer.

  \<^bold>\<open>The program and its parts.\<close>  The protocol is MR-1 (\<open>mrcore\<close>): at enrolment the machine makes a random
  secret, puts its hexadecimal form into a LUKS2 keyslot and seals it so that only the key holder's
  scalar opens it; at recovery it sends a blinded point and opens the seal with the answer.  The
  machine's side is \<open>cmd/synctang-unlocker\<close>, the file-backed key holder \<open>cmd/synctang-keyholder\<close>, the
  phone's side \<open>mobile\<close>; \<open>mrcore/transport\<close> finds the peer through relays and discovery servers or on
  the local network and gives back one connection whose peer was checked.  The machine never trusts
  the network: who may connect, whose key is meant and whether a recovered secret is right are
  decided from its own token and header.

  \<^bold>\<open>Conventions.\<close>  Bytes are 8-bit words, Go strings are lists of bytes (theory \<open>Prelude\<close>); an error is a
  value of \<open>goerr\<close> with its chain and text, a fallible function returns \<open>goerr + 'a\<close>, and state is passed
  explicitly.  Randomness is the stream of bytes read.  Loops over input are recursive functions with
  a measure.  Loops that wait run over the list of what they meet (attempts, looks, passes, events),
  each element with whether the time was up: every finite behaviour is such a list, the result is
  \<open>None\<close> while the loop still waits at the end of the list, and no theorem bounds its length.  The
  reader of JSON alone takes fuel, the length of its input and one, which is always enough for what
  \<open>json_print\<close> writes (\<open>parse_print\<close>); the four attempts of reading a token are the code's own limit.  Durations and
  levels are integers without wrap-around (the saturating difference of times is written out); sizes
  from \<open>/proc/partitions\<close> wrap as \<open>int64\<close> does; the constant-time comparison
  of scalars is on 16-bit words.

  \<^bold>\<open>Theories and code.\<close>
  \<^item> \<open>GoText\<close>, \<open>Encoding\<close>, \<open>Json\<close>, \<open>GoTime\<close>, \<open>GoUrl\<close>: what the code uses of \<open>strings\<close>, \<open>strconv\<close>,
    \<open>encoding/hex\<close>, \<open>base64\<close>, \<open>base32\<close>, \<open>encoding/json\<close>, \<open>bufio.Scanner\<close>, durations, \<open>%q\<close> and query
    strings, with their round trips.
  \<^item> \<open>Group\<close> (\<open>mrcore/group.go\<close>), \<open>Mr1\<close> (\<open>mr1.go\<close>, \<open>recipient.go\<close>): the group operations over a third-party
    curve (\<open>nistec\<close>), enrolment, challenge and finishing.  The locale \<open>mr_group\<close> is the contract of the
    \<open>Group\<close> interface; it is interpreted on the code's \<open>p256Group\<close>.
  \<^item> \<open>Wire\<close> (\<open>wire.go\<close>, \<open>pair.go\<close>): frames and messages.  The locale \<open>msg_codec\<close> is what a message's writer
    and reader promise each other, interpreted on all six messages.
  \<^item> \<open>Label\<close>, \<open>Pair\<close>, \<open>Token\<close> (\<open>label.go\<close>, \<open>pair.go\<close>, \<open>token.go\<close>): text shown to people, the pairing secret
    and its proof, the LUKS2 token with fields of other programs.
  \<^item> \<open>LuksDump\<close>, \<open>Enrolment\<close> (\<open>luksdump.go\<close>, \<open>enrol.go\<close>, \<open>transportid.go\<close>): reading a header and changing it.
    cryptsetup is a record of commands over a header of any type; \<open>cryptsetup_ok\<close> states what its
    manual says, \<open>header_ok\<close> is the invariant of an enrolled header.  \<open>HeaderDemo\<close> and \<open>RotationDemo\<close> are a
    header in memory that satisfies both, on which the witnesses run.
  \<^item> \<open>AskPassword\<close>, \<open>Exchange\<close>, \<open>Recovery\<close> (\<open>agent.go\<close>, \<open>discover.go\<close>): systemd's password requests, the
    machine's side of a recovery, and both sides run against each other.
  \<^item> \<open>Keyholder\<close>, \<open>KeyholderMain\<close> (\<open>cmd/synctang-keyholder\<close>, \<open>transport/cert.go\<close>): the key file, one answer,
    and the commands \<open>init\<close>, \<open>export-pubkey\<close> and \<open>unlock\<close> with the persistent identity.
  \<^item> \<open>PairFlow\<close>, \<open>PairDemo\<close>, \<open>QrImage\<close>, \<open>PairCommand\<close> (\<open>cmd/synctang-unlocker/pair.go\<close>, \<open>qrcode.go\<close>,
    \<open>qrimage.go\<close>): a pairing attempt, the picture of the code, and the command around them.
  \<^item> \<open>Race\<close> (\<open>multi.go\<close>): the goroutines, the channel and the loop of a race as a step relation, with the
    sections of its mutex as steps of their own where a restart between them can be seen.
  \<^item> \<open>Network\<close>, \<open>Lookup\<close>, \<open>Relay\<close>, \<open>RelayPool\<close>, \<open>LocalNet\<close> (\<open>network_config.go\<close>, \<open>discovery_lookup.go\<close>,
    \<open>discovery_backoff.go\<close>, \<open>machine_status.go\<close>, \<open>syncthing_relay.go\<close>, \<open>relaypool.go\<close>, \<open>local_discovery.go\<close>):
    settings, asking discovery, relays, and the local network.
  \<^item> \<open>Phone\<close>, \<open>PhoneSession\<close>, \<open>PhonePair\<close>, \<open>PhoneLog\<close> (\<open>mobile/failure.go\<close>, \<open>progress.go\<close>, \<open>mobile.go\<close>,
    \<open>pair.go\<close>, \<open>log.go\<close>): the bridge of the Android app; \<open>PhoneSpec\<close> is the machine of four states it
    refines, \<open>PhoneRecovery\<close> runs it against \<open>Exchange\<close>.
  \<^item> \<open>Devices\<close>, \<open>Open\<close>, \<open>Initrd\<close>, \<open>Resolver\<close>, \<open>Status\<close>, \<open>Journal\<close>, \<open>Logging\<close> (the files of
    \<open>cmd/synctang-unlocker\<close> of those names, \<open>discover.go\<close>, \<open>machinename.go\<close>, \<open>log.go\<close>, and
    \<open>internal/journal\<close>): finding the volume, opening one on demand, the initrd that has to carry the
    identity, a working resolver at boot, what an operator is shown, and the log.
  \<^item> \<open>Commands\<close> (\<open>cmd/synctang-unlocker/main.go\<close>): \<open>enrol\<close> and the loop of \<open>agent\<close>, over the parts above.
  \<^item> \<open>Completion\<close> (\<open>internal/completion\<close>): completion scripts made from the program's own text.

  \<^bold>\<open>What the lemmas show.\<close>  Enrolment and recovery compose to the identity, and every successful
  operation on a header keeps \<open>header_ok\<close> and changes exactly the slot and the entry it is about; a
  rotation that fails at any step leaves the old key or the new one in a keyslot (the token that
  describes it can be lost when its import fails).  What the machine delivers is always the key of one
  of its own keyslots, recovered from the answer of the one enrolled key holder on the connection that
  was listened for: for one exchange, for \<open>open\<close>, and for any run of the agent (\<open>answered\<close>,
  \<open>approved\<close>).  A pairing changes the header only after the request read on its connection proved the
  code over the nonce sent on it, and with the operator's consent (\<open>asked\<close>, \<open>proved\<close>).  A race hands
  over at most one connection and closes the others, except in the two ways shown; connections are
  pinned; the waits between lookups keep their bounds; announcing keeps the discovery server's record
  young.  The phone's session refines its specification, and
  phone and machine agree on how a pairing ended.  Readers accept what writers write: frames, tokens,
  dumps, settings, links, announcements, journal entries, completion texts, the picture of a code.

  \<^bold>\<open>What is relied on.\<close>  Named hypotheses, each with a concrete function that satisfies it: the curve
  (\<open>nistec_ok\<close>), HKDF, AES-GCM and HMAC (\<open>crypto_ok\<close>, \<open>aead_auth\<close>), cryptsetup (\<open>cryptsetup_ok\<close>), syncthing's
  Device IDs (\<open>devid_ok\<close>), the discovery server (\<open>serves\<close>) and the parser of URLs.

  \<^bold>\<open>Not modelled.\<close>  The grammar of URLs, TLS and HTTP, the relay's own client and its protocol, the
  parsing of dates, the jitter of waits (any jitter is allowed), flag parsing and usage texts, the
  dispatch on a command's name, the running of child processes (\<open>cryptsetup.go\<close>, \<open>lsinitrd\<close>, \<open>dracut\<close>
  as processes), the making of certificates, the QR encoder and the PNG writer, the clock read from
  \<open>/proc/uptime\<close>, wiping memory, and most trace lines: they are library calls or presentation, and come
  in as parameters or inputs where a result depends on them.  \<open>gnuflag\<close> only respells help texts,
  \<open>manpagecheck\<close> and \<open>integration/e2ephone\<close> are for tests.  The Kotlin app and the shell scripts of the
  dracut module are other languages.  A time limit that closes a connection is a connection whose
  bytes end or whose writes fail.  The memory model is not: shared state of goroutines is changed
  only under its lock, which makes each section of a lock one step.
\<close>

end
